(* ===== verification/Go_Prelude.thy ===== *)
theory Go_Prelude
  imports Main "HOL-Library.Word" "HOL-Library.Monad_Syntax"
begin

text \<open>
  The vocabulary shared by every component: machine words and byte slices, the outcome
  of a Go computation that may panic, and the little-endian readers and writers that
  \<open>encoding/binary\<close> gives the protocol code.

  A \<open>[]byte\<close> is a \<open>byte list\<close>; a Go \<open>string\<close> is an Isabelle \<open>string\<close>, a list
  of eight-bit characters, so its length counts bytes as \<open>len\<close> does.
\<close>

unbundle bit_operations_syntax

type_synonym byte = "8 word"
type_synonym u16 = "16 word"
type_synonym u32 = "32 word"

named_theorems wire_defs \<open>definitions of the packet encoders and decoders\<close>
named_theorems wire_simps \<open>facts that evaluate a decoder on an encoded packet\<close>

subsection \<open>Computations that may panic\<close>

text \<open>
  A run-time panic (a slice bound out of range, a nil dereference) is the value
  \<open>Panic\<close>; an error that the code returns is part of the value inside \<open>Ret\<close>.
\<close>

datatype 'a go = Panic | Ret 'a

primrec go_bind :: "'a go \<Rightarrow> ('a \<Rightarrow> 'b go) \<Rightarrow> 'b go" where
  "go_bind Panic f = Panic"
| "go_bind (Ret x) f = f x"

lemma go_bind_eq_Ret: "go_bind m f = Ret y \<longleftrightarrow> (\<exists>x. m = Ret x \<and> f x = Ret y)"
  by (cases m) auto

lemma go_bind_eq_Panic: "go_bind m f = Panic \<longleftrightarrow> m = Panic \<or> (\<exists>x. m = Ret x \<and> f x = Panic)"
  by (cases m) auto

lemma go_bind_assoc: "go_bind (go_bind m f) g = go_bind m (\<lambda>x. go_bind (f x) g)"
  by (cases m) auto

lemma go_not_Panic: "m \<noteq> Panic \<longleftrightarrow> (\<exists>x. m = Ret x)"
  by (cases m) auto

text \<open>Slicing \<open>xs[i:]\<close> and \<open>xs[i:j]\<close> panics outside \<open>0 \<le> i \<le> j \<le> len(xs)\<close>.\<close>

definition slice_from :: "'a list \<Rightarrow> int \<Rightarrow> 'a list go" where
  "slice_from xs i = (if 0 \<le> i \<and> i \<le> int (length xs) then Ret (drop (nat i) xs) else Panic)"

definition slice_range :: "'a list \<Rightarrow> int \<Rightarrow> int \<Rightarrow> 'a list go" where
  "slice_range xs i j =
     (if 0 \<le> i \<and> i \<le> j \<and> j \<le> int (length xs)
      then Ret (take (nat (j - i)) (drop (nat i) xs)) else Panic)"

lemma slice_from_in_range: "0 \<le> i \<Longrightarrow> i \<le> int (length xs) \<Longrightarrow> slice_from xs i = Ret (drop (nat i) xs)"
  by (simp add: slice_from_def)

subsection \<open>Little-endian numbers\<close>

primrec le_bytes :: "nat \<Rightarrow> nat \<Rightarrow> byte list" where
  "le_bytes 0 v = []"
| "le_bytes (Suc k) v = word_of_nat v # le_bytes k (v div 256)"

primrec le_value :: "byte list \<Rightarrow> nat" where
  "le_value [] = 0"
| "le_value (b # bs) = unat b + 256 * le_value bs"

lemma length_le_bytes [simp]: "length (le_bytes k v) = k"
  by (induction k arbitrary: v) auto

lemma le_value_le_bytes: "le_value (le_bytes k v) = v mod 256 ^ k"
proof (induction k arbitrary: v)
  case 0
  show ?case by simp
next
  case (Suc k)
  have "le_value (le_bytes (Suc k) v) = v mod 256 + 256 * (v div 256 mod 256 ^ k)"
    by (simp add: Suc unat_of_nat)
  also have "\<dots> = v mod (256 * 256 ^ k)"
    by (simp add: mod_mult2_eq)
  finally show ?case by simp
qed

lemma le_value_less: "le_value bs < 256 ^ length bs"
proof (induction bs)
  case Nil
  show ?case by simp
next
  case (Cons b bs)
  have "unat b < 256" using unsigned_less [of b, where ?'a = nat] by simp
  moreover have "Suc (le_value bs) \<le> 256 ^ length bs" using Cons by simp
  ultimately have "unat b + 256 * le_value bs < 256 * 256 ^ length bs" by linarith
  then show ?case by simp
qed

lemma le_bytes_le_value: "le_bytes (length bs) (le_value bs) = bs"
proof (induction bs)
  case Nil
  show ?case by simp
next
  case (Cons b bs)
  have "(word_of_nat (256 * le_value bs) :: byte) = 0"
    by (subst word_of_nat_eq_0_iff) simp
  then have "(word_of_nat (unat b + 256 * le_value bs) :: byte) = b"
    by (simp only: of_nat_add of_nat_unat) simp
  moreover have "(unat b + 256 * le_value bs) div 256 = le_value bs"
    using unsigned_less [of b, where ?'a = nat] by simp
  ultimately show ?case using Cons by simp
qed

subsection \<open>binary.Read and binary.Write\<close>

text \<open>
  \<open>binary.Write\<close> appends the little-endian bytes. \<open>binary.Read\<close> into a fixed-size
  integer takes that many bytes; when fewer are left, \<open>io.ReadFull\<close> drains the reader,
  the error is dropped by every caller, and the variable keeps its zero value.
\<close>

definition put_le :: "nat \<Rightarrow> 'a::len word \<Rightarrow> byte list" where
  "put_le k w = le_bytes k (unat w)"

definition get_le :: "nat \<Rightarrow> byte list \<Rightarrow> 'a::len word \<times> byte list" where
  "get_le k bs = (if length bs < k then (0, []) else (word_of_nat (le_value (take k bs)), drop k bs))"

definition put_u8 :: "byte \<Rightarrow> byte list" where "put_u8 = put_le 1"
definition put_u16 :: "u16 \<Rightarrow> byte list" where "put_u16 = put_le 2"
definition put_u32 :: "u32 \<Rightarrow> byte list" where "put_u32 = put_le 4"
definition get_u8 :: "byte list \<Rightarrow> byte \<times> byte list" where "get_u8 = get_le 1"
definition get_u16 :: "byte list \<Rightarrow> u16 \<times> byte list" where "get_u16 = get_le 2"
definition get_u32 :: "byte list \<Rightarrow> u32 \<times> byte list" where "get_u32 = get_le 4"

lemma length_put [simp]:
  "length (put_u8 b) = 1" "length (put_u16 h) = 2" "length (put_u32 w) = 4"
  by (simp_all add: put_u8_def put_u16_def put_u32_def put_le_def)

text \<open>
  \<open>binary.Read\<close> into a slice is all or nothing: a short reader leaves the slice zeroed.
  \<open>Reader.Read\<close> into a slice copies what there is.
\<close>

definition read_slice :: "nat \<Rightarrow> byte list \<Rightarrow> byte list \<times> byte list" where
  "read_slice k bs = (if length bs < k then (replicate k 0, []) else (take k bs, drop k bs))"

definition read_some :: "nat \<Rightarrow> byte list \<Rightarrow> byte list \<times> byte list" where
  "read_some k bs = (take k bs @ replicate (k - length bs) 0, drop k bs)"

lemma read_slice_append: "length xs = k \<Longrightarrow> read_slice k (xs @ r) = (xs, r)"
  by (simp add: read_slice_def)

lemma read_some_append: "length xs = k \<Longrightarrow> read_some k (xs @ r) = (xs, r)"
  by (simp add: read_some_def)

lemma read_slice_all: "read_slice (length xs) xs = (xs, [])"
  by (simp add: read_slice_def)

lemma read_some_all: "read_some (length xs) xs = (xs, [])"
  by (simp add: read_some_def)

lemma length_read_slice [simp]: "length (fst (read_slice k bs)) = k"
  by (simp add: read_slice_def)

lemma length_read_some [simp]: "length (fst (read_some k bs)) = k"
  by (simp add: read_some_def)

subsection \<open>The interface of a field codec\<close>

text \<open>
  What the packet code relies on: reading what was written gives it back and leaves the
  rest of the buffer; a buffer shorter than the field reads as zero and is drained.
\<close>

locale field_codec =
  fixes enc :: "'v \<Rightarrow> byte list"
    and dec :: "byte list \<Rightarrow> 'v \<times> byte list"
    and width :: nat
    and zero :: 'v
  assumes enc_length: "length (enc v) = width"
    and dec_enc: "dec (enc v @ r) = (v, r)"
    and dec_short: "length bs < width \<Longrightarrow> dec bs = (zero, [])"
begin

lemma dec_enc_only: "dec (enc v) = (v, [])"
  using dec_enc [of v "[]"] by simp

lemma enc_inject: "enc v = enc w \<longleftrightarrow> v = w"
  by (metis dec_enc_only fst_conv)

lemma enc_append_inject: "enc v @ r = enc w @ s \<longleftrightarrow> v = w \<and> r = s"
  by (metis dec_enc prod.inject)

end

lemma get_put_le:
  assumes "256 ^ k = (2::nat) ^ LENGTH('a::len)"
  shows "get_le k (put_le k w @ r) = (w :: 'a word, r)"
  using assms unsigned_less [of w, where ?'a = nat] by (simp add: get_le_def put_le_def le_value_le_bytes)

interpretation u8: field_codec put_u8 get_u8 1 0
  by unfold_locales (simp_all add: put_u8_def get_u8_def get_put_le, simp_all add: put_le_def get_le_def)

interpretation u16: field_codec put_u16 get_u16 2 0
  by unfold_locales (simp_all add: put_u16_def get_u16_def get_put_le, simp_all add: put_le_def get_le_def)

interpretation u32: field_codec put_u32 get_u32 4 0
  by unfold_locales (simp_all add: put_u32_def get_u32_def get_put_le, simp_all add: put_le_def get_le_def)

lemmas [wire_simps] = u8.dec_enc u16.dec_enc u32.dec_enc
  u8.dec_enc_only u16.dec_enc_only u32.dec_enc_only read_slice_append read_some_append read_slice_all read_some_all

end
