(* ===== verification/Wire.thy ===== *)
theory Wire
  imports Go_Prelude
begin

text \<open>
  The wire format of the gateway protocol: the constants of \<open>types.go\<close> and
  \<open>errors.go\<close>, the eight-byte packet header that \<open>createPacket\<close> writes, and
  \<open>readHeader\<close>, which parses and checks it. The lemmas show that parsing inverts
  writing, whatever follows in the buffer, and say exactly when parsing fails or panics.
\<close>

subsection \<open>Constants\<close>

definition PKT_TYPE_HANDSHAKE_REQUEST :: int where [wire_defs]: "PKT_TYPE_HANDSHAKE_REQUEST = 0x1"
definition PKT_TYPE_HANDSHAKE_RESPONSE :: int where [wire_defs]: "PKT_TYPE_HANDSHAKE_RESPONSE = 0x2"
definition PKT_TYPE_TUNNEL_CREATE :: int where [wire_defs]: "PKT_TYPE_TUNNEL_CREATE = 0x4"
definition PKT_TYPE_TUNNEL_RESPONSE :: int where [wire_defs]: "PKT_TYPE_TUNNEL_RESPONSE = 0x5"
definition PKT_TYPE_TUNNEL_AUTH :: int where [wire_defs]: "PKT_TYPE_TUNNEL_AUTH = 0x6"
definition PKT_TYPE_TUNNEL_AUTH_RESPONSE :: int where [wire_defs]: "PKT_TYPE_TUNNEL_AUTH_RESPONSE = 0x7"
definition PKT_TYPE_CHANNEL_CREATE :: int where [wire_defs]: "PKT_TYPE_CHANNEL_CREATE = 0x8"
definition PKT_TYPE_CHANNEL_RESPONSE :: int where [wire_defs]: "PKT_TYPE_CHANNEL_RESPONSE = 0x9"
definition PKT_TYPE_DATA :: int where [wire_defs]: "PKT_TYPE_DATA = 0xA"
definition PKT_TYPE_KEEPALIVE :: int where [wire_defs]: "PKT_TYPE_KEEPALIVE = 0xD"
definition PKT_TYPE_CLOSE_CHANNEL :: int where [wire_defs]: "PKT_TYPE_CLOSE_CHANNEL = 0x10"
definition PKT_TYPE_CLOSE_CHANNEL_RESPONSE :: int where [wire_defs]: "PKT_TYPE_CLOSE_CHANNEL_RESPONSE = 0x11"

definition HTTP_TUNNEL_RESPONSE_FIELD_TUNNEL_ID :: u16 where [wire_defs]: "HTTP_TUNNEL_RESPONSE_FIELD_TUNNEL_ID = 0x01"
definition HTTP_TUNNEL_RESPONSE_FIELD_CAPS :: u16 where [wire_defs]: "HTTP_TUNNEL_RESPONSE_FIELD_CAPS = 0x02"
definition HTTP_EXTENDED_AUTH_SC :: u16 where [wire_defs]: "HTTP_EXTENDED_AUTH_SC = 0x1"
definition HTTP_EXTENDED_AUTH_PAA :: u16 where [wire_defs]: "HTTP_EXTENDED_AUTH_PAA = 0x02"
definition HTTP_EXTENDED_AUTH_SSPI_NTLM :: u16 where [wire_defs]: "HTTP_EXTENDED_AUTH_SSPI_NTLM = 0x04"
definition HTTP_TUNNEL_AUTH_RESPONSE_FIELD_REDIR_FLAGS :: u16 where [wire_defs]: "HTTP_TUNNEL_AUTH_RESPONSE_FIELD_REDIR_FLAGS = 0x01"
definition HTTP_TUNNEL_AUTH_RESPONSE_FIELD_IDLE_TIMEOUT :: u16 where [wire_defs]: "HTTP_TUNNEL_AUTH_RESPONSE_FIELD_IDLE_TIMEOUT = 0x02"
definition HTTP_TUNNEL_REDIR_ENABLE_ALL :: u32 where [wire_defs]: "HTTP_TUNNEL_REDIR_ENABLE_ALL = 0x80000000"
definition HTTP_TUNNEL_REDIR_DISABLE_ALL :: u32 where [wire_defs]: "HTTP_TUNNEL_REDIR_DISABLE_ALL = 0x40000000"
definition HTTP_TUNNEL_REDIR_DISABLE_DRIVE :: u32 where [wire_defs]: "HTTP_TUNNEL_REDIR_DISABLE_DRIVE = 0x01"
definition HTTP_TUNNEL_REDIR_DISABLE_PRINTER :: u32 where [wire_defs]: "HTTP_TUNNEL_REDIR_DISABLE_PRINTER = 0x02"
definition HTTP_TUNNEL_REDIR_DISABLE_PORT :: u32 where [wire_defs]: "HTTP_TUNNEL_REDIR_DISABLE_PORT = 0x04"
definition HTTP_TUNNEL_REDIR_DISABLE_CLIPBOARD :: u32 where [wire_defs]: "HTTP_TUNNEL_REDIR_DISABLE_CLIPBOARD = 0x08"
definition HTTP_TUNNEL_REDIR_DISABLE_PNP :: u32 where [wire_defs]: "HTTP_TUNNEL_REDIR_DISABLE_PNP = 0x10"
definition HTTP_CHANNEL_RESPONSE_FIELD_CHANNELID :: u16 where [wire_defs]: "HTTP_CHANNEL_RESPONSE_FIELD_CHANNELID = 0x01"
definition HTTP_TUNNEL_PACKET_FIELD_PAA_COOKIE :: u16 where [wire_defs]: "HTTP_TUNNEL_PACKET_FIELD_PAA_COOKIE = 0x1"
definition HTTP_CAPABILITY_IDLE_TIMEOUT :: u32 where [wire_defs]: "HTTP_CAPABILITY_IDLE_TIMEOUT = 0x2"

definition SERVER_STATE_INITIALIZED :: int where "SERVER_STATE_INITIALIZED = 0x0"
definition SERVER_STATE_HANDSHAKE :: int where "SERVER_STATE_HANDSHAKE = 0x1"
definition SERVER_STATE_TUNNEL_CREATE :: int where "SERVER_STATE_TUNNEL_CREATE = 0x2"
definition SERVER_STATE_TUNNEL_AUTHORIZE :: int where "SERVER_STATE_TUNNEL_AUTHORIZE = 0x3"
definition SERVER_STATE_CHANNEL_CREATE :: int where "SERVER_STATE_CHANNEL_CREATE = 0x4"
definition SERVER_STATE_OPENED :: int where "SERVER_STATE_OPENED = 0x5"
definition SERVER_STATE_CLOSED :: int where "SERVER_STATE_CLOSED = 0x6"

lemmas server_state_defs = SERVER_STATE_INITIALIZED_def SERVER_STATE_HANDSHAKE_def
  SERVER_STATE_TUNNEL_CREATE_def SERVER_STATE_TUNNEL_AUTHORIZE_def
  SERVER_STATE_CHANNEL_CREATE_def SERVER_STATE_OPENED_def SERVER_STATE_CLOSED_def

definition ERROR_SUCCESS :: u32 where "ERROR_SUCCESS = 0x00000000"
definition ERROR_ACCESS_DENIED :: u32 where "ERROR_ACCESS_DENIED = 0x00000005"
definition E_PROXY_INTERNALERROR :: u32 where "E_PROXY_INTERNALERROR = 0x800759D8"
definition E_PROXY_RAP_ACCESSDENIED :: u32 where "E_PROXY_RAP_ACCESSDENIED = 0x800759DA"
definition E_PROXY_COOKIE_AUTHENTICATION_ACCESS_DENIED :: u32 where
  "E_PROXY_COOKIE_AUTHENTICATION_ACCESS_DENIED = 0x800759F8"
definition E_PROXY_CAPABILITYMISMATCH :: u32 where "E_PROXY_CAPABILITYMISMATCH = 0x800759E9"

lemmas error_code_defs = ERROR_SUCCESS_def ERROR_ACCESS_DENIED_def E_PROXY_INTERNALERROR_def
  E_PROXY_RAP_ACCESSDENIED_def E_PROXY_COOKIE_AUTHENTICATION_ACCESS_DENIED_def
  E_PROXY_CAPABILITYMISMATCH_def

subsection \<open>The packet header\<close>

definition createPacket :: "int \<Rightarrow> byte list \<Rightarrow> byte list" where
  "createPacket pktType data =
     (let size = int (length data) + 8
      in put_u16 (word_of_int pktType) @ put_u16 0 @ put_u32 (word_of_int size) @ data)"

datatype frame_error =
    HeaderTooShort          \<comment> \<open>"header too short, fragment likely"\<close>
  | DataIncomplete          \<comment> \<open>"data incomplete, fragment received"\<close>
  | FragmentTooLarge        \<comment> \<open>"fragment exceeded max fragment size"\<close>
  | TransportError          \<comment> \<open>the error that \<open>ReadPacket\<close> returned\<close>

text \<open>
  The result is the packet type, the size field, the payload and the error. The final
  slice \<open>data[8:size]\<close> is taken with no check that the size field is at least 8.
\<close>

definition readHeader :: "byte list \<Rightarrow> (u16 \<times> u32 \<times> byte list \<times> frame_error option) go" where
  "readHeader data =
     (if length data < 8 then Ret (0, 0, [], Some HeaderTooShort)
      else let packetType = fst (get_u16 data);
               size = fst (get_u32 (drop 4 data))
           in if int (length data) < uint size
              then Ret (packetType, size, drop 8 data, Some DataIncomplete)
              else go_bind (slice_range data 8 (uint size))
                     (\<lambda>packet. Ret (packetType, size, packet, None)))"

lemma length_createPacket: "length (createPacket t d) = 8 + length d"
  by (simp add: createPacket_def Let_def)

lemma get_u16_append: "2 \<le> length xs \<Longrightarrow> fst (get_u16 (xs @ r)) = fst (get_u16 xs)"
  by (simp add: get_u16_def get_le_def)

lemma get_u32_append: "4 \<le> length xs \<Longrightarrow> fst (get_u32 (xs @ r)) = fst (get_u32 xs)"
  by (simp add: get_u32_def get_le_def)

text \<open>The two header fields of a packet, and of any buffer that starts with it.\<close>

lemma header_type: "fst (get_u16 (createPacket t d @ r)) = word_of_int t"
  by (simp add: createPacket_def Let_def wire_simps)

lemma header_size: "fst (get_u32 (drop 4 (createPacket t d @ r))) = word_of_int (int (length d) + 8)"
proof -
  have "drop 4 (createPacket t d @ r) = put_u32 (word_of_int (int (length d) + 8)) @ d @ r"
    by (simp add: createPacket_def Let_def)
  then show ?thesis by (simp only: u32.dec_enc) simp
qed

lemma uint_size:
  assumes "length d + 8 < 2 ^ 32"
  shows "uint (word_of_int (int (length d) + 8) :: u32) = int (length d) + 8"
  using assms by (subst uint_word_of_int_eq) (simp add: take_bit_eq_mod)

lemma readHeader_createPacket:
  assumes "length d + 8 < 2 ^ 32"
  shows "readHeader (createPacket t d @ r)
       = Ret (word_of_int t, word_of_int (int (length d) + 8), d, None)"
proof -
  have sl: "slice_range (createPacket t d @ r) 8 (int (length d) + 8) = Ret d"
    by (simp add: slice_range_def createPacket_def Let_def)
  show ?thesis
    unfolding readHeader_def Let_def header_type header_size uint_size [OF assms] sl
    by (simp add: length_createPacket)
qed

text \<open>A proper prefix of a packet is reported as a fragment, never as a message.\<close>

lemma readHeader_prefix:
  assumes "length d + 8 < 2 ^ 32" and "k < length (createPacket t d)"
  shows "\<exists>pt sz m e. readHeader (take k (createPacket t d)) = Ret (pt, sz, m, Some e)"
proof (cases "k < 8")
  case True
  then have "length (take k (createPacket t d)) < 8" by simp
  then show ?thesis unfolding readHeader_def by simp
next
  case False
  let ?p = "createPacket t d"
  have len: "length (drop 4 (take k ?p)) \<ge> 4"
    using assms(2) False by simp
  have "drop 4 ?p = drop 4 (take k ?p) @ drop k ?p"
    using False by (metis append_take_drop_id drop_append length_take assms(2) drop0 min.absorb4
        diff_is_0_eq' less_imp_le_nat not_less order_trans numeral_le_iff semiring_norm(68,69,71))
  then have "fst (get_u32 (drop 4 (take k ?p))) = fst (get_u32 (drop 4 ?p))"
    using get_u32_append [OF len, of "drop k ?p"] by simp
  then have size: "fst (get_u32 (drop 4 (take k ?p))) = word_of_int (int (length d) + 8)"
    using header_size [of t d "[]"] by simp
  show ?thesis
    using assms False unfolding readHeader_def Let_def size uint_size [OF assms(1)]
    by (simp add: length_createPacket)
qed

text \<open>The only panic: a whole header whose size field is below the header's own length.\<close>

lemma readHeader_Panic_iff:
  "readHeader data = Panic \<longleftrightarrow> 8 \<le> length data \<and> uint (fst (get_u32 (drop 4 data))) < 8"
  by (auto simp: readHeader_def Let_def slice_range_def)

lemma readHeader_ok:
  assumes "readHeader data = Ret (pt, sz, m, None)"
  shows "8 \<le> uint sz" and "uint sz \<le> int (length data)"
    and "m = take (nat (uint sz) - 8) (drop 8 data)" and "sz = fst (get_u32 (drop 4 data))"
    and "pt = fst (get_u16 data)"
  using assms by (auto simp: readHeader_def Let_def slice_range_def nat_diff_distrib split: if_splits)

lemma readHeader_fragment:
  assumes "readHeader data = Ret (pt, sz, m, Some e)"
  shows "length data < 8 \<or> int (length data) < uint (fst (get_u32 (drop 4 data)))"
  using assms by (auto simp: readHeader_def Let_def slice_range_def split: if_splits)

text \<open>A buffer that starts with one whole packet of type \<open>t\<close> and payload \<open>m\<close>.\<close>

definition carries :: "byte list \<Rightarrow> int \<Rightarrow> byte list \<Rightarrow> bool" where
  "carries p t m \<longleftrightarrow> readHeader p = Ret (word_of_int t, word_of_int (int (length m) + 8), m, None)"

lemma carries_createPacket: "length d + 8 < 2 ^ 32 \<Longrightarrow> carries (createPacket t d) t m \<longleftrightarrow> m = d"
  using readHeader_createPacket [of d t "[]"] by (auto simp: carries_def)

end
