(* ===== verification/Framing.thy ===== *)
theory Framing
  imports Wire
begin

text \<open>
  Reading messages from a transport: \<open>packet_reader.go\<close>, the two transports of
  \<open>transport/\<close>, and \<open>handleMsgFrame\<close> and \<open>readMessage\<close> of \<open>common.go\<close>. The client's
  side of the connection is the list of results that successive \<open>ReadPacket\<close> calls
  will return; when the list is empty the connection is closed and \<open>ReadPacket\<close> fails.

  \<open>handleMsgFrame\<close> is total: each round of its loop consumes a read. The loop of
  \<open>readMessage\<close> may run forever, so it is a partial function into \<open>option\<close>.
\<close>

subsection \<open>Transports\<close>

record read_res =
  rd_n :: nat
  rd_p :: "byte list"
  rd_err :: bool

text \<open>What \<open>websocket.Conn.ReadMessage\<close> delivers: an error, or a frame and whether it is binary.\<close>

datatype ws_event = WSError | WSMessage bool "byte list"

fun ws_ReadPacket :: "ws_event \<Rightarrow> read_res" where
  "ws_ReadPacket WSError = \<lparr>rd_n = 0, rd_p = [0, 0], rd_err = True\<rparr>"
| "ws_ReadPacket (WSMessage True m) = \<lparr>rd_n = length m, rd_p = m, rd_err = False\<rparr>"
| "ws_ReadPacket (WSMessage False m) = \<lparr>rd_n = length m, rd_p = m, rd_err = True\<rparr>"

text \<open>
  What the chunked reader of a legacy connection delivers into the 4096-byte buffer:
  some bytes, and possibly an error with them.
\<close>

datatype chunk_event = Chunk "byte list" bool

fun legacy_ReadPacket :: "chunk_event \<Rightarrow> read_res" where
  "legacy_ReadPacket (Chunk bs err) =
     (let p = take 4096 bs in \<lparr>rd_n = length p, rd_p = p, rd_err = err\<rparr>)"

subsection \<open>The packet reader\<close>

record packetReader =
  pr_in :: "read_res list"
  pr_size :: int
  pr_pkt :: "byte list"
  pr_err :: bool
  pr_ptr :: int

definition newTransportPacket :: "read_res list \<Rightarrow> packetReader" where
  "newTransportPacket tr = \<lparr>pr_in = tr, pr_size = 0, pr_pkt = [], pr_err = False, pr_ptr = 0\<rparr>"

definition hasMoreData :: "packetReader \<Rightarrow> bool" where
  "hasMoreData t \<longleftrightarrow> pr_ptr t < pr_size t"

definition getPtr :: "packetReader \<Rightarrow> byte list go" where
  "getPtr t = slice_from (pr_pkt t) (pr_ptr t)"

definition incrementPtr :: "packetReader \<Rightarrow> int \<Rightarrow> packetReader" where
  "incrementPtr t sz = t\<lparr>pr_ptr := pr_ptr t + sz\<rparr>"

definition pr_read :: "packetReader \<Rightarrow> bool \<times> packetReader" where
  "pr_read t =
     (case pr_in t of
        [] \<Rightarrow> (True, t\<lparr>pr_size := 0, pr_pkt := [], pr_err := True, pr_ptr := 0\<rparr>)
      | r # rs \<Rightarrow>
          (rd_err r, t\<lparr>pr_in := rs, pr_size := (if rd_err r then 0 else int (rd_n r)),
                       pr_pkt := rd_p r, pr_err := rd_err r, pr_ptr := 0\<rparr>))"

lemma pr_read_less: "pr_read t = (False, t') \<Longrightarrow> length (pr_in t') < length (pr_in t)"
  by (auto simp: pr_read_def split: list.splits)

subsection \<open>Messages\<close>

record message =
  packetType :: int
  mlength :: int
  msg :: "byte list"
  merr :: "frame_error option"

definition maxFragmentSize :: nat where
  "maxFragmentSize = 65536"

abbreviation mk_message :: "u16 \<Rightarrow> u32 \<Rightarrow> byte list \<Rightarrow> frame_error option \<Rightarrow> message" where
  "mk_message pt sz m e \<equiv> \<lparr>packetType = uint pt, mlength = uint sz, msg = m, merr = e\<rparr>"

text \<open>
  The loop of \<open>handleMsgFrame\<close>. \<open>frag\<close> is \<open>buf[:index]\<close>, the bytes of the message
  collected so far; \<open>append(buf[:index], ...)\<close> is \<open>frag\<close> followed by the new frame.
\<close>

function fragment_loop ::
  "byte list \<Rightarrow> u16 \<Rightarrow> u32 \<Rightarrow> byte list \<Rightarrow> packetReader \<Rightarrow> (message \<times> packetReader) go" where
  "fragment_loop frag pt sz m t =
     (case getPtr t of
        Panic \<Rightarrow> Panic
      | Ret cur \<Rightarrow>
          if length cur > maxFragmentSize - length frag
          then Ret (mk_message pt sz m (Some FragmentTooLarge), t)
          else
            (case pr_read t of
               (True, t') \<Rightarrow> Ret (mk_message pt sz m (Some TransportError), t')
             | (False, t') \<Rightarrow>
                 (case getPtr t' of
                    Panic \<Rightarrow> Panic
                  | Ret nxt \<Rightarrow>
                      (case readHeader ((frag @ cur) @ nxt) of
                         Panic \<Rightarrow> Panic
                       | Ret (pt', sz', m', None) \<Rightarrow>
                           Ret (mk_message pt' sz' m' None,
                                incrementPtr t' (uint sz' - int (length (frag @ cur))))
                       | Ret (pt', sz', m', Some e) \<Rightarrow>
                           fragment_loop (frag @ cur) pt' sz' m' t'))))"
  by pat_completeness auto
termination
  by (relation "measure (\<lambda>(frag, pt, sz, m, t). length (pr_in t))") (auto dest: pr_read_less [OF sym])

declare fragment_loop.simps [simp del]

definition handleMsgFrame :: "packetReader \<Rightarrow> (message \<times> packetReader) go" where
  "handleMsgFrame packet =
     go_bind (getPtr packet) (\<lambda>cur.
     go_bind (readHeader cur) (\<lambda>(pt, sz, m, err).
       case err of
         None \<Rightarrow> Ret (mk_message pt sz m None, incrementPtr packet (uint sz))
       | Some _ \<Rightarrow> fragment_loop [] pt sz m packet))"

partial_function (option) read_loop ::
  "packetReader \<Rightarrow> message list \<Rightarrow> (message list \<times> packetReader) go option" where
  "read_loop packet messages =
     (if hasMoreData packet
      then (case handleMsgFrame packet of
              Panic \<Rightarrow> Some Panic
            | Ret (message, packet') \<Rightarrow> read_loop packet' (messages @ [message]))
      else Some (Ret (messages, packet)))"

text \<open>
  \<open>readMessage\<close> returns the messages and whether the first read failed; the second
  component is what the transport has left. \<open>None\<close> means that it never returns.
\<close>

definition readMessage :: "read_res list \<Rightarrow> ((message list \<times> bool) \<times> read_res list) go option" where
  "readMessage tr =
     (case pr_read (newTransportPacket tr) of
        (True, packet) \<Rightarrow> Some (Ret (([], True), pr_in packet))
      | (False, packet) \<Rightarrow>
          map_option (\<lambda>res. go_bind res (\<lambda>(messages, packet'). Ret ((messages, False), pr_in packet')))
            (read_loop packet []))"

subsection \<open>The transport interface\<close>

definition sound_read :: "read_res \<Rightarrow> bool" where
  "sound_read r \<longleftrightarrow> rd_err r \<or> rd_n r = length (rd_p r)"

locale transport =
  fixes deliver :: "'event \<Rightarrow> read_res"
  assumes reported_size: "\<not> rd_err (deliver e) \<Longrightarrow> rd_n (deliver e) = length (rd_p (deliver e))"
begin

lemma deliver_sound: "list_all sound_read (map deliver es)"
  using reported_size by (induction es) (auto simp: sound_read_def)

end

interpretation ws: transport ws_ReadPacket
proof
  fix e show "\<not> rd_err (ws_ReadPacket e) \<Longrightarrow> rd_n (ws_ReadPacket e) = length (rd_p (ws_ReadPacket e))"
    by (cases e rule: ws_ReadPacket.cases) auto
qed

interpretation legacy: transport legacy_ReadPacket
proof
  fix e
  show "\<not> rd_err (legacy_ReadPacket e) \<Longrightarrow>
      rd_n (legacy_ReadPacket e) = length (rd_p (legacy_ReadPacket e))"
    by (cases e) (auto simp: Let_def)
qed

definition wf_reader :: "packetReader \<Rightarrow> bool" where
  "wf_reader t \<longleftrightarrow> 0 \<le> pr_ptr t \<and> pr_ptr t \<le> int (length (pr_pkt t))
     \<and> pr_size t \<le> int (length (pr_pkt t)) \<and> list_all sound_read (pr_in t)"

definition pending :: "packetReader \<Rightarrow> byte list" where
  "pending t = drop (nat (pr_ptr t)) (pr_pkt t)"

definition stream :: "packetReader \<Rightarrow> byte list" where
  "stream t = pending t @ concat (map rd_p (pr_in t))"

definition incomplete :: "byte list \<Rightarrow> bool" where
  "incomplete b \<longleftrightarrow> length b < 8 \<or> int (length b) < uint (fst (get_u32 (drop 4 b)))"

definition undersized :: "byte list \<Rightarrow> bool" where
  "undersized b \<longleftrightarrow> 8 \<le> length b \<and> uint (fst (get_u32 (drop 4 b))) < 8"

definition reads_upto :: "nat \<Rightarrow> packetReader \<Rightarrow> bool" where
  "reads_upto B t \<longleftrightarrow> length (pending t) \<le> B \<and> list_all (\<lambda>r. length (rd_p r) \<le> B) (pr_in t)"

lemma getPtr_wf: "wf_reader t \<Longrightarrow> getPtr t = Ret (pending t)"
  by (simp add: getPtr_def slice_from_def wf_reader_def pending_def)

lemma size_field_append: "8 \<le> length b \<Longrightarrow> fst (get_u32 (drop 4 (b @ r))) = fst (get_u32 (drop 4 b))"
  by (simp add: get_u32_append)

lemma undersized_append: "undersized b \<Longrightarrow> undersized (b @ r)"
  using size_field_append [of b r] by (auto simp: undersized_def simp del: drop_append)

lemma readHeader_undersized: "readHeader b = Panic \<longleftrightarrow> undersized b"
  by (simp add: readHeader_Panic_iff undersized_def)

lemma readHeader_incomplete: "readHeader b = Ret (pt, sz, m, Some e) \<Longrightarrow> incomplete b"
  using readHeader_fragment [of b pt sz m e] by (auto simp: incomplete_def)

lemma incomplete_extended:
  assumes "incomplete b" and "readHeader (b @ r) = Ret (pt, sz, m, None)"
  shows "int (length b) < uint sz" and "uint sz \<le> int (length b + length r)"
proof -
  show "uint sz \<le> int (length b + length r)"
    using readHeader_ok(2) [OF assms(2)] by simp
  show "int (length b) < uint sz"
  proof (cases "length b < 8")
    case True
    then show ?thesis using readHeader_ok(1) [OF assms(2)] by linarith
  next
    case False
    then show ?thesis
      using assms(1) readHeader_ok(4) [OF assms(2)] size_field_append [of b r]
      by (simp add: incomplete_def)
  qed
qed

lemma pr_read_wf:
  assumes "wf_reader t" and "pr_read t = (e, t')"
  shows "wf_reader t'" and "\<exists>as. stream t = pending t @ as @ stream t'"
    and "\<not> e \<Longrightarrow> stream t = pending t @ stream t'"
    and "\<not> e \<Longrightarrow> \<exists>r. pr_in t = r # pr_in t' \<and> pending t' = rd_p r"
    and "reads_upto B t \<Longrightarrow> reads_upto B t'"
  using assms
  by (auto simp: pr_read_def wf_reader_def pending_def stream_def sound_read_def reads_upto_def
      split: list.splits)

lemma incrementPtr_wf:
  assumes "wf_reader t" and "0 \<le> k" and "k \<le> int (length (pending t))"
  shows "wf_reader (incrementPtr t k)" and "pr_in (incrementPtr t k) = pr_in t"
    and "pending (incrementPtr t k) = drop (nat k) (pending t)"
    and "stream t = take (nat k) (pending t) @ stream (incrementPtr t k)"
    and "reads_upto B t \<Longrightarrow> reads_upto B (incrementPtr t k)"
proof -
  show p: "pending (incrementPtr t k) = drop (nat k) (pending t)"
    using assms by (simp add: wf_reader_def incrementPtr_def pending_def nat_add_distrib add.commute)
  show "wf_reader (incrementPtr t k)" and i: "pr_in (incrementPtr t k) = pr_in t"
    using assms by (auto simp: wf_reader_def incrementPtr_def pending_def)
  show "stream t = take (nat k) (pending t) @ stream (incrementPtr t k)"
    by (simp add: stream_def p i)
  show "reads_upto B t \<Longrightarrow> reads_upto B (incrementPtr t k)"
    by (auto simp: reads_upto_def p i)
qed

text \<open>One round of the fragment loop, on its three exits.\<close>

lemma fragment_loop_too_large:
  assumes "wf_reader t" and "length (pending t) > maxFragmentSize - length frag"
  shows "fragment_loop frag pt sz m t = Ret (mk_message pt sz m (Some FragmentTooLarge), t)"
  using assms by (subst fragment_loop.simps) (simp add: getPtr_wf)

lemma fragment_loop_read_error:
  assumes "wf_reader t" and "length (pending t) \<le> maxFragmentSize - length frag"
    and "pr_read t = (True, t')"
  shows "fragment_loop frag pt sz m t = Ret (mk_message pt sz m (Some TransportError), t')"
  using assms by (subst fragment_loop.simps) (simp add: getPtr_wf)

lemma fragment_loop_next:
  assumes "wf_reader t" and "length (pending t) \<le> maxFragmentSize - length frag"
    and "pr_read t = (False, t')"
  shows "fragment_loop frag pt sz m t =
     (case readHeader ((frag @ pending t) @ pending t') of
        Panic \<Rightarrow> Panic
      | Ret (pt', sz', m', None) \<Rightarrow>
          Ret (mk_message pt' sz' m' None,
               incrementPtr t' (uint sz' - int (length (frag @ pending t))))
      | Ret (pt', sz', m', Some e) \<Rightarrow> fragment_loop (frag @ pending t) pt' sz' m' t')"
  using assms pr_read_wf(1) [OF assms(1,3)]
  by (subst fragment_loop.simps) (simp add: getPtr_wf)

lemma pr_read_error_stops: "pr_read t = (True, t') \<Longrightarrow> \<not> hasMoreData t'"
  by (auto simp: pr_read_def hasMoreData_def split: list.splits)

text \<open>
  What a frame handler may do to the stream: panic only on an undersized packet at its
  head; otherwise consume a prefix, and consume a read or bytes of the current packet,
  or stop, or report an oversized fragment and stay where it is.
\<close>

definition frame_outcome :: "byte list \<Rightarrow> packetReader \<Rightarrow> (message \<times> packetReader) go \<Rightarrow> bool" where
  "frame_outcome frag t res =
     (case res of
        Panic \<Rightarrow> undersized (frag @ stream t)
      | Ret (m, t') \<Rightarrow> wf_reader t' \<and> (\<exists>as. frag @ stream t = as @ stream t')
          \<and> (\<forall>B. reads_upto B t \<longrightarrow> reads_upto B t')
          \<and> (length (pr_in t') < length (pr_in t)
             \<or> t' = t \<and> length (pending t) > maxFragmentSize - length frag
             \<or> pr_in t' = pr_in t \<and> length (pending t') < length (pending t)
             \<or> \<not> hasMoreData t'))"

lemma frame_outcome_next:
  assumes "wf_reader t" and "pr_read t = (False, t')" and "incomplete (frag @ pending t)"
    and rec: "\<And>pt sz m e. readHeader ((frag @ pending t) @ pending t') = Ret (pt, sz, m, Some e) \<Longrightarrow>
      frame_outcome (frag @ pending t) t' (fragment_loop (frag @ pending t) pt sz m t')"
  shows "frame_outcome frag t
     (case readHeader ((frag @ pending t) @ pending t') of
        Panic \<Rightarrow> Panic
      | Ret (pt', sz', m', None) \<Rightarrow>
          Ret (mk_message pt' sz' m' None,
               incrementPtr t' (uint sz' - int (length (frag @ pending t))))
      | Ret (pt', sz', m', Some e) \<Rightarrow> fragment_loop (frag @ pending t) pt' sz' m' t')"
proof -
  let ?b = "frag @ pending t"
  note wf = pr_read_wf [OF assms(1,2)]
  have s: "frag @ stream t = ?b @ stream t'" using wf(3) by simp
  have less: "length (pr_in t') < length (pr_in t)" using wf(4) by auto
  consider "readHeader (?b @ pending t') = Panic"
    | pt sz m where "readHeader (?b @ pending t') = Ret (pt, sz, m, None)"
    | pt sz m e where "readHeader (?b @ pending t') = Ret (pt, sz, m, Some e)"
    by (metis go.exhaust option.exhaust prod_cases4)
  then show ?thesis
  proof cases
    case 1
    then have "undersized (?b @ stream t')"
      using undersized_append [of "?b @ pending t'"] by (simp add: readHeader_undersized stream_def)
    then show ?thesis using 1 s by (simp add: frame_outcome_def)
  next
    case (2 pt sz m)
    let ?k = "uint sz - int (length ?b)"
    have k: "0 \<le> ?k" "?k \<le> int (length (pending t'))"
      using incomplete_extended [OF assms(3) 2] by auto
    note inc = incrementPtr_wf [OF wf(1) k]
    have "frag @ stream t = (?b @ take (nat ?k) (pending t')) @ stream (incrementPtr t' ?k)"
      using s inc(4) by simp
    then show ?thesis unfolding 2 frame_outcome_def using inc(1,2,5) wf(5) less by auto
  next
    case (3 pt sz m e)
    then show ?thesis using rec [OF 3] s less wf(5) by (auto simp: frame_outcome_def split: go.splits)
  qed
qed

lemma fragment_loop_outcome:
  assumes "wf_reader t" and "incomplete (frag @ pending t)"
  shows "frame_outcome frag t (fragment_loop frag pt sz m t)"
  using assms
proof (induction frag pt sz m t rule: fragment_loop.induct)
  case (1 frag pt sz m t)
  obtain e t' where rd: "pr_read t = (e, t')" by (cases "pr_read t")
  note wf = pr_read_wf [OF "1.prems"(1) rd]
  show ?case
  proof (cases "length (pending t) > maxFragmentSize - length frag")
    case True
    then show ?thesis using "1.prems"
      by (simp add: fragment_loop_too_large frame_outcome_def)
  next
    case small: False
    show ?thesis
    proof (cases e)
      case True
      obtain as where "stream t = pending t @ as @ stream t'" using wf(2) by blast
      then have "frag @ stream t = (frag @ pending t @ as) @ stream t'" by simp
      then show ?thesis using small rd True wf(1,5) "1.prems" pr_read_error_stops
        by (auto simp: fragment_loop_read_error frame_outcome_def)
    next
      case False
      with rd have rd': "pr_read t = (False, t')" by simp
      show ?thesis
        unfolding fragment_loop_next [OF "1.prems"(1) _ rd', OF small [unfolded not_less]]
      proof (rule frame_outcome_next [OF "1.prems"(1) rd' "1.prems"(2)])
        fix pt sz m e
        assume frg: "readHeader ((frag @ pending t) @ pending t') = Ret (pt, sz, m, Some e)"
        show "frame_outcome (frag @ pending t) t' (fragment_loop (frag @ pending t) pt sz m t')"
          by (rule "1.IH") (use small rd' frg wf(1) "1.prems"(1) readHeader_incomplete [OF frg]
              in \<open>auto simp: getPtr_wf\<close>)
      qed
    qed
  qed
qed

lemma handleMsgFrame_outcome:
  assumes "wf_reader t"
  shows "frame_outcome [] t (handleMsgFrame t)"
proof -
  consider "readHeader (pending t) = Panic"
    | pt sz m where "readHeader (pending t) = Ret (pt, sz, m, None)"
    | pt sz m e where "readHeader (pending t) = Ret (pt, sz, m, Some e)"
    by (metis go.exhaust option.exhaust prod_cases4)
  then show ?thesis
  proof cases
    case 1
    then have "undersized (stream t)"
      using undersized_append by (simp add: readHeader_undersized stream_def)
    then show ?thesis using 1 assms by (simp add: handleMsgFrame_def getPtr_wf frame_outcome_def)
  next
    case (2 pt sz m)
    note ok = readHeader_ok(1,2) [OF 2]
    have k: "0 \<le> uint sz" "uint sz \<le> int (length (pending t))" using ok by auto
    note inc = incrementPtr_wf [OF assms k]
    have "length (pending (incrementPtr t (uint sz))) < length (pending t)"
      using ok nat_mono [OF ok(1)] by (simp add: inc(3))
    then show ?thesis using 2 inc assms
      by (auto simp: handleMsgFrame_def getPtr_wf frame_outcome_def)
  next
    case (3 pt sz m e)
    then have "frame_outcome [] t (fragment_loop [] pt sz m t)"
      using assms readHeader_incomplete [OF 3] by (intro fragment_loop_outcome) auto
    then show ?thesis using 3 assms by (simp add: handleMsgFrame_def getPtr_wf)
  qed
qed

subsection \<open>Termination, panics and divergence of readMessage\<close>

text \<open>\<open>newTransportPacket\<close> followed by the first read.\<close>

lemma first_read:
  assumes "list_all sound_read tr" and "pr_read (newTransportPacket tr) = (False, t)"
  shows "wf_reader t" and "\<exists>r. tr = r # pr_in t \<and> pending t = rd_p r \<and> hasMoreData t = (rd_p r \<noteq> [])"
    and "stream t = concat (map rd_p tr)"
  using assms
  by (auto simp: pr_read_def newTransportPacket_def wf_reader_def pending_def stream_def
      hasMoreData_def sound_read_def split: list.splits)

text \<open>The measure of the message loop: reads left, then bytes left in the packet.\<close>

definition reader_less :: "(packetReader \<times> packetReader) set" where
  "reader_less = inv_image (less_than <*lex*> less_than) (\<lambda>t. (length (pr_in t), length (pending t)))"

lemma wf_reader_less: "wf reader_less"
  by (auto simp: reader_less_def)

lemma handleMsgFrame_less:
  assumes "wf_reader t" and "hasMoreData t" and "reads_upto maxFragmentSize t"
    and "handleMsgFrame t = Ret (m, t')"
  shows "wf_reader t' \<and> reads_upto maxFragmentSize t' \<and> (hasMoreData t' \<longrightarrow> (t', t) \<in> reader_less)"
  using handleMsgFrame_outcome [OF assms(1)] assms(3,4)
  by (auto simp: frame_outcome_def reader_less_def reads_upto_def)

lemma read_loop_returns:
  assumes "wf_reader t" and "reads_upto maxFragmentSize t"
  shows "\<exists>res. read_loop t acc = Some res"
  using assms
proof (induction t arbitrary: acc rule: wf_induct_rule [OF wf_reader_less])
  case (1 t)
  show ?case
  proof (cases "hasMoreData t")
    case False
    then show ?thesis by (simp add: read_loop.simps)
  next
    case more: True
    show ?thesis
    proof (cases "handleMsgFrame t")
      case Panic
      then show ?thesis by (simp add: read_loop.simps)
    next
      case (Ret x)
      then obtain m t' where h: "handleMsgFrame t = Ret (m, t')" by (cases x) auto
      note less = handleMsgFrame_less [OF "1.prems"(1) more "1.prems"(2) h]
      have "\<exists>res. read_loop t' (acc @ [m]) = Some res"
      proof (cases "hasMoreData t'")
        case True
        then show ?thesis using less by (intro "1.IH") auto
      next
        case False
        then show ?thesis by (simp add: read_loop.simps)
      qed
      then show ?thesis by (subst read_loop.simps) (simp add: more h)
    qed
  qed
qed

lemma readMessage_cases:
  assumes "list_all sound_read tr"
  obtains t :: packetReader where "readMessage tr = Some (Ret (([], True), pr_in t))"
  | t :: packetReader where "wf_reader t" and "stream t = concat (map rd_p tr)"
      and "\<exists>r. tr = r # pr_in t \<and> pending t = rd_p r \<and> hasMoreData t = (rd_p r \<noteq> [])"
      and "readMessage tr = map_option (\<lambda>res. go_bind res (\<lambda>(ms, t'). Ret ((ms, False), pr_in t')))
            (read_loop t [])"
proof (cases "pr_read (newTransportPacket tr)")
  case (Pair e t)
  show ?thesis
  proof (cases e)
    case True
    then show ?thesis using that(1) [of t] Pair by (simp add: readMessage_def)
  next
    case False
    then have "pr_read (newTransportPacket tr) = (False, t)" using Pair by simp
    from first_read [OF assms this] show ?thesis
      using that(2) [of t] Pair False by (simp add: readMessage_def)
  qed
qed

lemma small_reads_return:
  assumes "list_all sound_read tr" and "list_all (\<lambda>r. length (rd_p r) \<le> maxFragmentSize) tr"
  shows "\<exists>res. readMessage tr = Some res"
  using assms(1)
proof (cases rule: readMessage_cases)
  case (2 t)
  then have "reads_upto maxFragmentSize t"
    using assms(2) by (auto simp: reads_upto_def)
  then show ?thesis using 2 read_loop_returns [of t] by auto
qed blast

text \<open>What \<open>readMessage\<close> leaves of the transport is shorter, and as sound and small as before.\<close>

lemma fragment_loop_keeps:
  "fragment_loop frag pt sz m t = Ret (x, t') \<Longrightarrow> length (pr_in t') \<le> length (pr_in t)"
proof (induction frag pt sz m t rule: fragment_loop.induct)
  case (1 frag pt sz m t)
  have le: "length (pr_in t'') \<le> length (pr_in t)" if "pr_read t = (e, t'')" for e t''
    using that by (auto simp: pr_read_def split: list.splits)
  from "1.prems" show ?case
    by (subst (asm) fragment_loop.simps)
       (auto simp: incrementPtr_def split: go.splits if_splits prod.splits bool.splits option.splits
         dest: le intro: order_trans [OF "1.IH"])
qed

lemma handleMsgFrame_keeps: "handleMsgFrame t = Ret (m, t') \<Longrightarrow> length (pr_in t') \<le> length (pr_in t)"
  by (auto simp: handleMsgFrame_def go_bind_eq_Ret incrementPtr_def split: option.splits
      dest: fragment_loop_keeps)

lemma read_loop_keeps:
  assumes "read_loop t acc = Some (Ret (ms, t'))" and "wf_reader t" and "reads_upto B t"
  shows "wf_reader t' \<and> reads_upto B t' \<and> length (pr_in t') \<le> length (pr_in t)"
proof -
  let ?P = "\<lambda>t acc res. \<forall>ms t'. res = Ret (ms, t') \<longrightarrow> wf_reader t \<longrightarrow> reads_upto B t \<longrightarrow>
      wf_reader t' \<and> reads_upto B t' \<and> length (pr_in t') \<le> length (pr_in t)"
  have "?P t acc res" if "read_loop t acc = Some res" for res
  proof (rule read_loop.raw_induct [OF _ that, where P = ?P])
    fix loop :: "packetReader \<Rightarrow> message list \<Rightarrow> (message list \<times> packetReader) go option" and t acc res
    assume IH: "\<And>t acc res. loop t acc = Some res \<Longrightarrow> ?P t acc res"
      and run: "(if hasMoreData t then case handleMsgFrame t of Panic \<Rightarrow> Some Panic
                 | Ret (message, packet') \<Rightarrow> loop packet' (acc @ [message]) else Some (Ret (acc, t))) = Some res"
    show "?P t acc res"
    proof (cases "hasMoreData t \<and> handleMsgFrame t \<noteq> Panic")
      case False
      then show ?thesis using run by (cases "hasMoreData t") auto
    next
      case True
      then obtain m t1 where h: "handleMsgFrame t = Ret (m, t1)" by (auto simp: go_not_Panic)
      then have rec: "loop t1 (acc @ [m]) = Some res" using run True by simp
      have "wf_reader t \<Longrightarrow> reads_upto B t \<Longrightarrow> wf_reader t1 \<and> reads_upto B t1"
        using handleMsgFrame_outcome [of t] h by (auto simp: frame_outcome_def)
      then show ?thesis using IH [OF rec] handleMsgFrame_keeps [OF h] by auto
    qed
  qed
  then show ?thesis using assms by blast
qed

lemma readMessage_rest:
  assumes "list_all sound_read tr" and "list_all (\<lambda>r. length (rd_p r) \<le> B) tr"
    and "readMessage tr = Some (Ret ((ms, False), tr'))"
  shows "list_all sound_read tr' \<and> list_all (\<lambda>r. length (rd_p r) \<le> B) tr' \<and> length tr' < length tr"
  using assms(1)
proof (cases rule: readMessage_cases)
  case 1
  then show ?thesis using assms(3) by simp
next
  case (2 t)
  from 2(4) assms(3) have "map_option (\<lambda>res. go_bind res (\<lambda>(ms, t'). Ret ((ms, False), pr_in t'))) (read_loop t [])
      = Some (Ret ((ms, False), tr'))" by simp
  then obtain t' where "read_loop t [] = Some (Ret (ms, t'))" and tr': "tr' = pr_in t'"
    by (auto simp: go_bind_eq_Ret)
  moreover have "reads_upto B t" using 2 assms(2) by (auto simp: reads_upto_def)
  ultimately have "wf_reader t'" "reads_upto B t'" "length (pr_in t') \<le> length (pr_in t)"
    using read_loop_keeps [of t "[]" ms t' B] 2(1) by blast+
  then show ?thesis using 2(3) by (auto simp: tr' wf_reader_def reads_upto_def)
qed

lemma ws_reads:
  assumes "\<forall>b m. WSMessage b m \<in> set es \<longrightarrow> length m \<le> 65536"
  shows "list_all sound_read (map ws_ReadPacket es)"
    and "list_all (\<lambda>r. length (rd_p r) \<le> maxFragmentSize) (map ws_ReadPacket es)"
proof -
  show "list_all sound_read (map ws_ReadPacket es)" by (rule ws.deliver_sound)
  have "length (rd_p (ws_ReadPacket e)) \<le> maxFragmentSize" if "e \<in> set es" for e
    using that assms by (cases e rule: ws_ReadPacket.cases) (auto simp: maxFragmentSize_def)
  then show "list_all (\<lambda>r. length (rd_p r) \<le> maxFragmentSize) (map ws_ReadPacket es)"
    by (simp add: list_all_iff)
qed

text \<open>
  Reading a message from a websocket always returns, whatever the client sends, as long
  as no single websocket frame is larger than the 65536-byte reassembly buffer: the
  message loop terminates on every sequence of frames and errors.
\<close>

theorem readMessage_websocket_returns:
  assumes "\<forall>b m. WSMessage b m \<in> set es \<longrightarrow> length m \<le> 65536"
  shows "\<exists>res. readMessage (map ws_ReadPacket es) = Some res"
  by (rule small_reads_return [OF ws_reads [OF assms]])

theorem readMessage_websocket_returns_witness:
  "\<exists>res. readMessage (map ws_ReadPacket [WSMessage True [1, 2, 3], WSMessage False [], WSError]) = Some res"
  by (rule readMessage_websocket_returns) auto

text \<open>
  Reading a message from a legacy HTTP connection always returns: its reads are at
  most 4096 bytes, so the oversized case that blocks a websocket cannot arise.
\<close>

theorem readMessage_legacy_returns:
  "\<exists>res. readMessage (map legacy_ReadPacket es) = Some res"
proof (rule small_reads_return [OF legacy.deliver_sound])
  have "length (rd_p (legacy_ReadPacket e)) \<le> maxFragmentSize" for e
    by (cases e) (simp add: Let_def maxFragmentSize_def)
  then show "list_all (\<lambda>r. length (rd_p r) \<le> maxFragmentSize) (map legacy_ReadPacket es)"
    by (simp add: list_all_iff)
qed

text \<open>A panic can be traced to an undersized packet header in the stream.\<close>

lemma read_loop_panic:
  assumes "read_loop t acc = Some res"
  shows "wf_reader t \<longrightarrow> res = Panic \<longrightarrow> (\<exists>as bs. stream t = as @ bs \<and> undersized bs)"
proof (rule read_loop.raw_induct [where P = "\<lambda>t acc res. wf_reader t \<longrightarrow> res = Panic \<longrightarrow>
      (\<exists>as bs. stream t = as @ bs \<and> undersized bs)", OF _ assms])
  fix f t acc res
  assume IH: "\<And>t acc res. f t acc = Some res \<Longrightarrow>
      wf_reader t \<longrightarrow> res = Panic \<longrightarrow> (\<exists>as bs. stream t = as @ bs \<and> undersized bs)"
    and eq: "(if hasMoreData t then case handleMsgFrame t of Panic \<Rightarrow> Some Panic
         | Ret (m, t') \<Rightarrow> f t' (acc @ [m]) else Some (Ret (acc, t))) = Some res"
  show "wf_reader t \<longrightarrow> res = Panic \<longrightarrow> (\<exists>as bs. stream t = as @ bs \<and> undersized bs)"
  proof (intro impI)
    assume wf: "wf_reader t" and res: "res = Panic"
    note out = handleMsgFrame_outcome [OF wf]
    from eq res have more: "hasMoreData t" by (auto split: if_splits)
    show "\<exists>as bs. stream t = as @ bs \<and> undersized bs"
    proof (cases "handleMsgFrame t")
      case Panic
      then have "undersized (stream t)" using out by (simp add: frame_outcome_def)
      then show ?thesis by (metis append_Nil)
    next
      case (Ret x)
      then obtain m t' where h: "handleMsgFrame t = Ret (m, t')" by (cases x) auto
      then have f: "f t' (acc @ [m]) = Some Panic" using eq more res by simp
      from h out obtain cs where "wf_reader t'" and cs: "stream t = cs @ stream t'"
        by (auto simp: frame_outcome_def)
      with IH [OF f] obtain as bs where "stream t' = as @ bs" "undersized bs" by auto
      then show ?thesis using cs by (intro exI [of _ "cs @ as"] exI [of _ bs]) simp
    qed
  qed
qed

text \<open>
  The only way message reading can panic is a packet header in the client's byte
  stream whose size field is below the header length of 8. In particular the read pointer
  never leaves the current packet, so no other slice in the reader is out of range.
\<close>

theorem readMessage_panic_cause:
  assumes "list_all sound_read tr" and "readMessage tr = Some Panic"
  shows "\<exists>as bs. concat (map rd_p tr) = as @ bs \<and> undersized bs"
  using assms(1)
proof (cases rule: readMessage_cases)
  case (1 t)
  then show ?thesis using assms(2) by simp
next
  case (2 t)
  then have "read_loop t [] = Some Panic"
    using trans [OF 2(4) [symmetric] assms(2)] by (auto simp: go_bind_eq_Panic)
  from read_loop_panic [OF this] show ?thesis using 2 by simp
qed

theorem readMessage_panic_cause_witness:
  "\<exists>as bs. concat (map rd_p [\<lparr>rd_n = 8, rd_p = replicate 8 0, rd_err = False\<rparr>]) = as @ bs \<and> undersized bs"
proof (rule readMessage_panic_cause)
  show "list_all sound_read [\<lparr>rd_n = 8, rd_p = replicate 8 0, rd_err = False\<rparr>]"
    by (simp add: sound_read_def)
  have "readHeader (replicate 8 0) = Panic" by code_simp
  then show "readMessage [\<lparr>rd_n = 8, rd_p = replicate 8 0, rd_err = False\<rparr>] = Some Panic"
    by (simp add: readMessage_def newTransportPacket_def pr_read_def read_loop.simps hasMoreData_def
        handleMsgFrame_def getPtr_def slice_from_def)
qed

text \<open>
  A client can make the reader panic: a read that starts with a whole header whose
  size field is below 8 makes \<open>data[8:size]\<close> slice out of range, whatever follows.
\<close>

theorem readMessage_undersized_panics:
  assumes "undersized bs"
  shows "readMessage (\<lparr>rd_n = length bs, rd_p = bs, rd_err = False\<rparr> # tr) = Some Panic"
proof -
  have "bs \<noteq> []" using assms by (auto simp: undersized_def)
  moreover have "readHeader bs = Panic" using assms by (simp add: readHeader_undersized)
  ultimately show ?thesis
    by (subst readMessage_def)
      (simp add: newTransportPacket_def pr_read_def read_loop.simps hasMoreData_def
        handleMsgFrame_def getPtr_def slice_from_def)
qed

theorem readMessage_undersized_panics_witness:
  "undersized [1, 0, 0, 0, 7, 0, 0, 0]
   \<and> readMessage [\<lparr>rd_n = length [1, 0, 0, 0, 7, 0, 0, 0 :: byte], rd_p = [1, 0, 0, 0, 7, 0, 0, 0], rd_err = False\<rparr>]
     = Some Panic"
proof -
  have "undersized [1, 0, 0, 0, 7, 0, 0, 0]"
    by code_simp
  then show ?thesis using readMessage_undersized_panics by blast
qed

text \<open>An oversized incomplete packet is never consumed.\<close>

lemma read_loop_stuck:
  assumes "hasMoreData t" and "handleMsgFrame t = Ret (m, t)"
  shows "read_loop t acc = None"
proof -
  have "read_loop t acc = Some res \<Longrightarrow> False" for res
  proof -
    assume "read_loop t acc = Some res"
    then have "t \<noteq> t"
      by (rule read_loop.raw_induct [where P = "\<lambda>t' acc res. t' \<noteq> t", rotated])
        (use assms in \<open>auto split: if_splits go.splits\<close>)
    then show False by simp
  qed
  then show ?thesis by (cases "read_loop t acc") auto
qed

text \<open>
  C12: A client can make the reader loop forever: one websocket frame above 65536 bytes
  that announces a packet longer than itself is reported as an oversized fragment but not
  consumed, so the message loop meets it again and appends the same error message for ever.
\<close>

theorem readMessage_oversized_diverges:
  assumes "length bs > 65536" and "int (length bs) < uint (fst (get_u32 (drop 4 bs)))"
  shows "readMessage (\<lparr>rd_n = length bs, rd_p = bs, rd_err = False\<rparr> # tr) = None"
proof -
  let ?t = "\<lparr>pr_in = tr, pr_size = int (length bs), pr_pkt = bs, pr_err = False, pr_ptr = 0\<rparr>"
  have more: "hasMoreData ?t" using assms(1) by (auto simp: hasMoreData_def)
  have ptr: "getPtr ?t = Ret bs" by (simp add: getPtr_def slice_from_def)
  have "readHeader bs = Ret (fst (get_u16 bs), fst (get_u32 (drop 4 bs)), drop 8 bs, Some DataIncomplete)"
    using assms by (simp add: readHeader_def Let_def)
  then have "\<exists>m. handleMsgFrame ?t = Ret (m, ?t)"
    using assms(1) by (subst handleMsgFrame_def)
      (simp add: ptr fragment_loop.simps [of "[]"] maxFragmentSize_def)
  then have "read_loop ?t [] = None" using more read_loop_stuck by blast
  then show ?thesis by (simp add: readMessage_def newTransportPacket_def pr_read_def)
qed

theorem readMessage_oversized_diverges_witness:
  "readMessage [\<lparr>rd_n = length (replicate 65537 (255 :: byte)), rd_p = replicate 65537 255, rd_err = False\<rparr>] = None"
proof (rule readMessage_oversized_diverges)
  have r: "replicate 4 (255::byte) = [255, 255, 255, 255]" by code_simp
  have "get_u32 (drop 4 (replicate 65537 (255::byte))) = (0xFFFFFFFF, replicate 65529 255)"
    by (simp add: get_u32_def get_le_def drop_replicate take_replicate r)
  then show "int (length (replicate 65537 (255::byte)))
      < uint (fst (get_u32 (drop 4 (replicate 65537 (255::byte)))))"
    by simp
qed simp

subsection \<open>Reassembly\<close>

definition packet_message :: "int \<times> byte list \<Rightarrow> message" where
  "packet_message = (\<lambda>(t, d). mk_message (word_of_int t) (word_of_int (int (length d) + 8)) d None)"

definition packets :: "(int \<times> byte list) list \<Rightarrow> byte list" where
  "packets ms = concat (map (\<lambda>(t, d). createPacket t d) ms)"

definition exact_reader :: "packetReader \<Rightarrow> bool" where
  "exact_reader t \<longleftrightarrow> wf_reader t \<and> pr_size t = int (length (pr_pkt t))
     \<and> list_all (\<lambda>r. \<not> rd_err r) (pr_in t)"

lemma exact_wf: "exact_reader t \<Longrightarrow> wf_reader t"
  by (simp add: exact_reader_def)

lemma exact_hasMoreData: "exact_reader t \<Longrightarrow> hasMoreData t \<longleftrightarrow> pending t \<noteq> []"
  by (auto simp: exact_reader_def wf_reader_def hasMoreData_def pending_def)

lemma exact_incrementPtr:
  assumes "exact_reader t" and "0 \<le> k" and "k \<le> int (length (pending t))"
  shows "exact_reader (incrementPtr t k)"
  using assms incrementPtr_wf(1) [OF exact_wf [OF assms(1)] assms(2,3)]
  by (simp add: exact_reader_def incrementPtr_def)

lemma exact_pr_read:
  assumes "exact_reader t" and "stream t \<noteq> pending t"
  obtains t' where "pr_read t = (False, t')" and "exact_reader t'" and "stream t = pending t @ stream t'"
    and "length (pr_in t') < length (pr_in t)"
proof -
  from assms obtain r rs where "pr_in t = r # rs"
    by (cases "pr_in t") (auto simp: stream_def)
  then have rd: "pr_read t = (False, snd (pr_read t))"
    using assms(1) by (auto simp: pr_read_def exact_reader_def)
  note wf = pr_read_wf [OF exact_wf [OF assms(1)] rd]
  have "exact_reader (snd (pr_read t))"
    using assms(1) wf(1) \<open>pr_in t = r # rs\<close>
    by (auto simp: pr_read_def exact_reader_def wf_reader_def sound_read_def)
  then show ?thesis using that [OF rd] wf(3) pr_read_less [OF rd] by simp
qed

text \<open>A buffer that starts a packet either holds all of it or is a proper prefix.\<close>

lemma readHeader_whole:
  assumes "b @ r = createPacket k d @ rest" and "length d + 8 < 2 ^ 32"
    and "length (createPacket k d) \<le> length b"
  shows "readHeader b = Ret (word_of_int k, word_of_int (int (length d) + 8), d, None)"
proof -
  have "b = createPacket k d @ drop (length (createPacket k d)) b"
    using assms(1,3) by (metis append_eq_append_conv_if append_take_drop_id)
  then show ?thesis using readHeader_createPacket [OF assms(2)] by metis
qed

lemma readHeader_partial:
  assumes "b @ r = createPacket k d @ rest" and "length d + 8 < 2 ^ 32"
    and "length b < length (createPacket k d)"
  obtains pt sz m e where "readHeader b = Ret (pt, sz, m, Some e)"
proof -
  have "b = take (length b) (createPacket k d)"
    using assms(1,3) by (metis append_eq_append_conv_if less_imp_le_nat linorder_not_le)
  then show ?thesis using readHeader_prefix [OF assms(2,3)] that by metis
qed

definition reassembled ::
  "int \<Rightarrow> byte list \<Rightarrow> byte list \<Rightarrow> packetReader \<Rightarrow> (message \<times> packetReader) go \<Rightarrow> bool" where
  "reassembled k d rest t res \<longleftrightarrow>
     (\<exists>t'. res = Ret (packet_message (k, d), t') \<and> exact_reader t' \<and> stream t' = rest
        \<and> length (pr_in t') \<le> length (pr_in t))"

lemma reassembled_later:
  "reassembled k d rest t' res \<Longrightarrow> length (pr_in t') \<le> length (pr_in t) \<Longrightarrow> reassembled k d rest t res"
  by (auto simp: reassembled_def)

lemma reassembled_increment:
  assumes "exact_reader t" and "b @ pending t @ s = createPacket k d @ rest" 
    and "stream t = pending t @ s" and "length d + 8 < 2 ^ 32"
    and "length b \<le> length (createPacket k d)" and "length (createPacket k d) \<le> length (b @ pending t)"
  shows "reassembled k d rest t (Ret (mk_message (word_of_int k) (word_of_int (int (length d) + 8)) d None,
           incrementPtr t (uint (word_of_int (int (length d) + 8) :: u32) - int (length b))))"
proof -
  let ?k = "int (length d) + 8 - int (length b)"
  have k: "0 \<le> ?k" "?k \<le> int (length (pending t))"
    using assms(5,6) by (auto simp: length_createPacket)
  note inc = incrementPtr_wf [OF exact_wf [OF assms(1)] k]
  have "(b @ take (nat ?k) (pending t)) @ stream (incrementPtr t ?k) = createPacket k d @ rest"
    using inc(4) assms(2,3) by simp
  moreover have "length (b @ take (nat ?k) (pending t)) = length (createPacket k d)"
    using k assms(5) by (simp add: length_createPacket)
  ultimately have "stream (incrementPtr t ?k) = rest" by (metis append_eq_append_conv)
  then show ?thesis
    using exact_incrementPtr [OF assms(1) k] uint_size [OF assms(4)] inc(2)
    by (simp add: reassembled_def packet_message_def)
qed

lemma fragment_loop_reassembles:
  assumes "exact_reader t" and "frag @ stream t = createPacket k d @ rest"
    and "length d + 8 \<le> 65536" and "length (frag @ pending t) < length (createPacket k d)"
  shows "reassembled k d rest t (fragment_loop frag pt sz m t)"
  using assms
proof (induction frag pt sz m t rule: fragment_loop.induct)
  case (1 frag pt sz m t)
  have sz: "length d + 8 < 2 ^ 32" using "1.prems"(3) by simp
  have small: "length (pending t) \<le> maxFragmentSize - length frag"
    using "1.prems"(3,4) by (simp add: maxFragmentSize_def length_createPacket)
  have "stream t \<noteq> pending t"
    using "1.prems"(2,4) by (metis length_append linorder_not_le le_add1)
  then obtain t' where rd: "pr_read t = (False, t')" and ex: "exact_reader t'"
      and st: "stream t = pending t @ stream t'" and less: "length (pr_in t') < length (pr_in t)"
    using exact_pr_read "1.prems"(1) by metis
  let ?b = "frag @ pending t"
  have eq: "(?b @ pending t') @ concat (map rd_p (pr_in t')) = createPacket k d @ rest"
    using "1.prems"(2) st by (simp add: stream_def)
  show ?case
    unfolding fragment_loop_next [OF exact_wf [OF "1.prems"(1)] small rd]
  proof (cases "length (createPacket k d) \<le> length (?b @ pending t')")
    case True
    show "reassembled k d rest t (case readHeader (?b @ pending t') of Panic \<Rightarrow> Panic
       | Ret (pt', sz', m', None) \<Rightarrow>
          Ret (mk_message pt' sz' m' None, incrementPtr t' (uint sz' - int (length ?b)))
       | Ret (pt', sz', m', Some e) \<Rightarrow> fragment_loop ?b pt' sz' m' t')"
      unfolding readHeader_whole [OF eq sz True]
      using reassembled_later [OF reassembled_increment [OF ex _ _ sz _ True]] eq "1.prems"(4) less
      by (simp add: stream_def)
  next
    case False
    then have lt: "length (?b @ pending t') < length (createPacket k d)" by simp
    from readHeader_partial [OF eq sz lt] obtain pt' sz' m' e
      where frg: "readHeader (?b @ pending t') = Ret (pt', sz', m', Some e)" .
    have "reassembled k d rest t' (fragment_loop ?b pt' sz' m' t')"
      by (rule "1.IH") (use small rd frg ex eq lt "1.prems" exact_wf in
          \<open>auto simp: getPtr_wf stream_def\<close>)
    then show "reassembled k d rest t (case readHeader (?b @ pending t') of Panic \<Rightarrow> Panic
       | Ret (pt', sz', m', None) \<Rightarrow>
          Ret (mk_message pt' sz' m' None, incrementPtr t' (uint sz' - int (length ?b)))
       | Ret (pt', sz', m', Some e) \<Rightarrow> fragment_loop ?b pt' sz' m' t')"
      unfolding frg using less by (simp add: reassembled_later)
  qed
qed

lemma handleMsgFrame_reassembles:
  assumes "exact_reader t" and "stream t = createPacket k d @ rest" and "length d + 8 \<le> 65536"
  shows "reassembled k d rest t (handleMsgFrame t)"
proof -
  have sz: "length d + 8 < 2 ^ 32" using assms(3) by simp
  have eq: "pending t @ concat (map rd_p (pr_in t)) = createPacket k d @ rest"
    using assms(2) by (simp add: stream_def)
  note ptr = getPtr_wf [OF exact_wf [OF assms(1)]]
  show ?thesis
  proof (cases "length (createPacket k d) \<le> length (pending t)")
    case True
    show ?thesis
      using reassembled_increment [OF assms(1), of "[]"] eq sz True readHeader_whole [OF eq sz True]
      by (simp add: handleMsgFrame_def ptr stream_def)
  next
    case False
    then have lt: "length (pending t) < length (createPacket k d)" by simp
    from readHeader_partial [OF eq sz lt] obtain pt' sz' m' e
      where "readHeader (pending t) = Ret (pt', sz', m', Some e)" .
    then show ?thesis
      using fragment_loop_reassembles [OF assms(1), of "[]"] assms lt
      by (simp add: handleMsgFrame_def ptr)
  qed
qed

lemma read_loop_reassembles:
  assumes "exact_reader t" and "stream t = packets ms" and "\<forall>(k, d) \<in> set ms. length d + 8 \<le> 65536"
  shows "\<exists>n t'. read_loop t acc = Some (Ret (acc @ map packet_message (take n ms), t'))
     \<and> exact_reader t' \<and> pending t' = [] \<and> stream t' = packets (drop n ms)
     \<and> length (pr_in t') \<le> length (pr_in t) \<and> (pending t \<noteq> [] \<longrightarrow> 0 < n)"
  using assms
proof (induction ms arbitrary: t acc)
  case Nil
  then have "pending t = []" by (simp add: packets_def stream_def)
  then show ?case using Nil exact_hasMoreData [OF Nil(1)]
    by (subst read_loop.simps) (auto simp: packets_def)
next
  case (Cons kd ms)
  show ?case
  proof (cases "pending t = []")
    case True
    then show ?thesis using Cons.prems(1,2) exact_hasMoreData [OF Cons.prems(1)]
      by (subst read_loop.simps) (auto intro!: exI [of _ 0])
  next
    case False
    obtain k d where kd: "kd = (k, d)" by (cases kd)
    have st: "stream t = createPacket k d @ packets ms" and len: "length d + 8 \<le> 65536"
      using Cons.prems(2,3) kd by (auto simp: packets_def)
    from handleMsgFrame_reassembles [OF Cons.prems(1) st len] obtain t'
      where h: "handleMsgFrame t = Ret (packet_message kd, t')" "exact_reader t'" "stream t' = packets ms"
        "length (pr_in t') \<le> length (pr_in t)"
      by (auto simp: reassembled_def kd)
    from Cons.IH [OF h(2,3), of "acc @ [packet_message kd]"] Cons.prems(3) obtain n t'' where
      "read_loop t' (acc @ [packet_message kd])
         = Some (Ret ((acc @ [packet_message kd]) @ map packet_message (take n ms), t''))"
      "exact_reader t''" "pending t'' = []" "stream t'' = packets (drop n ms)"
      "length (pr_in t'') \<le> length (pr_in t')"
      by auto
    then show ?thesis
      using h(1,4) False exact_hasMoreData [OF Cons.prems(1)]
      by (subst read_loop.simps) (auto intro!: exI [of _ "Suc n"])
  qed
qed

text \<open>
  C11: Reassembly does not depend on how the stream is cut. When the reads hold, cut
  anywhere, the concatenation of packets of at most 65536 bytes, one call of
  \<open>readMessage\<close> returns the first \<open>n\<close> of them, exactly, in order and without an error,
  leaves the rest of the stream in the transport, consumes at least one read, and makes
  progress (\<open>n > 0\<close>) unless the first read is empty.
\<close>

theorem readMessage_reassembles:
  assumes "list_all (\<lambda>r. \<not> rd_err r \<and> rd_n r = length (rd_p r)) tr" and "tr \<noteq> []"
    and "concat (map rd_p tr) = packets ms"
    and "\<forall>(k, d) \<in> set ms. length d + 8 \<le> 65536"
  shows "\<exists>n tr'. readMessage tr = Some (Ret ((map packet_message (take n ms), False), tr'))
     \<and> concat (map rd_p tr') = packets (drop n ms) \<and> length tr' < length tr
     \<and> (rd_p (hd tr) \<noteq> [] \<longrightarrow> 0 < n)"
proof -
  obtain r rs where tr: "tr = r # rs" using assms(2) by (cases tr) auto
  let ?t = "\<lparr>pr_in = rs, pr_size = int (rd_n r), pr_pkt = rd_p r, pr_err = False, pr_ptr = 0\<rparr>"
  have rd: "pr_read (newTransportPacket tr) = (False, ?t)"
    using assms(1) tr by (simp add: pr_read_def newTransportPacket_def)
  have "exact_reader ?t" and "pending ?t = rd_p r"
    using assms(1) tr
    by (auto simp: exact_reader_def wf_reader_def pending_def sound_read_def list_all_iff)
  moreover have "stream ?t = packets ms" using assms(3) tr by (simp add: stream_def pending_def)
  ultimately obtain n t' where loop: "read_loop ?t [] = Some (Ret (map packet_message (take n ms), t'))"
      and t': "pending t' = []" "stream t' = packets (drop n ms)" "length (pr_in t') \<le> length rs"
        "rd_p r \<noteq> [] \<longrightarrow> 0 < n"
    using read_loop_reassembles [of ?t ms "[]"] assms(4) by auto
  then show ?thesis
    using loop t' rd tr by (auto simp: readMessage_def stream_def)
qed

theorem readMessage_reassembles_witness:
  "\<exists>n tr'. readMessage [\<lparr>rd_n = 5, rd_p = [6, 0, 0, 0, 10], rd_err = False\<rparr>,
                 \<lparr>rd_n = 5, rd_p = [0, 0, 0, 77, 78], rd_err = False\<rparr>]
      = Some (Ret ((map packet_message (take n [(6, [77, 78])]), False), tr'))
     \<and> concat (map rd_p tr') = packets (drop n [(6, [77, 78])]) \<and> length tr' < Suc (Suc 0) \<and> 0 < n"
proof -
  have "packets [(6, [77, 78])] = [6, 0, 0, 0, 10, 0, 0, 0, 77, 78]" by code_simp
  then show ?thesis
    using readMessage_reassembles [of "[\<lparr>rd_n = 5, rd_p = [6, 0, 0, 0, 10], rd_err = False\<rparr>,
        \<lparr>rd_n = 5, rd_p = [0, 0, 0, 77, 78], rd_err = False\<rparr>]" "[(6, [77, 78])]"]
    by simp
qed

end
