(* ===== verification/Go_Strings.thy ===== *)
theory Go_Strings
  imports Go_Prelude "HOL-Library.Sublist"
begin

text \<open>
  The functions of Go's \<open>strings\<close>, \<open>strconv\<close>, \<open>net\<close> and \<open>unicode/utf8\<close> that the
  gateway calls, on byte strings. A character is one byte; multi-byte UTF-8 sequences
  are written out. The only part left as a parameter is Unicode case mapping outside
  ASCII, the argument \<open>ul\<close> of \<open>ToLower\<close> and \<open>EqualFold\<close>.
\<close>

subsection \<open>Prefixes, suffixes, search\<close>

definition HasPrefix :: "string \<Rightarrow> string \<Rightarrow> bool" where
  "HasPrefix s p \<longleftrightarrow> prefix p s"

definition HasSuffix :: "string \<Rightarrow> string \<Rightarrow> bool" where
  "HasSuffix s p \<longleftrightarrow> suffix p s"

definition TrimPrefix :: "string \<Rightarrow> string \<Rightarrow> string" where
  "TrimPrefix s p = (if prefix p s then drop (length p) s else s)"

definition TrimSuffix :: "string \<Rightarrow> string \<Rightarrow> string" where
  "TrimSuffix s p = (if suffix p s then take (length s - length p) s else s)"

fun Contains :: "string \<Rightarrow> string \<Rightarrow> bool" where
  "Contains [] sub = (sub = [])"
| "Contains (c # cs) sub = (prefix sub (c # cs) \<or> Contains cs sub)"

text \<open>\<open>strings.Replace(s, old, new, 1)\<close> for a non-empty \<open>old\<close>.\<close>

fun ReplaceFirst :: "string \<Rightarrow> string \<Rightarrow> string \<Rightarrow> string" where
  "ReplaceFirst [] old new = []"
| "ReplaceFirst (c # cs) old new =
     (if prefix old (c # cs) then new @ drop (length old) (c # cs)
      else c # ReplaceFirst cs old new)"

lemma Contains_char: "Contains s [c] \<longleftrightarrow> c \<in> set s"
  by (induction s) auto

lemma Contains_iff_sublist: "Contains s sub \<longleftrightarrow> sublist sub s"
  by (induction s) (auto simp: sublist_Cons_right)

lemma Contains_append: "Contains s sub \<Longrightarrow> Contains (a @ s @ b) sub"
  by (auto simp: Contains_iff_sublist sublist_def) (metis append.assoc)

lemma ReplaceFirst_absent: "old \<noteq> [] \<Longrightarrow> \<not> Contains s old \<Longrightarrow> ReplaceFirst s old new = s"
  by (induction s) auto

text \<open>\<open>strings.Split(s, sep)\<close> for a one-byte separator, and \<open>SplitN(s, sep, n)\<close>.\<close>

fun Split :: "string \<Rightarrow> char \<Rightarrow> string list" where
  "Split [] sep = [[]]"
| "Split (c # cs) sep =
     (if c = sep then [] # Split cs sep
      else (case Split cs sep of [] \<Rightarrow> [[c]] | p # ps \<Rightarrow> (c # p) # ps))"

definition Cut :: "string \<Rightarrow> char \<Rightarrow> (string \<times> string) option" where
  "Cut s sep = (if sep \<in> set s
     then Some (takeWhile (\<lambda>c. c \<noteq> sep) s, tl (dropWhile (\<lambda>c. c \<noteq> sep) s)) else None)"

fun SplitN :: "string \<Rightarrow> char \<Rightarrow> nat \<Rightarrow> string list" where
  "SplitN s sep 0 = []"
| "SplitN s sep (Suc 0) = [s]"
| "SplitN s sep (Suc (Suc n)) =
     (case Cut s sep of None \<Rightarrow> [s] | Some (a, b) \<Rightarrow> a # SplitN b sep (Suc n))"

lemma Cut_at: "c \<notin> set a \<Longrightarrow> Cut (a @ c # b) c = Some (a, b)"
  by (induction a) (auto simp: Cut_def)

lemma Split_nonempty: "Split s sep \<noteq> []"
  by (induction s) (auto split: list.splits)

lemma Split_no_sep: "\<forall>p \<in> set (Split s sep). sep \<notin> set p"
  by (induction s) (auto split: list.splits)

subsection \<open>White space\<close>

text \<open>The UTF-8 encodings of the code points for which \<open>unicode.IsSpace\<close> holds.\<close>

definition space_encodings :: "string list" where
  "space_encodings = map (map char_of)
     ([[0x09], [0x0A], [0x0B], [0x0C], [0x0D], [0x20], [0xC2, 0x85], [0xC2, 0xA0], [0xE1, 0x9A, 0x80]]
      @ map (\<lambda>b. [0xE2, 0x80, b]) [0x80 ..< 0x8B]
      @ [[0xE2, 0x80, 0xA8], [0xE2, 0x80, 0xA9], [0xE2, 0x80, 0xAF], [0xE2, 0x81, 0x9F],
         [0xE3, 0x80, 0x80 :: nat]])"

function strip_prefixes :: "'a list list \<Rightarrow> 'a list \<Rightarrow> 'a list" where
  "strip_prefixes ps s =
     (case find (\<lambda>p. p \<noteq> [] \<and> prefix p s) ps of
        None \<Rightarrow> s
      | Some p \<Rightarrow> strip_prefixes ps (drop (length p) s))"
  by pat_completeness auto
termination
  by (relation "measure (\<lambda>(ps, s). length s)") (auto simp: find_Some_iff prefix_def)

declare strip_prefixes.simps [simp del]

definition TrimSpace :: "string \<Rightarrow> string" where
  "TrimSpace s =
     rev (strip_prefixes (map rev space_encodings) (rev (strip_prefixes space_encodings s)))"

lemma strip_prefixes_suffix: "\<exists>k. strip_prefixes ps s = drop k s"
proof (induction ps s rule: strip_prefixes.induct)
  case (1 ps s)
  show ?case
  proof (cases "find (\<lambda>p. p \<noteq> [] \<and> prefix p s) ps")
    case None
    then show ?thesis by (subst strip_prefixes.simps) (auto intro: exI [of _ 0])
  next
    case (Some p)
    with "1.IH" obtain k where "strip_prefixes ps (drop (length p) s) = drop k (drop (length p) s)"
      by blast
    with Some show ?thesis by (subst strip_prefixes.simps) auto
  qed
qed

lemma strip_prefixes_none: "p \<in> set ps \<Longrightarrow> p \<noteq> [] \<Longrightarrow> \<not> prefix p (strip_prefixes ps s)"
proof (induction ps s rule: strip_prefixes.induct)
  case (1 ps s)
  show ?case
  proof (cases "find (\<lambda>p. p \<noteq> [] \<and> prefix p s) ps")
    case None
    then have "strip_prefixes ps s = s" by (subst strip_prefixes.simps) simp
    then show ?thesis using None "1.prems" by (auto simp: find_None_iff)
  next
    case (Some q)
    then have "strip_prefixes ps s = strip_prefixes ps (drop (length q) s)"
      by (subst strip_prefixes.simps) simp
    then show ?thesis using "1.IH" [OF Some] "1.prems" by simp
  qed
qed

lemma strip_prefixes_id: "(\<And>p. p \<in> set ps \<Longrightarrow> p \<noteq> [] \<Longrightarrow> \<not> prefix p s) \<Longrightarrow> strip_prefixes ps s = s"
  by (subst strip_prefixes.simps) (auto split: option.splits simp: find_Some_iff)

lemma TrimSpace_idem [simp]: "TrimSpace (TrimSpace s) = TrimSpace s"
proof -
  let ?u = "strip_prefixes space_encodings s"
  let ?t = "strip_prefixes (map rev space_encodings) (rev ?u)"
  obtain k where k: "?t = drop k (rev ?u)" using strip_prefixes_suffix by blast
  then have "prefix (rev ?t) ?u" by (metis rev_rev_ident suffix_drop suffix_to_prefix)
  then have "strip_prefixes space_encodings (rev ?t) = rev ?t"
    using strip_prefixes_none [of _ space_encodings s] by (intro strip_prefixes_id) (meson prefix_order.trans)
  moreover have "strip_prefixes (map rev space_encodings) ?t = ?t"
    using strip_prefixes_none [of _ "map rev space_encodings" "rev ?u"] by (intro strip_prefixes_id) blast
  ultimately show ?thesis by (simp add: TrimSpace_def)
qed

lemma TrimSpace_Nil [simp]: "TrimSpace [] = []"
  by (simp add: TrimSpace_def strip_prefixes_id)

subsection \<open>Letter case\<close>

definition is_ascii :: "string \<Rightarrow> bool" where
  "is_ascii s \<longleftrightarrow> (\<forall>c \<in> set s. (of_char c :: nat) < 0x80)"

definition ascii_lower :: "char \<Rightarrow> char" where
  "ascii_lower c = (let n = (of_char c :: nat) in if 0x41 \<le> n \<and> n \<le> 0x5A then char_of (n + 0x20) else c)"

definition ToLower :: "(string \<Rightarrow> string) \<Rightarrow> string \<Rightarrow> string" where
  "ToLower ul s = (if is_ascii s then map ascii_lower s else ul s)"

text \<open>\<open>EqualFold\<close> compares ASCII strings by lower case; \<open>uf\<close> decides the other cases.\<close>

definition EqualFold :: "(string \<Rightarrow> string \<Rightarrow> bool) \<Rightarrow> string \<Rightarrow> string \<Rightarrow> bool" where
  "EqualFold uf s t =
     (if is_ascii s \<and> is_ascii t then map ascii_lower s = map ascii_lower t else uf s t)"

lemma ascii_lower_idem [simp]: "ascii_lower (ascii_lower c) = ascii_lower c"
  by (auto simp: ascii_lower_def Let_def)

lemma ascii_lower_is_ascii: "(of_char c :: nat) < 0x80 \<Longrightarrow> (of_char (ascii_lower c) :: nat) < 0x80"
  by (auto simp: ascii_lower_def Let_def)

lemma is_ascii_map_lower: "is_ascii s \<Longrightarrow> is_ascii (map ascii_lower s)"
  by (auto simp: is_ascii_def ascii_lower_is_ascii)

lemma ToLower_fixed: "is_ascii s \<Longrightarrow> map ascii_lower s = s \<Longrightarrow> ToLower ul s = s"
  by (simp add: ToLower_def)

subsection \<open>Trimming ASCII text\<close>

definition ascii_space :: "char \<Rightarrow> bool" where
  "ascii_space c \<longleftrightarrow> of_char c \<in> {9, 10, 11, 12, 13, 32 :: nat}"

lemma space_encodings_split:
  "p \<in> set space_encodings \<Longrightarrow> (\<exists>c. p = [c] \<and> ascii_space c) \<or> (\<exists>c r. p = c # r \<and> (of_char c :: nat) \<ge> 0x80) \<and> (of_char (last p) :: nat) \<ge> 0x80"
  unfolding space_encodings_def
  by (auto simp: ascii_space_def)

lemma ascii_space_encodings: "ascii_space c \<Longrightarrow> [c] \<in> set space_encodings"
proof -
  assume "ascii_space c"
  then have "c \<in> char_of ` {9, 10, 11, 12, 13, 32 :: nat}"
    unfolding ascii_space_def by (metis char_of_char imageI)
  then show ?thesis by (auto simp: space_encodings_def)
qed

lemma TrimSpace_ascii:
  assumes a: "is_ascii s"
  shows "TrimSpace s = s \<longleftrightarrow> s = [] \<or> (\<not> ascii_space (hd s) \<and> \<not> ascii_space (last s))"
proof
  assume t: "TrimSpace s = s"
  obtain k where k: "strip_prefixes space_encodings s = drop k s" using strip_prefixes_suffix by blast
  obtain j where j: "TrimSpace s = rev (drop j (rev (drop k s)))"
    using strip_prefixes_suffix k by (metis TrimSpace_def)
  have "length (TrimSpace s) = length s - k - j" by (simp add: j)
  then have "k = 0 \<and> j = 0 \<or> s = []" using t by (cases s) auto
  then have "s = [] \<or> strip_prefixes space_encodings s = s" using k by auto
  moreover have "s = [] \<or> strip_prefixes (map rev space_encodings) (rev s) = rev s"
    using t calculation by (metis TrimSpace_def rev_rev_ident)
  moreover have "\<not> ascii_space (hd s)" if "s \<noteq> []" "strip_prefixes space_encodings s = s"
    using strip_prefixes_none [OF ascii_space_encodings, of "hd s" s] that by (cases s) auto
  moreover have "\<not> ascii_space (last s)"
    if "s \<noteq> []" "strip_prefixes (map rev space_encodings) (rev s) = rev s"
  proof
    assume "ascii_space (last s)"
    then have "[last s] \<in> set (map rev space_encodings)"
      using ascii_space_encodings by (metis image_eqI list.set_map rev_singleton_conv)
    moreover have "prefix [last s] (rev s)" using that(1) by (cases s rule: rev_cases) auto
    ultimately show False
      using strip_prefixes_none [of "[last s]" "map rev space_encodings" "rev s"] that(2) by simp
  qed
  ultimately show "s = [] \<or> (\<not> ascii_space (hd s) \<and> \<not> ascii_space (last s))" by blast
next
  assume s: "s = [] \<or> (\<not> ascii_space (hd s) \<and> \<not> ascii_space (last s))"
  have no_pre: "\<not> prefix p s" if "p \<in> set space_encodings" for p
    using space_encodings_split [OF that] s a by (auto simp: prefix_def is_ascii_def)
  have no_suf: "\<not> prefix p (rev s)" if "p \<in> set (map rev space_encodings)" for p
  proof
    assume "prefix p (rev s)"
    then have suf: "suffix (rev p) s" by (simp add: suffix_to_prefix)
    have m: "rev p \<in> set space_encodings" using that by auto
    then have "rev p \<noteq> []" using space_encodings_split by blast
    moreover obtain zs where "s = zs @ rev p" using suf by (auto simp: suffix_def)
    ultimately have "last (rev p) = last s" "last s \<in> set s"
      using last_in_set [of s] by (auto simp: last_append simp del: last_in_set)
    then show False using space_encodings_split [OF m] s a \<open>rev p \<noteq> []\<close> by (auto simp: is_ascii_def)
  qed
  show "TrimSpace s = s"
    using strip_prefixes_id [of space_encodings s] strip_prefixes_id [of "map rev space_encodings" "rev s"] no_pre no_suf
    by (simp add: TrimSpace_def)
qed

lemma is_ascii_strip: "is_ascii s \<Longrightarrow> is_ascii (TrimSpace s)"
proof -
  assume "is_ascii s"
  moreover have "set (TrimSpace s) \<subseteq> set s"
    using strip_prefixes_suffix [of space_encodings s]
      strip_prefixes_suffix [of "map rev space_encodings" "rev (strip_prefixes space_encodings s)"]
    by (auto simp: TrimSpace_def dest!: in_set_dropD)
  ultimately show ?thesis by (auto simp: is_ascii_def)
qed

lemma ascii_space_lower: "ascii_space (ascii_lower c) \<longleftrightarrow> ascii_space c"
  by (auto simp: ascii_space_def ascii_lower_def Let_def)

text \<open>Trimming and lowering twice is trimming and lowering once, when \<open>ul\<close> behaves likewise.\<close>

definition case_stable :: "(string \<Rightarrow> string) \<Rightarrow> bool" where
  "case_stable ul \<longleftrightarrow> (\<forall>s. \<not> is_ascii s \<longrightarrow> ToLower ul (TrimSpace (ul s)) = ul s)"

lemma lower_trim_stable:
  assumes "case_stable ul" shows "ToLower ul (TrimSpace (ToLower ul (TrimSpace s))) = ToLower ul (TrimSpace s)"
proof (cases "is_ascii (TrimSpace s)")
  case False
  then show ?thesis using assms by (simp add: ToLower_def case_stable_def)
next
  case True
  let ?t = "TrimSpace s"
  have "TrimSpace (map ascii_lower ?t) = map ascii_lower ?t"
    using TrimSpace_ascii [OF True] TrimSpace_ascii [OF is_ascii_map_lower [OF True]]
    by (cases "?t = []") (simp_all add: hd_map last_map ascii_space_lower)
  then show ?thesis using True by (simp add: ToLower_def is_ascii_map_lower comp_def)
qed

text \<open>A string is trimmed when no space encoding starts or ends it; so a separator keeps two trimmed parts trimmed.\<close>

lemma TrimSpace_fixed_iff: "TrimSpace s = s \<longleftrightarrow> (\<forall>p \<in> set space_encodings. \<not> prefix p s \<and> \<not> suffix p s)"
proof
  assume t: "TrimSpace s = s"
  have ne: "p \<noteq> []" if "p \<in> set space_encodings" for p using space_encodings_split [OF that] by blast
  obtain k where k: "strip_prefixes space_encodings s = drop k s" using strip_prefixes_suffix by blast
  obtain j where j: "TrimSpace s = rev (drop j (rev (drop k s)))"
    using strip_prefixes_suffix k by (metis TrimSpace_def)
  have "length (TrimSpace s) = length s - k - j" by (simp add: j)
  then have "k = 0 \<and> j = 0 \<or> s = []" using t by (cases s) auto
  then have pre: "strip_prefixes space_encodings s = s" using k by auto
  then have suf: "strip_prefixes (map rev space_encodings) (rev s) = rev s"
    using t by (metis TrimSpace_def rev_rev_ident)
  show "\<forall>p \<in> set space_encodings. \<not> prefix p s \<and> \<not> suffix p s"
  proof
    fix p assume p: "p \<in> set space_encodings"
    have "\<not> prefix (rev p) (rev s)"
      using strip_prefixes_none [of "rev p" "map rev space_encodings" "rev s"] suf p ne [OF p] by simp
    then show "\<not> prefix p s \<and> \<not> suffix p s"
      using strip_prefixes_none [OF p ne [OF p], of s] pre by (simp add: suffix_to_prefix)
  qed
next
  assume s: "\<forall>p \<in> set space_encodings. \<not> prefix p s \<and> \<not> suffix p s"
  then have "strip_prefixes space_encodings s = s" by (intro strip_prefixes_id) blast
  moreover have "strip_prefixes (map rev space_encodings) (rev s) = rev s"
    using s by (intro strip_prefixes_id) (auto simp: suffix_to_prefix)
  ultimately show "TrimSpace s = s" by (simp add: TrimSpace_def)
qed

lemma prefix_before: "c \<notin> set p \<Longrightarrow> prefix p (a @ c # b) \<Longrightarrow> prefix p a"
proof -
  assume c: "c \<notin> set p" and "prefix p (a @ c # b)"
  then consider "prefix p a" | us where "p = a @ us" "prefix us (c # b)" by (auto simp only: prefix_append)
  then show "prefix p a"
  proof cases
    case 2
    then show ?thesis using c by (cases us) auto
  qed
qed

lemma suffix_after: "c \<notin> set p \<Longrightarrow> suffix p (a @ c # b) \<Longrightarrow> suffix p b"
proof -
  assume "c \<notin> set p" "suffix p (a @ c # b)"
  then have "c \<notin> set (rev p)" "prefix (rev p) (rev b @ c # rev a)" by (simp_all add: suffix_to_prefix)
  then have "prefix (rev p) (rev b)" by (rule prefix_before)
  then show "suffix p b" by (simp only: suffix_to_prefix)
qed

lemma TrimSpace_around:
  assumes "TrimSpace a = a" "TrimSpace b = b" "\<forall>p \<in> set space_encodings. c \<notin> set p"
  shows "TrimSpace (a @ c # b) = a @ c # b"
  unfolding TrimSpace_fixed_iff
proof (intro ballI conjI notI)
  fix p assume p: "p \<in> set space_encodings"
  then have c: "c \<notin> set p" using assms(3) by (rule bspec [rotated])
  show False if "prefix p (a @ c # b)"
    using prefix_before [OF c that] p assms(1) TrimSpace_fixed_iff [of a] by simp
  show False if "suffix p (a @ c # b)"
    using suffix_after [OF c that] p assms(2) TrimSpace_fixed_iff [of b] by simp
qed

lemma colon_no_space: "\<forall>p \<in> set space_encodings. CHR '':'' \<notin> set p"
proof -
  have "list_all (\<lambda>p. CHR '':'' \<notin> set p) space_encodings" by code_simp
  then show ?thesis by (simp only: list_all_iff)
qed

subsection \<open>Two more functions\<close>

text \<open>\<open>strings.Trim(s, " ")\<close> and \<open>strings.Replace(s, "__", ".", -1)\<close>.\<close>

definition TrimBlanks :: "string \<Rightarrow> string" where
  "TrimBlanks s = rev (dropWhile (\<lambda>c. c = CHR '' '') (rev (dropWhile (\<lambda>c. c = CHR '' '') s)))"

fun ReplaceUnderscores :: "string \<Rightarrow> string" where
  "ReplaceUnderscores (a # b # cs) =
     (if a = CHR ''_'' \<and> b = CHR ''_'' then CHR ''.'' # ReplaceUnderscores cs
      else a # ReplaceUnderscores (b # cs))"
| "ReplaceUnderscores cs = cs"

end
