(* ===== verification/Utf16.thy ===== *)
theory Utf16
  imports Go_Strings
begin

text \<open>
  \<open>utf16.go\<close>: the conversion between Go strings (UTF-8 bytes) and the little-endian
  UTF-16 of the wire. The UTF-8 coder and decoder of the runtime and \<open>unicode/utf16\<close>
  are written out, with their replacement of invalid input by U+FFFD.
\<close>

subsection \<open>UTF-8\<close>

definition scalar_value :: "nat \<Rightarrow> bool" where
  "scalar_value r \<longleftrightarrow> r < 0xD800 \<or> 0xE000 \<le> r \<and> r \<le> 0x10FFFF"

definition utf8_EncodeRune :: "nat \<Rightarrow> nat list" where
  "utf8_EncodeRune rune =
     (if rune \<le> 0x7F then [rune]
      else if rune \<le> 0x7FF then [0xC0 + rune div 64, 0x80 + rune mod 64]
      else let r = (if scalar_value rune then rune else 0xFFFD) in
        if r \<le> 0xFFFF then [0xE0 + r div 4096, 0x80 + r div 64 mod 64, 0x80 + r mod 64]
        else [0xF0 + r div 262144, 0x80 + r div 4096 mod 64, 0x80 + r div 64 mod 64, 0x80 + r mod 64])"

definition cont :: "nat \<Rightarrow> bool" where
  "cont b \<longleftrightarrow> 0x80 \<le> b \<and> b \<le> 0xBF"

text \<open>\<open>utf8.DecodeRune\<close>: the rune and its width; invalid input is U+FFFD of width one.\<close>

fun utf8_DecodeRune :: "nat list \<Rightarrow> nat \<times> nat" where
  "utf8_DecodeRune [] = (0xFFFD, 0)"
| "utf8_DecodeRune (b0 # bs) =
     (if b0 < 0x80 then (b0, 1)
      else if 0xC2 \<le> b0 \<and> b0 \<le> 0xDF then
        (case bs of b1 # _ \<Rightarrow>
           if cont b1 then ((b0 - 0xC0) * 64 + (b1 - 0x80), 2) else (0xFFFD, 1)
         | _ \<Rightarrow> (0xFFFD, 1))
      else if 0xE0 \<le> b0 \<and> b0 \<le> 0xEF then
        (case bs of b1 # b2 # _ \<Rightarrow>
           if cont b1 \<and> cont b2 \<and> (b0 = 0xE0 \<longrightarrow> 0xA0 \<le> b1) \<and> (b0 = 0xED \<longrightarrow> b1 \<le> 0x9F)
           then ((b0 - 0xE0) * 4096 + (b1 - 0x80) * 64 + (b2 - 0x80), 3) else (0xFFFD, 1)
         | _ \<Rightarrow> (0xFFFD, 1))
      else if 0xF0 \<le> b0 \<and> b0 \<le> 0xF4 then
        (case bs of b1 # b2 # b3 # _ \<Rightarrow>
           if cont b1 \<and> cont b2 \<and> cont b3 \<and> (b0 = 0xF0 \<longrightarrow> 0x90 \<le> b1) \<and> (b0 = 0xF4 \<longrightarrow> b1 \<le> 0x8F)
           then ((b0 - 0xF0) * 262144 + (b1 - 0x80) * 4096 + (b2 - 0x80) * 64 + (b3 - 0x80), 4)
           else (0xFFFD, 1)
         | _ \<Rightarrow> (0xFFFD, 1))
      else (0xFFFD, 1))"

lemma utf8_width: "bs \<noteq> [] \<Longrightarrow> 1 \<le> snd (utf8_DecodeRune bs)"
  by (cases bs) (auto split: list.splits)

text \<open>The conversion \<open>[]rune(s)\<close>.\<close>

function runes_of :: "nat list \<Rightarrow> nat list" where
  "runes_of [] = []"
| "runes_of (b # bs) =
     (let (r, w) = utf8_DecodeRune (b # bs) in r # runes_of (drop w (b # bs)))"
  by pat_completeness auto
termination
proof (relation "measure length")
  fix b :: nat and bs x r w
  assume "x = utf8_DecodeRune (b # bs)" and "(r, w) = x"
  then have "1 \<le> w" using utf8_width [of "b # bs"] by (metis list.distinct(1) snd_conv)
  then show "(drop w (b # bs), b # bs) \<in> measure length" by simp
qed simp

declare runes_of.simps(2) [simp del]

text \<open>The base-64 digits of a rune.\<close>

lemma base64_digits2:
  obtains a b where "r = a * 64 + b" and "b < 64" and "r div 64 = a" and "r mod 64 = (b::nat)"
  using that [of "r div 64" "r mod 64"] by simp

lemma base64_digits3:
  obtains a b c where "r = a * 4096 + b * 64 + c" and "b < 64" and "c < 64"
    and "r div 4096 = a" and "r div 64 mod 64 = b" and "r mod 64 = (c::nat)"
proof -
  obtain q c where 1: "r = q * 64 + c" "c < 64" "r div 64 = q" "r mod 64 = c"
    by (rule base64_digits2)
  obtain a b where 2: "q = a * 64 + b" "b < 64" "q div 64 = a" "q mod 64 = b"
    by (rule base64_digits2)
  have "r div 4096 = r div 64 div 64" by (simp add: div_mult2_eq [symmetric])
  then show ?thesis using that [of a b c] 1 2 by simp
qed

lemma base64_digits4:
  obtains a b c d where "r = a * 262144 + b * 4096 + c * 64 + d" and "b < 64" and "c < 64" and "d < 64"
    and "r div 262144 = a" and "r div 4096 mod 64 = b" and "r div 64 mod 64 = c" and "r mod 64 = (d::nat)"
proof -
  obtain q d where 1: "r = q * 64 + d" "d < 64" "r div 64 = q" "r mod 64 = d"
    by (rule base64_digits2)
  obtain a b c where 2: "q = a * 4096 + b * 64 + c" "b < 64" "c < 64" "q div 4096 = a"
      "q div 64 mod 64 = b" "q mod 64 = c"
    by (rule base64_digits3)
  have "r div 262144 = r div 64 div 4096" "r div 4096 = r div 64 div 64"
    by (simp_all add: div_mult2_eq [symmetric])
  then show ?thesis using that [of a b c d] 1 2 by simp
qed

lemma utf8_decode_encode:
  assumes "scalar_value r"
  shows "utf8_DecodeRune (utf8_EncodeRune r @ bs) = (r, length (utf8_EncodeRune r))"
proof -
  consider "r \<le> 0x7F" | "0x7F < r" "r \<le> 0x7FF" | "0x7FF < r" "r \<le> 0xFFFF" | "0xFFFF < r" "r \<le> 0x10FFFF"
    using assms unfolding scalar_value_def by linarith
  then show ?thesis
  proof cases
    case 1
    then show ?thesis by (simp add: utf8_EncodeRune_def)
  next
    case 2
    obtain a b where "r = a * 64 + b" "b < 64" "r div 64 = a" "r mod 64 = b" by (rule base64_digits2)
    then show ?thesis using 2 by (simp add: utf8_EncodeRune_def cont_def)
  next
    case 3
    obtain a b c where d: "r = a * 4096 + b * 64 + c" "b < 64" "c < 64"
        "r div 4096 = a" "r div 64 mod 64 = b" "r mod 64 = c" by (rule base64_digits3)
    have "a \<le> 15" "a = 0 \<longrightarrow> 32 \<le> b" "a = 13 \<longrightarrow> b \<le> 31"
      using 3 assms d(1-3) unfolding scalar_value_def by linarith+
    then show ?thesis using 3 assms d(2-6) by (auto simp: utf8_EncodeRune_def cont_def Let_def d(1))
  next
    case 4
    obtain a b c e where d: "r = a * 262144 + b * 4096 + c * 64 + e" "b < 64" "c < 64" "e < 64"
        "r div 262144 = a" "r div 4096 mod 64 = b" "r div 64 mod 64 = c" "r mod 64 = e"
      by (rule base64_digits4)
    have "a \<le> 4" "a = 0 \<longrightarrow> 16 \<le> b" "a = 4 \<longrightarrow> b \<le> 15"
      using 4 d(1-4) by linarith+
    then show ?thesis using 4 assms d(2-8) by (auto simp: utf8_EncodeRune_def cont_def Let_def d(1))
  qed
qed

lemma utf8_EncodeRune_nonempty: "utf8_EncodeRune r \<noteq> []"
  by (simp add: utf8_EncodeRune_def Let_def)

lemma utf8_EncodeRune_bytes: "\<forall>b \<in> set (utf8_EncodeRune r). b < 256"
  by (auto simp: utf8_EncodeRune_def scalar_value_def Let_def)

lemma runes_of_append:
  assumes "scalar_value r"
  shows "runes_of (utf8_EncodeRune r @ bs) = r # runes_of bs"
proof -
  obtain b cs where "utf8_EncodeRune r = b # cs"
    using utf8_EncodeRune_nonempty by (meson neq_Nil_conv)
  then show ?thesis
    using utf8_decode_encode [OF assms, of bs] by (simp add: runes_of.simps(2))
qed

lemma runes_of_encode:
  "\<forall>r \<in> set rs. scalar_value r \<Longrightarrow> runes_of (concat (map utf8_EncodeRune rs)) = rs"
  by (induction rs) (auto simp: runes_of_append)

text \<open>A Go string and its bytes.\<close>

definition string_of_bytes :: "nat list \<Rightarrow> string" where
  "string_of_bytes = map char_of"

definition bytes_of_string :: "string \<Rightarrow> nat list" where
  "bytes_of_string = map of_char"

lemma bytes_of_string_of_bytes: "\<forall>b \<in> set bs. b < 256 \<Longrightarrow> bytes_of_string (string_of_bytes bs) = bs"
  by (induction bs) (auto simp: bytes_of_string_def string_of_bytes_def)

definition utf8 :: "nat list \<Rightarrow> string" where
  "utf8 rs = string_of_bytes (concat (map utf8_EncodeRune rs))"

lemma bytes_of_utf8: "bytes_of_string (utf8 rs) = concat (map utf8_EncodeRune rs)"
  unfolding utf8_def using utf8_EncodeRune_bytes by (intro bytes_of_string_of_bytes) auto

subsection \<open>UTF-16\<close>

text \<open>\<open>utf16.Encode\<close> of one rune, and \<open>utf16.Decode\<close> of a one-element slice.\<close>

definition utf16_Encode1 :: "nat \<Rightarrow> u16 list" where
  "utf16_Encode1 v =
     (if v < 0xD800 \<or> 0xE000 \<le> v \<and> v < 0x10000 then [word_of_nat v]
      else if 0x10000 \<le> v \<and> v \<le> 0x10FFFF
      then [word_of_nat (0xD800 + (v - 0x10000) div 1024), word_of_nat (0xDC00 + (v - 0x10000) mod 1024)]
      else [0xFFFD])"

definition utf16_Decode1 :: "u16 \<Rightarrow> nat" where
  "utf16_Decode1 u = (let v = unat u in if v < 0xD800 \<or> 0xE000 \<le> v then v else 0xFFFD)"

definition EncodeUTF16 :: "string \<Rightarrow> byte list" where
  "EncodeUTF16 s = concat (map put_u16 (concat (map utf16_Encode1 (runes_of (bytes_of_string s)))))"

fun decode_units :: "byte list \<Rightarrow> nat list" where
  "decode_units (b0 # b1 # bs) =
     (let u = (ucast b0 :: u16) + push_bit 8 (ucast b1)
      in utf8_EncodeRune (utf16_Decode1 u) @ decode_units bs)"
| "decode_units _ = []"

text \<open>\<open>None\<close> is the error for an odd length; one trailing NUL byte is dropped.\<close>

definition DecodeUTF16 :: "byte list \<Rightarrow> string option" where
  "DecodeUTF16 b =
     (if odd (length b) then None
      else let bret = string_of_bytes (decode_units b)
           in Some (if bret \<noteq> [] \<and> last bret = CHR 0x00 then butlast bret else bret))"

definition decoded :: "byte list \<Rightarrow> string" where
  "decoded b = (case DecodeUTF16 b of None \<Rightarrow> [] | Some s \<Rightarrow> s)"

lemma unit_le: "(ucast (word_of_nat (unat w) :: byte) :: u16) + push_bit 8 (ucast (word_of_nat (unat w div 256) :: byte)) = w"
proof -
  have lt: "unat w < 65536" using unsigned_less [of w, where ?'a = nat] by simp
  have lo: "unat (ucast (word_of_nat (unat w) :: byte) :: u16) = unat w mod 256"
    and hi: "unat (ucast (word_of_nat (unat w div 256) :: byte) :: u16) = unat w div 256"
    using lt by (subst unsigned_ucast_eq, subst unsigned_of_nat, simp add: take_bit_eq_mod)+
  have "unat ((ucast (word_of_nat (unat w) :: byte) :: u16) + push_bit 8 (ucast (word_of_nat (unat w div 256) :: byte)))
     = unat w mod 256 + 256 * (unat w div 256)"
    by (simp only: push_bit_eq_mult unat_word_ariths lo hi) (use lt in simp)
  also have "\<dots> = unat w" by simp
  finally show ?thesis by (rule word_unat_eq_iff [THEN iffD2])
qed

lemma decode_units_put: "decode_units (put_u16 w @ bs) = utf8_EncodeRune (utf16_Decode1 w) @ decode_units bs"
  using unit_le [of w] by (simp add: put_u16_def put_le_def numeral_2_eq_2 Let_def)

lemma decode_units_encoded:
  "decode_units (concat (map put_u16 ws)) = concat (map (\<lambda>w. utf8_EncodeRune (utf16_Decode1 w)) ws)"
  by (induction ws) (auto simp: decode_units_put)

lemma even_encoded: "even (length (concat (map put_u16 ws)))"
  by (induction ws) auto

lemma length_EncodeUTF16: "even (length (EncodeUTF16 s))"
  by (simp add: EncodeUTF16_def even_encoded)

lemma EncodeUTF16_utf8:
  assumes "\<forall>r \<in> set rs. scalar_value r"
  shows "EncodeUTF16 (utf8 rs) = concat (map put_u16 (concat (map utf16_Encode1 rs)))"
  using assms by (simp add: EncodeUTF16_def bytes_of_utf8 runes_of_encode)

definition bmp :: "nat \<Rightarrow> bool" where
  "bmp r \<longleftrightarrow> scalar_value r \<and> r < 0x10000"

lemma utf16_bmp: "bmp r \<Longrightarrow> concat (map (\<lambda>w. utf8_EncodeRune (utf16_Decode1 w)) (utf16_Encode1 r)) = utf8_EncodeRune r"
  by (auto simp: bmp_def scalar_value_def utf16_Encode1_def utf16_Decode1_def Let_def unat_of_nat)

lemma utf16_bmps:
  "\<forall>r \<in> set rs. bmp r \<Longrightarrow>
   concat (map (\<lambda>w. utf8_EncodeRune (utf16_Decode1 w)) (concat (map utf16_Encode1 rs)))
     = concat (map utf8_EncodeRune rs)"
proof (induction rs)
  case (Cons r rs)
  then show ?case using utf16_bmp [of r] by simp
qed simp

lemma last_utf8_EncodeRune: "scalar_value r \<Longrightarrow> last (utf8_EncodeRune r) = 0 \<longleftrightarrow> r = 0"
  by (auto simp: utf8_EncodeRune_def Let_def)

lemma char_of_eq_NUL: "b < 256 \<Longrightarrow> char_of b = CHR 0x00 \<longleftrightarrow> b = (0::nat)"
  by (auto simp: char_of_eq_iff take_bit_eq_mod)


lemma last_concat_utf8:
  assumes "rs \<noteq> []" and "scalar_value (last rs)"
  shows "last (concat (map utf8_EncodeRune rs)) = 0 \<longleftrightarrow> last rs = 0"
  using assms
proof (induction rs)
  case (Cons r rs)
  show ?case
  proof (cases "rs = []")
    case True
    then show ?thesis using Cons.prems by (simp add: last_utf8_EncodeRune)
  next
    case False
    then have "concat (map utf8_EncodeRune rs) \<noteq> []"
      using utf8_EncodeRune_nonempty by (cases rs) auto
    then show ?thesis using Cons False by simp
  qed
qed simp

lemma last_utf8_NUL:
  assumes "rs \<noteq> []" and "\<forall>r \<in> set rs. scalar_value r"
  shows "last (utf8 rs) = CHR 0x00 \<longleftrightarrow> last rs = 0"
proof -
  let ?bs = "concat (map utf8_EncodeRune rs)"
  have ne: "?bs \<noteq> []" using assms(1) utf8_EncodeRune_nonempty by (cases rs) auto
  have "last (utf8 rs) = char_of (last ?bs)"
    using ne by (simp add: utf8_def string_of_bytes_def last_map)
  moreover have "last ?bs < 256"
    using ne utf8_EncodeRune_bytes last_in_set [OF ne] by fastforce
  ultimately show ?thesis
    using last_concat_utf8 [OF assms(1)] assms by (simp add: char_of_eq_NUL)
qed

lemma DecodeUTF16_utf8:
  assumes "\<forall>r \<in> set rs. scalar_value r"
    and "decode_units bs = concat (map utf8_EncodeRune rs)" and "even (length bs)"
  shows "DecodeUTF16 bs = Some (if rs \<noteq> [] \<and> last rs = 0 then butlast (utf8 rs) else utf8 rs)"
proof -
  have "string_of_bytes (decode_units bs) = utf8 rs" by (simp add: assms(2) utf8_def)
  moreover have "utf8 rs = [] \<longleftrightarrow> rs = []"
    using utf8_EncodeRune_nonempty by (cases rs) (auto simp: utf8_def string_of_bytes_def)
  ultimately show ?thesis
    using assms last_utf8_NUL by (auto simp: DecodeUTF16_def Let_def)
qed

lemma Decode_Encode_bmp:
  assumes "\<forall>r \<in> set rs. bmp r" and "rs \<noteq> [] \<longrightarrow> last rs \<noteq> 0"
  shows "DecodeUTF16 (EncodeUTF16 (utf8 rs)) = Some (utf8 rs)"
proof -
  have sc: "\<forall>r \<in> set rs. scalar_value r" using assms(1) by (simp add: bmp_def)
  have "decode_units (EncodeUTF16 (utf8 rs)) = concat (map utf8_EncodeRune rs)"
    using utf16_bmps [OF assms(1)] by (simp add: EncodeUTF16_utf8 [OF sc] decode_units_encoded)
  from DecodeUTF16_utf8 [OF sc this length_EncodeUTF16] show ?thesis using assms(2) by auto
qed

lemma length_EncodeUTF16_bmp:
  assumes "\<forall>r \<in> set rs. bmp r"
  shows "length (EncodeUTF16 (utf8 rs)) = 2 * length rs"
proof -
  have "length (concat (map put_u16 (concat (map utf16_Encode1 rs)))) = 2 * length rs"
    using assms by (induction rs) (auto simp: bmp_def scalar_value_def utf16_Encode1_def)
  moreover have "\<forall>r \<in> set rs. scalar_value r" using assms by (simp add: bmp_def)
  ultimately show ?thesis by (simp add: EncodeUTF16_utf8)
qed

lemma utf16_Decode1_surrogate:
  "0xD800 \<le> n \<Longrightarrow> n < 0xE000 \<Longrightarrow> utf16_Decode1 (word_of_nat n) = 0xFFFD"
  by (simp add: utf16_Decode1_def Let_def unsigned_of_nat take_bit_eq_mod)

text \<open>
  Names travel unchanged: decoding what \<open>EncodeUTF16\<close> produced gives the string back,
  for every valid UTF-8 string of the Basic Multilingual Plane that does not end in NUL.
\<close>

theorem DecodeUTF16_EncodeUTF16:
  assumes "\<forall>r \<in> set rs. bmp r" and "rs \<noteq> [] \<longrightarrow> last rs \<noteq> 0"
  shows "DecodeUTF16 (EncodeUTF16 (utf8 rs)) = Some (utf8 rs)"
  using assms by (rule Decode_Encode_bmp)

theorem DecodeUTF16_EncodeUTF16_witness:
  "DecodeUTF16 (EncodeUTF16 (utf8 [0x61, 0xE9, 0x4E2D])) = Some (utf8 [0x61, 0xE9, 0x4E2D])"
  by (rule DecodeUTF16_EncodeUTF16) (simp_all add: bmp_def scalar_value_def)

text \<open>
  Outside the Basic Multilingual Plane the round trip fails: \<open>EncodeUTF16\<close> writes a
  surrogate pair, and \<open>DecodeUTF16\<close>, which decodes one unit at a time, turns each half into
  U+FFFD, so every such character becomes two replacement characters.
\<close>

theorem DecodeUTF16_loses_surrogates:
  assumes "0x10000 \<le> r" and "r \<le> 0x10FFFF"
  shows "DecodeUTF16 (EncodeUTF16 (utf8 [r])) = Some (utf8 [0xFFFD, 0xFFFD])"
proof -
  have sc: "\<forall>r' \<in> set [r]. scalar_value r'" using assms by (simp add: scalar_value_def)
  have hi: "(r - 0x10000) div 1024 < 1024" using assms by simp
  have units: "utf16_Encode1 r
      = [word_of_nat (0xD800 + (r - 0x10000) div 1024), word_of_nat (0xDC00 + (r - 0x10000) mod 1024)]"
    using assms by (simp add: utf16_Encode1_def)
  have "utf16_Decode1 (word_of_nat (0xD800 + (r - 0x10000) div 1024)) = 0xFFFD"
    and "utf16_Decode1 (word_of_nat (0xDC00 + (r - 0x10000) mod 1024)) = 0xFFFD"
    using hi by (intro utf16_Decode1_surrogate; linarith | simp)+
  then have "decode_units (EncodeUTF16 (utf8 [r])) = concat (map utf8_EncodeRune [0xFFFD, 0xFFFD])"
    unfolding EncodeUTF16_utf8 [OF sc] decode_units_encoded
    by (simp only: units list.map concat.simps append.simps append_Nil2)
  moreover have "\<forall>r' \<in> set [0xFFFD, 0xFFFD]. scalar_value r'" by (simp add: scalar_value_def)
  ultimately show ?thesis using DecodeUTF16_utf8 length_EncodeUTF16 by fastforce
qed

theorem DecodeUTF16_loses_surrogates_witness:
  "DecodeUTF16 (EncodeUTF16 (utf8 [0x1F600])) = Some (utf8 [0xFFFD, 0xFFFD])"
  by (rule DecodeUTF16_loses_surrogates) simp_all

end
