(* ===== verification/Messages.thy ===== *)
theory Messages
  imports Wire Utf16
begin

text \<open>
  The messages of the gateway protocol as the server reads and writes them: the request
  parsers and response builders of \<open>process.go\<close>. The parsers never fail; a field the
  packet does not hold reads as zero, as the dropped errors of \<open>binary.Read\<close> have it.
\<close>

subsection \<open>Settings\<close>

record RedirectFlags =
  Clipboard :: bool
  Port :: bool
  Drive :: bool
  Printer :: bool
  Pnp :: bool
  DisableAll :: bool
  EnableAll :: bool

text \<open>The part of \<open>Gateway\<close> the messages depend on.\<close>

record gateway_settings =
  gwRedirectFlags :: RedirectFlags
  IdleTimeout :: int
  SmartCardAuth :: bool
  TokenAuth :: bool
  ReceiveBuf :: int
  SendBuf :: int

definition tunnelId :: u32 where "tunnelId = 10"

subsection \<open>Handshake\<close>

definition handshakeResponse :: "byte \<Rightarrow> byte \<Rightarrow> u16 \<Rightarrow> u32 \<Rightarrow> byte list" where
  "handshakeResponse major minor caps errorCode =
     createPacket PKT_TYPE_HANDSHAKE_RESPONSE
       (put_u32 errorCode @ [major, minor] @ put_u16 0 @ put_u16 caps)"

definition handshakeRequest :: "byte list \<Rightarrow> byte \<times> byte \<times> u16 \<times> u16" where
  "handshakeRequest data =
     (let (major, r) = get_u8 data;
          (minor, r) = get_u8 r;
          (version, r) = get_u16 r;
          (extAuth, r) = get_u16 r
      in (major, minor, version, extAuth))"

text \<open>\<open>None\<close> is the error: the client and the server share no capability.\<close>

definition matchAuth :: "('a gateway_settings_scheme) \<Rightarrow> u16 \<Rightarrow> u16 option" where
  "matchAuth gw clientAuthCaps =
     (let caps = 0;
          caps = (if SmartCardAuth gw then caps OR HTTP_EXTENDED_AUTH_SC else caps);
          caps = (if TokenAuth gw then caps OR HTTP_EXTENDED_AUTH_PAA else caps)
      in if caps AND clientAuthCaps = 0 \<and> clientAuthCaps > 0 then None
         else if caps > 0 \<and> clientAuthCaps = 0 then None
         else Some caps)"

subsection \<open>Tunnel creation\<close>

definition tunnelRequest :: "byte list \<Rightarrow> u32 \<times> string" where
  "tunnelRequest data =
     (let (caps, r) = get_u32 data;
          (fields, r) = get_u16 r;
          r = drop 2 r
      in if fields = HTTP_TUNNEL_PACKET_FIELD_PAA_COOKIE
         then let (sz, r) = get_u16 r;
                  (cookieB, r) = read_some (unat sz) r
              in (caps, decoded cookieB)
         else (caps, []))"

definition tunnelResponse :: "u32 \<Rightarrow> byte list" where
  "tunnelResponse errorCode =
     createPacket PKT_TYPE_TUNNEL_RESPONSE
       (put_u16 0 @ put_u32 errorCode
        @ put_u16 (HTTP_TUNNEL_RESPONSE_FIELD_TUNNEL_ID OR HTTP_TUNNEL_RESPONSE_FIELD_CAPS)
        @ put_u16 0 @ put_u32 tunnelId @ put_u32 HTTP_CAPABILITY_IDLE_TIMEOUT)"

subsection \<open>Tunnel authorization\<close>

definition tunnelAuthRequest :: "byte list \<Rightarrow> string" where
  "tunnelAuthRequest data =
     (let (sz, buf) = get_u16 data;
          (clData, buf) = read_slice (unat sz) buf
      in decoded clData)"

definition makeRedirectFlags :: "RedirectFlags \<Rightarrow> u32" where
  "makeRedirectFlags flags =
     (let redir = 0 in
      if DisableAll flags then HTTP_TUNNEL_REDIR_DISABLE_ALL
      else if EnableAll flags then HTTP_TUNNEL_REDIR_ENABLE_ALL
      else let redir = (if \<not> Port flags then redir OR HTTP_TUNNEL_REDIR_DISABLE_PORT else redir);
               redir = (if \<not> Clipboard flags then redir OR HTTP_TUNNEL_REDIR_DISABLE_CLIPBOARD else redir);
               redir = (if \<not> Drive flags then redir OR HTTP_TUNNEL_REDIR_DISABLE_DRIVE else redir);
               redir = (if \<not> Pnp flags then redir OR HTTP_TUNNEL_REDIR_DISABLE_PNP else redir);
               redir = (if \<not> Printer flags then redir OR HTTP_TUNNEL_REDIR_DISABLE_PRINTER else redir)
           in redir)"

text \<open>Building the response also resets a negative idle timeout in the shared gateway.\<close>

definition tunnelAuthResponse ::
    "('a gateway_settings_scheme) \<Rightarrow> u32 \<Rightarrow> ('a gateway_settings_scheme) \<times> byte list" where
  "tunnelAuthResponse gw errorCode =
     (let gw = (if IdleTimeout gw < 0 then gw\<lparr>IdleTimeout := 0\<rparr> else gw)
      in (gw, createPacket PKT_TYPE_TUNNEL_AUTH_RESPONSE
           (put_u32 errorCode
            @ put_u16 (HTTP_TUNNEL_AUTH_RESPONSE_FIELD_REDIR_FLAGS OR HTTP_TUNNEL_AUTH_RESPONSE_FIELD_IDLE_TIMEOUT)
            @ put_u16 0 @ put_u32 (makeRedirectFlags (gwRedirectFlags gw))
            @ put_u32 (word_of_int (IdleTimeout gw)))))"

subsection \<open>Channels\<close>

definition channelRequest :: "byte list \<Rightarrow> string \<times> u16" where
  "channelRequest data =
     (let (resourcesSize, buf) = get_u8 data;
          (alternative, buf) = get_u8 buf;
          (port, buf) = get_u16 buf;
          (protocol, buf) = get_u16 buf;
          (nameSize, buf) = get_u16 buf;
          (nameData, buf) = read_slice (unat nameSize) buf
      in (decoded nameData, port))"

definition channelResponse :: "u32 \<Rightarrow> byte list" where
  "channelResponse errorCode =
     createPacket PKT_TYPE_CHANNEL_RESPONSE
       (put_u32 errorCode @ put_u16 HTTP_CHANNEL_RESPONSE_FIELD_CHANNELID @ put_u16 0 @ put_u32 1)"

definition channelCloseResponse :: "u32 \<Rightarrow> byte list" where
  "channelCloseResponse errorCode =
     createPacket PKT_TYPE_CLOSE_CHANNEL_RESPONSE
       (put_u32 errorCode @ put_u16 HTTP_CHANNEL_RESPONSE_FIELD_CHANNELID @ put_u16 0 @ put_u32 1)"

subsection \<open>Data\<close>

text \<open>
  The packet that \<open>forward\<close> makes of one read from the RDP server, and the bytes that
  \<open>receive\<close> writes for one DATA message of the client.
\<close>

definition forward_packet :: "byte list \<Rightarrow> byte list" where
  "forward_packet chunk = createPacket PKT_TYPE_DATA (put_u16 (word_of_nat (length chunk)) @ chunk)"

definition receive :: "byte list \<Rightarrow> byte list" where
  "receive data =
     (let (cblen, buf) = get_u16 data;
          (pkt, buf) = read_slice (unat cblen) buf
      in pkt)"

subsection \<open>Facts about the messages\<close>

lemma put_u8_single: "put_u8 b = [b]"
  by (simp add: put_u8_def put_le_def)

lemma get_u8_Cons [wire_simps]: "get_u8 (b # r) = (b, r)"
  using u8.dec_enc [of b r] by (simp add: put_u8_single)

lemma unat_length_u16: "length xs < 2 ^ 16 \<Longrightarrow> unat (word_of_nat (length xs) :: u16) = length xs"
  by (simp add: unsigned_of_nat take_bit_eq_mod)

lemma tunnelAuthResponse_gateway:
  "fst (tunnelAuthResponse gw code) = gw\<lparr>IdleTimeout := max 0 (IdleTimeout gw)\<rparr>"
  by (auto simp: tunnelAuthResponse_def Let_def max_def)

lemma server_caps: "(if TokenAuth gw then (if SmartCardAuth gw then (0::u16) OR 1 else 0) OR 2
     else if SmartCardAuth gw then 0 OR 1 else 0)
   = of_bool (SmartCardAuth gw) + 2 * of_bool (TokenAuth gw)"
  by simp

lemma receive_short: "length payload < unat (fst (get_u16 data)) \<Longrightarrow> snd (get_u16 data) = payload
   \<Longrightarrow> receive data = replicate (unat (fst (get_u16 data))) 0"
  by (auto simp: receive_def read_slice_def split: prod.splits)

lemma length_receive: "length (receive data) = unat (fst (get_u16 data))"
  by (simp add: receive_def read_slice_def split: prod.splits)

lemma receive_put:
  "length chunk < 2 ^ 16 \<Longrightarrow> receive (put_u16 (word_of_nat (length chunk)) @ chunk @ rest) = chunk"
  by (simp add: receive_def unat_length_u16 wire_simps)

subsection \<open>Properties\<close>

text \<open>
  Capability negotiation is exact: \<open>matchAuth\<close> succeeds with precisely the configured
  capabilities, and it succeeds just when the client offers at least one of them, or when
  neither side has any.
\<close>

theorem matchAuth_exact:
  "matchAuth gw client = Some caps \<longleftrightarrow>
     caps = (if SmartCardAuth gw then HTTP_EXTENDED_AUTH_SC else 0)
            OR (if TokenAuth gw then HTTP_EXTENDED_AUTH_PAA else 0)
     \<and> (if client = 0 then caps = 0 else caps AND client \<noteq> 0)"
proof -
  have pos: "(x > 0) = (x \<noteq> 0)" for x :: u16 by (simp add: word_greater_zero_iff)
  show ?thesis
    by (cases "SmartCardAuth gw"; cases "TokenAuth gw")
       (auto simp: matchAuth_def Let_def wire_defs pos)
qed

text \<open>
  Redirection flags: \<open>DisableAll\<close> beats \<open>EnableAll\<close>, which beats the single devices;
  without them a device's bit is set exactly when the device is not allowed, and no other
  bit is ever set.
\<close>

theorem makeRedirectFlags_bits:
  "makeRedirectFlags f =
     (if DisableAll f then 0x40000000
      else if EnableAll f then 0x80000000
      else of_bool (\<not> Drive f) + 2 * of_bool (\<not> Printer f) + 4 * of_bool (\<not> Port f)
           + 8 * of_bool (\<not> Clipboard f) + 16 * of_bool (\<not> Pnp f))"
  by (cases "Drive f"; cases "Printer f"; cases "Port f"; cases "Clipboard f"; cases "Pnp f")
     (simp_all add: makeRedirectFlags_def Let_def wire_defs)

text \<open>
  Data round trip: the packet \<open>forward\<close> makes of any read is a DATA packet whose message,
  given to \<open>receive\<close>, is the chunk again, byte for byte.
\<close>

theorem forward_receive:
  assumes "length chunk < 2 ^ 16"
  shows "\<exists>sz m. readHeader (forward_packet chunk @ rest) = Ret (word_of_int PKT_TYPE_DATA, sz, m, None)
               \<and> receive m = chunk"
proof -
  have "length (put_u16 (word_of_nat (length chunk)) @ chunk) + 8 < 2 ^ 32" using assms by simp
  from readHeader_createPacket [OF this, of PKT_TYPE_DATA rest]
  show ?thesis
    using receive_put [OF assms, of "[]"] by (auto simp: forward_packet_def)
qed

theorem forward_receive_witness:
  "\<exists>sz m. readHeader (forward_packet [1, 2, 3] @ [9]) = Ret (word_of_int PKT_TYPE_DATA, sz, m, None)
          \<and> receive m = [1, 2, 3]"
  by (rule forward_receive) simp

text \<open>
  A DATA message whose length field promises more than the message holds is not rejected:
  \<open>receive\<close> drops the bytes it has and writes that many zero bytes to the RDP server.
\<close>

theorem receive_truncated_writes_zeros:
  assumes "length payload < unat n"
  shows "receive (put_u16 n @ payload) = replicate (unat n) 0"
  using assms by (simp add: receive_def read_slice_def wire_simps)

theorem receive_truncated_writes_zeros_witness:
  "receive (put_u16 4 @ [7, 7]) = replicate (unat (4::u16)) 0"
  by (rule receive_truncated_writes_zeros) simp

end
