(* ===== verification/Client.thy ===== *)
theory Client
  imports Framing Messages
begin

text \<open>
  The client side of the protocol, \<open>client.go\<close>: the requests a \<open>ClientConfig\<close> sends, its
  parsers for the server's responses, and the loop \<open>ConnectAndForward\<close>. The theorems say
  that server and client understand each other: each side's parser recovers what the other
  side's builder was given.
\<close>

subsection \<open>Configuration and messages\<close>

text \<open>\<open>cLocalConn\<close> says whether the local connection is set (not nil).\<close>

record ClientConfig =
  cSmartCardAuth :: bool
  cPAAToken :: string
  cNTLMAuth :: bool
  cLocalConn :: bool
  cServer :: string
  cPort :: int
  cName :: string

datatype client_error =
    ClientReadFailed
  | HandshakeError "32 word"
  | TunnelError u32
  | TunnelAuthError u32
  | ChannelError u32

definition client_caps :: "ClientConfig \<Rightarrow> u16" where
  "client_caps c =
     (let caps = 0;
          caps = (if cSmartCardAuth c then caps OR HTTP_EXTENDED_AUTH_SC else caps);
          caps = (if 0 < length (cPAAToken c) then caps OR HTTP_EXTENDED_AUTH_PAA else caps);
          caps = (if cNTLMAuth c then caps OR HTTP_EXTENDED_AUTH_SSPI_NTLM else caps)
      in caps)"

definition client_handshakeRequest :: "ClientConfig \<Rightarrow> byte list" where
  "client_handshakeRequest c =
     createPacket PKT_TYPE_HANDSHAKE_REQUEST (put_u8 0 @ put_u8 0 @ put_u16 0 @ put_u16 (client_caps c))"

text \<open>The error code is read into a signed \<open>int32\<close>, and only a positive one is an error.\<close>

definition client_handshakeResponse :: "byte list \<Rightarrow> client_error + u16" where
  "client_handshakeResponse data =
     (let (errorCode, r) = get_u32 data;
          (major, r) = get_u8 r;
          (minor, r) = get_u8 r;
          (version, r) = get_u16 r;
          (caps, r) = get_u16 r
      in if 0 < sint errorCode then Inl (HandshakeError errorCode) else Inr caps)"

definition client_tunnelRequest :: "ClientConfig \<Rightarrow> byte list" where
  "client_tunnelRequest c =
     (let fields = (if 0 < length (cPAAToken c) then 0 OR HTTP_TUNNEL_PACKET_FIELD_PAA_COOKIE else 0);
          caps = 0 OR HTTP_CAPABILITY_IDLE_TIMEOUT;
          buf = put_u32 caps @ put_u16 fields @ put_u16 0;
          buf = (if 0 < length (cPAAToken c)
                 then let utf16Token = EncodeUTF16 (cPAAToken c);
                          sz = word_of_nat (length utf16Token)
                      in buf @ put_u16 sz @ utf16Token
                 else buf)
      in createPacket PKT_TYPE_TUNNEL_CREATE buf)"

text \<open>The tunnel id and the capabilities are returned along with the error, if any.\<close>

definition client_tunnelResponse :: "byte list \<Rightarrow> u32 \<times> u32 \<times> client_error option" where
  "client_tunnelResponse data =
     (let (version, r) = get_u16 data;
          (errorCode, r) = get_u32 r;
          (fields, r) = get_u16 r;
          r = drop 2 r;
          (tid, r) = (if fields AND HTTP_TUNNEL_RESPONSE_FIELD_TUNNEL_ID = HTTP_TUNNEL_RESPONSE_FIELD_TUNNEL_ID
                      then get_u32 r else (0, r));
          (caps, r) = (if fields AND HTTP_TUNNEL_RESPONSE_FIELD_CAPS = HTTP_TUNNEL_RESPONSE_FIELD_CAPS
                       then get_u32 r else (0, r))
      in (tid, caps, if errorCode \<noteq> 0 then Some (TunnelError errorCode) else None))"

definition client_tunnelAuthRequest :: "ClientConfig \<Rightarrow> byte list" where
  "client_tunnelAuthRequest c =
     (let utf16name = EncodeUTF16 (cName c); sz = word_of_nat (length utf16name)
      in createPacket PKT_TYPE_TUNNEL_AUTH (put_u16 sz @ utf16name))"

definition client_tunnelAuthResponse :: "byte list \<Rightarrow> client_error + u32 \<times> u32" where
  "client_tunnelAuthResponse data =
     (let (errorCode, r) = get_u32 data;
          (fields, r) = get_u16 r;
          r = drop 2 r;
          (flags, r) = (if fields AND HTTP_TUNNEL_AUTH_RESPONSE_FIELD_REDIR_FLAGS
                             = HTTP_TUNNEL_AUTH_RESPONSE_FIELD_REDIR_FLAGS
                        then get_u32 r else (0, r));
          (timeout, r) = (if fields AND HTTP_TUNNEL_AUTH_RESPONSE_FIELD_IDLE_TIMEOUT
                               = HTTP_TUNNEL_AUTH_RESPONSE_FIELD_IDLE_TIMEOUT
                          then get_u32 r else (0, r))
      in if 0 < errorCode then Inl (TunnelAuthError errorCode) else Inr (flags, timeout))"

definition client_channelRequest :: "ClientConfig \<Rightarrow> byte list" where
  "client_channelRequest c =
     (let utf16server = EncodeUTF16 (cServer c)
      in createPacket PKT_TYPE_CHANNEL_CREATE
           ([1] @ [0] @ put_u16 (word_of_int (cPort c)) @ put_u16 3
            @ put_u16 (word_of_nat (length utf16server)) @ utf16server))"

definition client_channelResponse :: "byte list \<Rightarrow> client_error + u32" where
  "client_channelResponse data =
     (let (errorCode, r) = get_u32 data;
          (fields, r) = get_u16 r;
          r = drop 2 r;
          (channelId, r) = (if fields AND HTTP_CHANNEL_RESPONSE_FIELD_CHANNELID
                                 = HTTP_CHANNEL_RESPONSE_FIELD_CHANNELID
                            then get_u32 r else (0, r))
      in if 0 < errorCode then Inl (ChannelError errorCode) else Inr channelId)"

subsection \<open>The loop ConnectAndForward\<close>

text \<open>
  What the client has done: the packets written to the gateway and the bytes written to the
  local connection, in order. One message is answered by \<open>client_step\<close>; the loop takes the
  results of the successive \<open>readMessage\<close> calls, \<open>None\<close> a failed one. When the list ends
  the client is waiting in \<open>readMessage\<close>.
\<close>

record client_io =
  c_sent :: "byte list list"
  c_local :: "byte list"

definition client_send :: "byte list \<Rightarrow> client_io \<Rightarrow> client_io" where
  "client_send p io = io\<lparr>c_sent := c_sent io @ [p]\<rparr>"

definition client_step :: "ClientConfig \<Rightarrow> client_io \<Rightarrow> message \<Rightarrow> (client_io \<times> client_error option) go" where
  "client_step c io m =
     (if merr m \<noteq> None then Ret (io, None)
      else if packetType m = PKT_TYPE_HANDSHAKE_RESPONSE then
        (case client_handshakeResponse (msg m) of
           Inl e \<Rightarrow> Ret (io, Some e)
         | Inr caps \<Rightarrow> Ret (client_send (client_tunnelRequest c) io, None))
      else if packetType m = PKT_TYPE_TUNNEL_RESPONSE then
        (case client_tunnelResponse (msg m) of
           (tid, caps, Some e) \<Rightarrow> Ret (io, Some e)
         | (tid, caps, None) \<Rightarrow> Ret (client_send (client_tunnelAuthRequest c) io, None))
      else if packetType m = PKT_TYPE_TUNNEL_AUTH_RESPONSE then
        (case client_tunnelAuthResponse (msg m) of
           Inl e \<Rightarrow> Ret (io, Some e)
         | Inr (flags, timeout) \<Rightarrow> Ret (client_send (client_channelRequest c) io, None))
      else if packetType m = PKT_TYPE_CHANNEL_RESPONSE then
        (case client_channelResponse (msg m) of
           Inl e \<Rightarrow> Ret (io, Some e)
         | Inr cid \<Rightarrow> Ret (io, None))
      else if packetType m = PKT_TYPE_DATA then
        (if cLocalConn c then Ret (io\<lparr>c_local := c_local io @ receive (msg m)\<rparr>, None) else Panic)
      else Ret (io, None))"

fun client_messages ::
    "ClientConfig \<Rightarrow> client_io \<Rightarrow> message list \<Rightarrow> (client_io \<times> client_error option) go" where
  "client_messages c io [] = Ret (io, None)"
| "client_messages c io (m # ms) =
     go_bind (client_step c io m)
       (\<lambda>(io, e). if e \<noteq> None then Ret (io, e) else client_messages c io ms)"

fun client_loop ::
    "ClientConfig \<Rightarrow> client_io \<Rightarrow> message list option list \<Rightarrow> (client_io \<times> client_error option) go" where
  "client_loop c io [] = Ret (io, None)"
| "client_loop c io (None # rs) = Ret (io, Some ClientReadFailed)"
| "client_loop c io (Some ms # rs) =
     go_bind (client_messages c io ms)
       (\<lambda>(io, e). if e \<noteq> None then Ret (io, e) else client_loop c io rs)"

definition ConnectAndForward ::
    "ClientConfig \<Rightarrow> message list option list \<Rightarrow> (client_io \<times> client_error option) go" where
  "ConnectAndForward c rs = client_loop c \<lparr>c_sent = [client_handshakeRequest c], c_local = []\<rparr> rs"

subsection \<open>Both sides agree\<close>

text \<open>Names and tokens that fit the sixteen-bit length field and survive UTF-16.\<close>

definition wire_string :: "string \<Rightarrow> bool" where
  "wire_string s \<longleftrightarrow> length (EncodeUTF16 s) < 2 ^ 16 \<and> decoded (EncodeUTF16 s) = s"

lemma wire_string_bmp:
  assumes "\<forall>r \<in> set rs. bmp r" and "rs \<noteq> [] \<longrightarrow> last rs \<noteq> 0" and "length rs < 2 ^ 15"
  shows "wire_string (utf8 rs)"
  using assms Decode_Encode_bmp [OF assms(1,2)]
  by (simp add: wire_string_def decoded_def length_EncodeUTF16_bmp)

lemma wire_string_length: "wire_string s \<Longrightarrow> length (EncodeUTF16 s) < 65536"
  by (simp add: wire_string_def)

text \<open>
  The cookie arrives: what the server's \<open>tunnelRequest\<close> reads from the client's
  TUNNEL_CREATE packet is the client's capability word and its PAA token.
\<close>

theorem tunnelRequest_roundtrip:
  assumes "wire_string (cPAAToken c)"
  shows "\<exists>m. carries (client_tunnelRequest c) PKT_TYPE_TUNNEL_CREATE m
             \<and> tunnelRequest m = (HTTP_CAPABILITY_IDLE_TIMEOUT, cPAAToken c)"
  using assms wire_string_length [OF assms]
  by (auto simp: client_tunnelRequest_def tunnelRequest_def Let_def carries_createPacket wire_simps
      wire_defs wire_string_def unat_length_u16)

theorem tunnelRequest_roundtrip_witness:
  "\<exists>m. carries (client_tunnelRequest \<lparr>cSmartCardAuth = False, cPAAToken = utf8 [65, 0xE9], cNTLMAuth = False,
          cLocalConn = True, cServer = [], cPort = 0, cName = []\<rparr>) PKT_TYPE_TUNNEL_CREATE m
       \<and> tunnelRequest m = (HTTP_CAPABILITY_IDLE_TIMEOUT, utf8 [65, 0xE9])"
proof -
  have "wire_string (utf8 [65, 0xE9])"
    by (rule wire_string_bmp) (simp_all add: bmp_def scalar_value_def)
  then show ?thesis
    using tunnelRequest_roundtrip [of "\<lparr>cSmartCardAuth = False, cPAAToken = utf8 [65, 0xE9], cNTLMAuth = False,
          cLocalConn = True, cServer = [], cPort = 0, cName = []\<rparr>"] by simp
qed

text \<open>
  The target arrives: the server's \<open>channelRequest\<close> reads the client's server name and
  its port, reduced modulo \<open>2^16\<close>.
\<close>

theorem channelRequest_roundtrip:
  assumes "wire_string (cServer c)"
  shows "\<exists>m. carries (client_channelRequest c) PKT_TYPE_CHANNEL_CREATE m
             \<and> channelRequest m = (cServer c, word_of_int (cPort c))"
  using assms wire_string_length [OF assms]
  by (auto simp: client_channelRequest_def channelRequest_def Let_def carries_createPacket wire_simps
      wire_string_def unat_length_u16)

theorem channelRequest_roundtrip_witness:
  "\<exists>m. carries (client_channelRequest \<lparr>cSmartCardAuth = False, cPAAToken = [], cNTLMAuth = False,
          cLocalConn = True, cServer = utf8 [104, 49], cPort = 3389, cName = []\<rparr>) PKT_TYPE_CHANNEL_CREATE m
       \<and> channelRequest m = (utf8 [104, 49], 3389)"
proof -
  have "wire_string (utf8 [104, 49])"
    by (rule wire_string_bmp) (simp_all add: bmp_def scalar_value_def)
  then show ?thesis
    using channelRequest_roundtrip [of "\<lparr>cSmartCardAuth = False, cPAAToken = [], cNTLMAuth = False,
          cLocalConn = True, cServer = utf8 [104, 49], cPort = 3389, cName = []\<rparr>"] by simp
qed

lemma tunnelAuthRequest_put:
  "wire_string s \<Longrightarrow> tunnelAuthRequest (put_u16 (word_of_nat (length (EncodeUTF16 s))) @ EncodeUTF16 s) = s"
  using wire_string_length [of s]
  by (simp add: tunnelAuthRequest_def wire_simps wire_string_def unat_length_u16)

text \<open>
  C23: Server responses are understood: whatever the settings, the client's parsers accept the
  success responses of the server and read from them the capabilities that \<open>matchAuth\<close> agreed,
  the tunnel id, the redirection flags, the idle timeout (never negative), and channel 1.
\<close>

theorem responses_understood:
  "\<exists>mh mt ma mc.
     carries (handshakeResponse major minor caps ERROR_SUCCESS) PKT_TYPE_HANDSHAKE_RESPONSE mh
     \<and> client_handshakeResponse mh = Inr caps
     \<and> carries (tunnelResponse ERROR_SUCCESS) PKT_TYPE_TUNNEL_RESPONSE mt
     \<and> client_tunnelResponse mt = (tunnelId, HTTP_CAPABILITY_IDLE_TIMEOUT, None)
     \<and> carries (snd (tunnelAuthResponse gw ERROR_SUCCESS)) PKT_TYPE_TUNNEL_AUTH_RESPONSE ma
     \<and> client_tunnelAuthResponse ma
         = Inr (makeRedirectFlags (gwRedirectFlags gw), word_of_int (max 0 (IdleTimeout gw)))
     \<and> carries (channelResponse ERROR_SUCCESS) PKT_TYPE_CHANNEL_RESPONSE mc
     \<and> client_channelResponse mc = Inr 1"
  by (simp add: handshakeResponse_def tunnelResponse_def tunnelAuthResponse_def channelResponse_def Let_def
      carries_createPacket client_handshakeResponse_def client_tunnelResponse_def client_tunnelAuthResponse_def
      client_channelResponse_def wire_simps wire_defs error_code_defs max_def)

text \<open>
  The tunnel, tunnel-authorization and channel parsers of the client report every failure
  code the server can send.
\<close>

theorem failures_reported:
  assumes "code \<noteq> 0"
  shows "\<exists>mt ma mc.
     carries (tunnelResponse code) PKT_TYPE_TUNNEL_RESPONSE mt
     \<and> snd (snd (client_tunnelResponse mt)) = Some (TunnelError code)
     \<and> carries (snd (tunnelAuthResponse gw code)) PKT_TYPE_TUNNEL_AUTH_RESPONSE ma
     \<and> client_tunnelAuthResponse ma = Inl (TunnelAuthError code)
     \<and> carries (channelResponse code) PKT_TYPE_CHANNEL_RESPONSE mc
     \<and> client_channelResponse mc = Inl (ChannelError code)"
  using assms
  by (simp add: tunnelResponse_def tunnelAuthResponse_def channelResponse_def Let_def
      carries_createPacket client_tunnelResponse_def client_tunnelAuthResponse_def
      client_channelResponse_def wire_simps wire_defs word_greater_zero_iff)

text \<open>
  The handshake parser does not: it reads the code as a signed number, so every failure
  code of the \<open>E_PROXY\<close> family (top bit set) counts as success, and the client goes on with
  the capabilities in the packet.
\<close>

theorem handshake_failure_accepted:
  assumes "0x80000000 \<le> code"
  shows "\<exists>m. carries (handshakeResponse major minor caps code) PKT_TYPE_HANDSHAKE_RESPONSE m
             \<and> client_handshakeResponse m = Inr caps"
proof -
  have "2147483648 \<le> uint code" and "uint code < 4294967296"
    using assms unsigned_less [of code, where ?'a = int] by (simp_all add: word_le_def)
  then have "uint code div 2147483648 = 1" by linarith
  then have "sint code < 0"
    by (simp add: sint_uint signed_take_bit_negative_iff bit_iff_odd)
  then show ?thesis
    by (simp add: handshakeResponse_def Let_def carries_createPacket client_handshakeResponse_def wire_simps)
qed

theorem handshake_failure_accepted_witness:
  "\<exists>m. carries (handshakeResponse 0 0 0 E_PROXY_CAPABILITYMISMATCH) PKT_TYPE_HANDSHAKE_RESPONSE m
       \<and> client_handshakeResponse m = Inr 0"
  by (rule handshake_failure_accepted) (simp add: error_code_defs)

theorem failures_reported_witness:
  "\<exists>mt ma mc.
     carries (tunnelResponse E_PROXY_INTERNALERROR) PKT_TYPE_TUNNEL_RESPONSE mt
     \<and> snd (snd (client_tunnelResponse mt)) = Some (TunnelError E_PROXY_INTERNALERROR)
     \<and> carries (snd (tunnelAuthResponse
         \<lparr>gwRedirectFlags = \<lparr>Clipboard = True, Port = True, Drive = True, Printer = True, Pnp = True,
            DisableAll = False, EnableAll = False\<rparr>, IdleTimeout = 0, SmartCardAuth = False, TokenAuth = True,
          ReceiveBuf = 0, SendBuf = 0\<rparr> E_PROXY_INTERNALERROR)) PKT_TYPE_TUNNEL_AUTH_RESPONSE ma
     \<and> client_tunnelAuthResponse ma = Inl (TunnelAuthError E_PROXY_INTERNALERROR)
     \<and> carries (channelResponse E_PROXY_INTERNALERROR) PKT_TYPE_CHANNEL_RESPONSE mc
     \<and> client_channelResponse mc = Inl (ChannelError E_PROXY_INTERNALERROR)"
  by (rule failures_reported) (simp add: error_code_defs)

end
