(* ===== verification/Identity.thy ===== *)
theory Identity
  imports Go_Strings "HOL-Library.AList" "HOL-Library.List_Lexorder" "HOL-Library.Char_ord"
begin

text \<open>
  Package \<open>identity\<close>: the user of a session, its attributes and its grp memberships, and
  the form in which it is stored in a session cookie.

  A Go map is an association list; the order of the list stands for the order in which the
  runtime happens to iterate. Instants of time are integers, and \<open>0\<close> is the zero time.
\<close>

type_synonym 'v go_map = "(string \<times> 'v) list"
type_synonym instant = int

text \<open>What the code puts into the attribute map's \<open>interface{}\<close>.\<close>

datatype attr = AString string | AStrings "string list"

record User =
  authenticated :: bool
  uDomain :: string
  userName :: string
  displayName :: string
  email :: string
  authTime :: instant
  sessionId :: string
  expiry :: instant
  attributes :: "attr go_map"
  groupMembership :: "bool go_map"

definition AttrRemoteAddr :: string where "AttrRemoteAddr = ''remoteAddr''"
definition AttrClientIp :: string where "AttrClientIp = ''clientIp''"
definition AttrProxies :: string where "AttrProxies = ''proxyAddresses''"
definition AttrAccessToken :: string where "AttrAccessToken = ''accessToken''"
definition AttrAuthSource :: string where "AttrAuthSource = ''authSource''"
definition AuthSourceHeader :: string where "AuthSourceHeader = ''header''"
definition AuthSourceOIDC :: string where "AuthSourceOIDC = ''oidc''"

lemmas attr_name_defs = AttrRemoteAddr_def AttrClientIp_def AttrProxies_def AttrAccessToken_def AttrAuthSource_def

text \<open>The session id comes from \<open>uuid.New\<close>.\<close>

definition NewUser :: "string \<Rightarrow> User" where
  "NewUser uuid =
     \<lparr>authenticated = False, uDomain = [], userName = [], displayName = [], email = [], authTime = 0,
      sessionId = uuid, expiry = 0, attributes = [], groupMembership = []\<rparr>"

definition UserName :: "User \<Rightarrow> string" where "UserName u = userName u"
definition SetUserName :: "string \<Rightarrow> User \<Rightarrow> User" where "SetUserName s u = u\<lparr>userName := s\<rparr>"

definition DisplayName :: "User \<Rightarrow> string" where
  "DisplayName u = (if displayName u = [] then userName u else displayName u)"

definition SetAttribute :: "string \<Rightarrow> attr \<Rightarrow> User \<Rightarrow> User" where
  "SetAttribute s i u = u\<lparr>attributes := AList.update s i (attributes u)\<rparr>"

definition GetAttribute :: "User \<Rightarrow> string \<Rightarrow> attr option" where
  "GetAttribute u s = map_of (attributes u) s"

definition DelAttribute :: "string \<Rightarrow> User \<Rightarrow> User" where
  "DelAttribute s u = u\<lparr>attributes := AList.delete s (attributes u)\<rparr>"

text \<open>A type assertion \<open>.(string)\<close> with its second result dropped.\<close>

definition attr_string :: "attr option \<Rightarrow> string" where
  "attr_string a = (case a of Some (AString s) \<Rightarrow> s | _ \<Rightarrow> [])"

subsection \<open>Groups\<close>

definition Groups :: "User \<Rightarrow> string list" where
  "Groups u = sort (map fst (filter snd (groupMembership u)))"

definition add_group :: "bool go_map \<Rightarrow> string \<Rightarrow> bool go_map" where
  "add_group m grp = (let grp = TrimSpace grp in if grp = [] then m else AList.update grp True m)"

definition SetGroups :: "string list \<Rightarrow> User \<Rightarrow> User" where
  "SetGroups grps u = u\<lparr>groupMembership := foldl add_group [] grps\<rparr>"

definition InGroup :: "string \<Rightarrow> User \<Rightarrow> bool" where
  "InGroup grp u =
     (let grp = TrimSpace grp
      in if grp = [] then False
         else (case map_of (groupMembership u) grp of Some member \<Rightarrow> member | None \<Rightarrow> False))"

subsection \<open>Storage\<close>

text \<open>
  The exported mirror structure that \<open>encoding/gob\<close> stores; its maps may be nil. The coder
  is a parameter: \<open>enc\<close> may fail, \<open>dec\<close> may reject its input.
\<close>

record user_wire =
  wAuthenticated :: bool
  wUserName :: string
  wDomain :: string
  wDisplayName :: string
  wEmail :: string
  wAuthTime :: instant
  wSessionId :: string
  wExpiry :: instant
  wAttributes :: "attr go_map option"
  wGroupMembership :: "bool go_map option"

definition Marshal :: "(user_wire \<Rightarrow> 'b option) \<Rightarrow> User \<Rightarrow> 'b option" where
  "Marshal enc u =
     enc \<lparr>wAuthenticated = authenticated u, wUserName = userName u, wDomain = uDomain u,
          wDisplayName = displayName u, wEmail = email u, wAuthTime = authTime u,
          wSessionId = sessionId u, wExpiry = expiry u, wAttributes = Some (attributes u),
          wGroupMembership = Some (groupMembership u)\<rparr>"

definition Unmarshal :: "('b \<Rightarrow> user_wire option) \<Rightarrow> 'b \<Rightarrow> User \<Rightarrow> User option" where
  "Unmarshal dec b u =
     (case dec b of
        None \<Rightarrow> None
      | Some uu \<Rightarrow>
          Some (u\<lparr>sessionId := wSessionId uu, userName := wUserName uu, uDomain := wDomain uu,
                  displayName := wDisplayName uu, email := wEmail uu, authenticated := wAuthenticated uu,
                  authTime := wAuthTime uu, expiry := wExpiry uu,
                  attributes := (case wAttributes uu of None \<Rightarrow> [] | Some m \<Rightarrow> m),
                  groupMembership := (case wGroupMembership uu of None \<Rightarrow> [] | Some m \<Rightarrow> m)\<rparr>))"

subsection \<open>Lemmas\<close>

lemma GetAttribute_SetAttribute [simp]:
  "GetAttribute (SetAttribute s i u) t = (if t = s then Some i else GetAttribute u t)"
  by (simp add: GetAttribute_def SetAttribute_def update_conv)

lemma GetAttribute_DelAttribute [simp]:
  "GetAttribute (DelAttribute s u) t = (if t = s then None else GetAttribute u t)"
  by (simp add: GetAttribute_def DelAttribute_def delete_conv)

lemma GetAttribute_SetUserName [simp]: "GetAttribute (SetUserName s u) = GetAttribute u"
  by (simp add: GetAttribute_def SetUserName_def fun_eq_iff)

lemma UserName_SetUserName [simp]: "UserName (SetUserName s u) = s"
  by (simp add: UserName_def SetUserName_def)

lemma UserName_SetAttribute [simp]: "UserName (SetAttribute s i u) = UserName u"
  by (simp add: UserName_def SetAttribute_def)

text \<open>The membership map of a user: names are trimmed, non-empty and occur once.\<close>

definition wf_groups :: "bool go_map \<Rightarrow> bool" where
  "wf_groups m \<longleftrightarrow> distinct (map fst m) \<and> (\<forall>g \<in> set (map fst m). g \<noteq> [] \<and> TrimSpace g = g)"

lemma update_members: "set (map snd (AList.update k v m)) \<subseteq> insert v (set (map snd m))"
  by (induction m) auto

lemma add_group_facts:
  assumes "wf_groups m" and "\<forall>b \<in> set (map snd m). b"
  shows "wf_groups (add_group m g)" and "\<forall>b \<in> set (map snd (add_group m g)). b"
    and "set (map fst (add_group m g)) = set (map fst m) \<union> ({TrimSpace g} - {[]})"
proof -
  show "wf_groups (add_group m g)"
    using assms(1) by (auto simp: wf_groups_def add_group_def Let_def update_keys simp del: set_map)
  show "\<forall>b \<in> set (map snd (add_group m g)). b"
    using assms(2) update_members [of "TrimSpace g" True m] by (auto simp: add_group_def Let_def simp del: set_map)
  show "set (map fst (add_group m g)) = set (map fst m) \<union> ({TrimSpace g} - {[]})"
    by (auto simp: add_group_def Let_def update_keys simp del: set_map)
qed

lemma add_groups_facts:
  assumes "wf_groups m" and "\<forall>b \<in> set (map snd m). b"
  shows "wf_groups (foldl add_group m gs) \<and> (\<forall>b \<in> set (map snd (foldl add_group m gs)). b)
         \<and> set (map fst (foldl add_group m gs)) = set (map fst m) \<union> (TrimSpace ` set gs - {[]})"
  using assms
proof (induction gs arbitrary: m)
  case (Cons g gs)
  from Cons.IH [OF add_group_facts(1,2) [OF Cons.prems]] show ?case
    by (auto simp: add_group_facts(3) [OF Cons.prems] simp del: set_map)
qed simp

lemma SetGroups_membership:
  shows "wf_groups (groupMembership (SetGroups gs u))"
    and "\<forall>b \<in> set (map snd (groupMembership (SetGroups gs u))). b"
    and "set (map fst (groupMembership (SetGroups gs u))) = TrimSpace ` set gs - {[]}"
proof -
  have "wf_groups []" by (simp add: wf_groups_def)
  from add_groups_facts [OF this, of gs]
  show "wf_groups (groupMembership (SetGroups gs u))"
    and "\<forall>b \<in> set (map snd (groupMembership (SetGroups gs u))). b"
    and "set (map fst (groupMembership (SetGroups gs u))) = TrimSpace ` set gs - {[]}"
    by (simp_all add: SetGroups_def)
qed

lemma all_members: "\<forall>b \<in> set (map snd m). b \<Longrightarrow> filter snd m = m"
  by (induction m) auto

lemma member_lookup:
  "\<forall>b \<in> set (map snd m). b \<Longrightarrow>
   (case map_of m g of Some member \<Rightarrow> member | None \<Rightarrow> False) = (g \<in> set (map fst m))"
  by (induction m) auto

subsection \<open>Properties\<close>

text \<open>
  Group membership: after \<open>SetGroups gs\<close> a user is in exactly the groups of \<open>gs\<close>, names
  compared with their surrounding white space removed, and never in the empty group; what it was
  in before is forgotten.
\<close>

theorem InGroup_SetGroups:
  "InGroup g (SetGroups gs u) \<longleftrightarrow> TrimSpace g \<noteq> [] \<and> TrimSpace g \<in> TrimSpace ` set gs"
  using member_lookup [OF SetGroups_membership(2)] SetGroups_membership(3)
  by (auto simp: InGroup_def Let_def simp del: set_map)

text \<open>
  \<open>Groups\<close> lists those names once each in increasing order, whatever the order of the map.
\<close>

theorem Groups_SetGroups:
  "Groups (SetGroups gs u) = sorted_list_of_set (TrimSpace ` set gs - {[]})"
proof -
  let ?m = "groupMembership (SetGroups gs u)"
  have "sort (map fst ?m) = sorted_list_of_set (set (map fst ?m))"
    using SetGroups_membership(1) [of gs u]
    by (simp add: wf_groups_def sorted_list_of_set_sort_remdups distinct_remdups_id del: set_map)
  then show ?thesis
    using all_members [OF SetGroups_membership(2), of gs u] SetGroups_membership(3) [of gs u]
    by (simp add: Groups_def)
qed

text \<open>
  Sessions survive storage: unmarshalling what \<open>Marshal\<close> wrote, into any user, gives the
  stored user back in every field, provided \<open>encoding/gob\<close> decodes what it encoded.
\<close>

theorem Unmarshal_Marshal:
  assumes "\<And>w b. enc w = Some b \<Longrightarrow> dec b = Some w" and "Marshal enc u = Some b"
  shows "Unmarshal dec b v = Some (u :: User)"
  using assms(2) by (auto simp: Marshal_def Unmarshal_def dest!: assms(1))

theorem Unmarshal_Marshal_witness:
  "Unmarshal Some \<lparr>wAuthenticated = False, wUserName = ''bob'', wDomain = [], wDisplayName = [], wEmail = [],
       wAuthTime = 0, wSessionId = ''s1'', wExpiry = 0, wAttributes = Some [], wGroupMembership = Some []\<rparr>
     (NewUser ''s2'') = Some (SetUserName ''bob'' (NewUser ''s1''))"
  by (rule Unmarshal_Marshal [where enc = Some])
     (simp_all add: Marshal_def SetUserName_def NewUser_def)

end
