(* ===== verification/Go_Net.thy ===== *)
theory Go_Net
  imports Go_Strings
begin

text \<open>
  Decimal conversion (\<open>strconv.Itoa\<close>, \<open>strconv.Atoi\<close>) and the address functions of
  package \<open>net\<close> that the gateway relies on: \<open>JoinHostPort\<close>, \<open>SplitHostPort\<close> and
  \<open>ParseIP\<close>. The lemmas give the two round trips the host checks depend on.
\<close>

subsection \<open>Decimal numbers\<close>

definition digit :: "nat \<Rightarrow> char" where
  "digit n = char_of (48 + n)"

definition is_digit :: "char \<Rightarrow> bool" where
  "is_digit c \<longleftrightarrow> (48::nat) \<le> of_char c \<and> (of_char c :: nat) \<le> 57"

definition digit_value :: "char \<Rightarrow> nat" where
  "digit_value c = of_char c - 48"

fun Itoa :: "nat \<Rightarrow> string" where
  "Itoa n = (if n < 10 then [digit n] else Itoa (n div 10) @ [digit (n mod 10)])"

declare Itoa.simps [simp del]

definition decimal_value :: "string \<Rightarrow> nat" where
  "decimal_value = foldl (\<lambda>n c. n * 10 + digit_value c) 0"

definition ParseDigits :: "string \<Rightarrow> nat option" where
  "ParseDigits s = (if s \<noteq> [] \<and> list_all is_digit s then Some (decimal_value s) else None)"

text \<open>\<open>strconv.Atoi\<close>: \<open>None\<close> for a syntax error and for a value outside \<open>int\<close>.\<close>

definition Atoi :: "string \<Rightarrow> int option" where
  "Atoi s =
     (case s of
        [] \<Rightarrow> None
      | c # cs \<Rightarrow>
          (case ParseDigits (if c = CHR ''-'' \<or> c = CHR ''+'' then cs else s) of
             None \<Rightarrow> None
           | Some n \<Rightarrow>
               let v = (if c = CHR ''-'' then - int n else int n)
               in if - (2 ^ 63) \<le> v \<and> v < 2 ^ 63 then Some v else None))"

lemma is_digit_digit [simp]: "n < 10 \<Longrightarrow> is_digit (digit n)"
  by (simp add: is_digit_def digit_def)

lemma digit_value_digit [simp]: "n < 10 \<Longrightarrow> digit_value (digit n) = n"
  by (simp add: digit_value_def digit_def)

lemma Itoa_digits: "list_all is_digit (Itoa n) \<and> Itoa n \<noteq> []"
proof (induction n rule: Itoa.induct)
  case (1 n)
  then show ?case by (subst Itoa.simps, subst Itoa.simps) (cases "n < 10", simp_all)
qed

lemma decimal_value_Itoa: "decimal_value (Itoa n) = n"
proof (induction n rule: Itoa.induct)
  case (1 n)
  show ?case
  proof (cases "n < 10")
    case True
    then show ?thesis by (subst Itoa.simps) (simp add: decimal_value_def)
  next
    case False
    have "decimal_value (Itoa n) = decimal_value (Itoa (n div 10)) * 10 + n mod 10"
      using False by (subst Itoa.simps) (simp add: decimal_value_def)
    then show ?thesis using "1.IH" [OF False] by simp
  qed
qed

lemma ParseDigits_Itoa: "ParseDigits (Itoa n) = Some n"
  using Itoa_digits [of n] by (simp add: ParseDigits_def decimal_value_Itoa)

lemma digit_not_special: "is_digit c \<Longrightarrow> c \<notin> {CHR ''-'', CHR ''+'', CHR '':'', CHR ''['', CHR '']''}"
  by (auto simp: is_digit_def)

lemma Atoi_Itoa:
  assumes "n < 2 ^ 63"
  shows "Atoi (Itoa n) = Some (int n)"
proof -
  obtain c cs where "Itoa n = c # cs" "is_digit c"
    using Itoa_digits [of n] by (cases "Itoa n") auto
  then show ?thesis
    using ParseDigits_Itoa [of n] digit_not_special [of c] assms by (simp add: Atoi_def)
qed

lemma Itoa_inject: "Itoa m = Itoa n \<longleftrightarrow> m = n"
  by (metis decimal_value_Itoa)

subsection \<open>host:port\<close>

fun IndexByte :: "string \<Rightarrow> char \<Rightarrow> nat option" where
  "IndexByte [] c = None"
| "IndexByte (x # xs) c = (if x = c then Some 0 else map_option Suc (IndexByte xs c))"

definition LastIndexByte :: "string \<Rightarrow> char \<Rightarrow> nat option" where
  "LastIndexByte s c = map_option (\<lambda>i. length s - 1 - i) (IndexByte (rev s) c)"

definition JoinHostPort :: "string \<Rightarrow> string \<Rightarrow> string" where
  "JoinHostPort host port =
     (if CHR '':'' \<in> set host then ''['' @ host @ '']:'' @ port else host @ '':'' @ port)"

definition SplitHostPort :: "string \<Rightarrow> (string \<times> string) option" where
  "SplitHostPort hostport =
     (case LastIndexByte hostport CHR '':'' of
        None \<Rightarrow> None
      | Some i \<Rightarrow>
          let finish = (\<lambda>host j k.
                if CHR ''['' \<in> set (drop j hostport) then None
                else if CHR '']'' \<in> set (drop k hostport) then None
                else Some (host, drop (i + 1) hostport))
          in if hd hostport = CHR ''['' then
               (case IndexByte hostport CHR '']'' of
                  None \<Rightarrow> None
                | Some e \<Rightarrow>
                    if e + 1 = length hostport then None
                    else if e + 1 = i then finish (drop 1 (take e hostport)) 1 (e + 1)
                    else None)
             else
               (let host = take i hostport
                in if CHR '':'' \<in> set host then None else finish host 0 0))"

lemma IndexByte_append: "c \<notin> set xs \<Longrightarrow> IndexByte (xs @ c # ys) c = Some (length xs)"
  by (induction xs) auto

lemma LastIndexByte_append: "c \<notin> set ys \<Longrightarrow> LastIndexByte (xs @ c # ys) c = Some (length xs)"
  using IndexByte_append [of c "rev ys" "rev xs"] by (simp add: LastIndexByte_def)

lemma IndexByte_None: "IndexByte s c = None \<longleftrightarrow> c \<notin> set s"
  by (induction s) auto

lemma IndexByte_Some: "IndexByte s c = Some i \<Longrightarrow> i < length s \<and> s ! i = c \<and> c \<notin> set (take i s)"
  by (induction s arbitrary: i) (auto split: if_splits)

lemma LastIndexByte_None: "LastIndexByte s c = None \<longleftrightarrow> c \<notin> set s"
  by (simp add: LastIndexByte_def IndexByte_None)

lemma SplitHostPort_JoinHostPort:
  assumes "set host \<inter> {CHR ''['', CHR '']''} = {}" and "set port \<inter> {CHR '':'', CHR ''['', CHR '']''} = {}"
  shows "SplitHostPort (JoinHostPort host port) = Some (host, port)"
proof (cases "CHR '':'' \<in> set host")
  case False
  have "hd (host @ '':'' @ port) \<noteq> CHR ''[''" using assms(1) by (cases host) auto
  then show ?thesis
    using False assms LastIndexByte_append [of "CHR '':''" port host]
    by (auto simp: SplitHostPort_def JoinHostPort_def)
next
  case True
  let ?s = "CHR ''['' # (host @ CHR '']'' # CHR '':'' # port)"
  have join: "JoinHostPort host port = ?s" using True by (simp add: JoinHostPort_def)
  have colon: "LastIndexByte ?s CHR '':'' = Some (length host + 2)"
    using assms LastIndexByte_append [of "CHR '':''" port "CHR ''['' # host @ [CHR '']'']"] by simp
  have bracket: "IndexByte ?s CHR '']'' = Some (length host + 1)"
    using assms IndexByte_append [of "CHR '']''" "CHR ''['' # host" "CHR '':'' # port"] by simp
  have parts: "hd ?s = CHR ''[''" "length ?s = length host + length port + 3"
      "drop 1 (take (length host + 1) ?s) = host" "drop 1 ?s = host @ CHR '']'' # CHR '':'' # port"
      "drop (length host + 1 + 1) ?s = CHR '':'' # port" "drop (length host + 2 + 1) ?s = port"
    by simp_all
  show ?thesis
    unfolding join SplitHostPort_def colon bracket option.case Let_def parts using assms by auto
qed

lemma SplitHostPort_colon: "SplitHostPort s \<noteq> None \<Longrightarrow> CHR '':'' \<in> set s"
  using LastIndexByte_None [of s "CHR '':''"] by (cases "LastIndexByte s CHR '':''") (auto simp: SplitHostPort_def)

subsection \<open>ParseIP\<close>

definition parse_octet :: "string \<Rightarrow> nat option" where
  "parse_octet s =
     (case ParseDigits s of
        None \<Rightarrow> None
      | Some n \<Rightarrow> if (hd s = CHR ''0'' \<and> s \<noteq> ''0'') \<or> n > 255 then None else Some n)"

definition parseIPv4Fields :: "string \<Rightarrow> nat list option" where
  "parseIPv4Fields s =
     (let os = map parse_octet (Split s CHR ''.'')
      in if length os = 4 \<and> None \<notin> set os then Some (map the os) else None)"

definition hex_value :: "char \<Rightarrow> nat option" where
  "hex_value c =
     (let n = (of_char c :: nat)
      in if 48 \<le> n \<and> n \<le> 57 then Some (n - 48)
         else if 97 \<le> n \<and> n \<le> 102 then Some (n - 87)
         else if 65 \<le> n \<and> n \<le> 70 then Some (n - 55) else None)"

definition is_hex :: "char \<Rightarrow> bool" where
  "is_hex c \<longleftrightarrow> hex_value c \<noteq> None"

text \<open>The group loop of \<open>parseIPv6\<close>: the bytes so far, where \<open>::\<close> stood, the rest.\<close>

function parseIPv6_groups :: "nat list \<Rightarrow> nat option \<Rightarrow> string \<Rightarrow> (nat list \<times> nat option \<times> string) option" where
  "parseIPv6_groups ip ellipsis s =
     (if 16 \<le> length ip then Some (ip, ellipsis, s)
      else let ds = takeWhile is_hex s; rest = dropWhile is_hex s in
        if ds = [] \<or> 4 < length ds then None
        else let acc = foldl (\<lambda>n c. n * 16 + the (hex_value c)) 0 ds;
                 ip' = ip @ [acc div 256, acc mod 256] in
          (case rest of
             [] \<Rightarrow> Some (ip', ellipsis, [])
           | c # s' \<Rightarrow>
               if c = CHR ''.'' then
                 (if (ellipsis = None \<and> length ip \<noteq> 12) \<or> 16 < length ip + 4 then None
                  else map_option (\<lambda>fs. (ip @ fs, ellipsis, [])) (parseIPv4Fields s))
               else if c \<noteq> CHR '':'' \<or> s' = [] then None
               else if hd s' = CHR '':'' then
                 (if ellipsis \<noteq> None then None
                  else if tl s' = [] then Some (ip', Some (length ip'), [])
                  else parseIPv6_groups ip' (Some (length ip')) (tl s'))
               else parseIPv6_groups ip' ellipsis s'))"
  by pat_completeness auto
termination
  by (relation "measure (\<lambda>(ip, e, s). 16 - length ip)") auto

declare parseIPv6_groups.simps [simp del]

definition parseIPv6 :: "string \<Rightarrow> nat list option" where
  "parseIPv6 s =
     (let lead = prefix ''::'' s; s' = (if lead then drop 2 s else s) in
      if lead \<and> s' = [] then Some (replicate 16 0)
      else (case parseIPv6_groups [] (if lead then Some 0 else None) s' of
              None \<Rightarrow> None
            | Some (ip, ellipsis, rest) \<Rightarrow>
                if rest \<noteq> [] then None
                else (case ellipsis of
                        None \<Rightarrow> if length ip < 16 then None else Some ip
                      | Some e \<Rightarrow>
                          if length ip < 16
                          then Some (take e ip @ replicate (16 - length ip) 0 @ drop e ip)
                          else None)))"

text \<open>
  \<open>net.ParseIP\<close>: the sixteen bytes of the address, an IPv4 address in its mapped form.
  The first of the characters dot, colon and percent decides the syntax; zones are rejected.
\<close>

definition ParseIP :: "string \<Rightarrow> nat list option" where
  "ParseIP s =
     (case find (\<lambda>c. c \<in> set ''.:%'') s of
        Some c \<Rightarrow>
          if c = CHR ''.'' then map_option (\<lambda>fs. replicate 10 0 @ [255, 255] @ fs) (parseIPv4Fields s)
          else if c = CHR '':'' \<and> CHR ''%'' \<notin> set s then parseIPv6 s
          else None
      | None \<Rightarrow> None)"

subsection \<open>Addresses and networks\<close>

text \<open>\<open>IP.To4\<close> on a sixteen-byte address.\<close>

definition v4InV6Prefix :: "nat list" where
  "v4InV6Prefix = replicate 10 0 @ [255, 255]"

definition To4 :: "nat list \<Rightarrow> nat list option" where
  "To4 ip = (if length ip = 16 \<and> take 12 ip = v4InV6Prefix then Some (drop 12 ip) else None)"

text \<open>\<open>IP.String\<close>: dotted decimal, or hexadecimal groups with the longest run of zeros as \<open>::\<close>.\<close>

definition hex_digit :: "nat \<Rightarrow> char" where
  "hex_digit n = (if n < 10 then digit n else char_of (87 + n))"

fun hex_string :: "nat \<Rightarrow> string" where
  "hex_string n = (if n < 16 then [hex_digit n] else hex_string (n div 16) @ [hex_digit (n mod 16)])"

declare hex_string.simps [simp del]

fun groups16 :: "nat list \<Rightarrow> nat list" where
  "groups16 (a # b # r) = (a * 256 + b) # groups16 r"
| "groups16 _ = []"

definition zero_run :: "nat list \<Rightarrow> nat \<Rightarrow> nat" where
  "zero_run gs i = length (takeWhile (\<lambda>g. g = 0) (drop i gs))"

definition longest_run :: "nat list \<Rightarrow> (nat \<times> nat) option" where
  "longest_run gs =
     foldl (\<lambda>best i. let l = zero_run gs i in
              if l < 2 then best
              else (case best of None \<Rightarrow> Some (i, l) | Some (j, k) \<Rightarrow> if k < l then Some (i, l) else best))
       None [0 ..< length gs]"

fun join_strings :: "string \<Rightarrow> string list \<Rightarrow> string" where
  "join_strings sep [] = []"
| "join_strings sep [s] = s"
| "join_strings sep (s # t # r) = s @ sep @ join_strings sep (t # r)"

definition IP_String :: "nat list \<Rightarrow> string" where
  "IP_String ip =
     (case To4 ip of
        Some v4 \<Rightarrow> join_strings ''.'' (map Itoa v4)
      | None \<Rightarrow>
          let gs = groups16 ip in
          (case longest_run gs of
             None \<Rightarrow> join_strings '':'' (map hex_string gs)
           | Some (i, l) \<Rightarrow> join_strings '':'' (map hex_string (take i gs)) @ ''::''
                          @ join_strings '':'' (map hex_string (drop (i + l) gs))))"

text \<open>A network: its number, four or sixteen bytes, and the length of its prefix in bits.\<close>

definition mask_byte :: "nat \<Rightarrow> nat \<Rightarrow> nat" where
  "mask_byte k b = (let m = 2 ^ (8 - min 8 k) in b div m * m)"

definition mask_bytes :: "nat \<Rightarrow> nat list \<Rightarrow> nat list" where
  "mask_bytes n bs = map (\<lambda>i. mask_byte (n - 8 * i) (bs ! i)) [0 ..< length bs]"

definition ParseCIDR :: "string \<Rightarrow> (nat list \<times> nat) option" where
  "ParseCIDR s =
     (case Cut s CHR ''/'' of
        None \<Rightarrow> None
      | Some (addr, bits) \<Rightarrow>
          (case (ParseIP addr, ParseDigits bits) of
             (Some ip, Some n) \<Rightarrow>
               let v4 = CHR '':'' \<notin> set addr; iplen = (if v4 then 4 else 16)
               in if n > 8 * iplen then None
                  else if v4 then Some (mask_bytes n (drop 12 ip), n)
                  else let m = mask_bytes n ip
                       in (case To4 m of Some m4 \<Rightarrow> Some (m4, n - 96) | None \<Rightarrow> Some (m, n))
           | _ \<Rightarrow> None))"

definition Network_Contains :: "nat list \<times> nat \<Rightarrow> nat list \<Rightarrow> bool" where
  "Network_Contains network ip =
     (let (nn, n) = network; ip = (case To4 ip of Some v4 \<Rightarrow> v4 | None \<Rightarrow> ip)
      in length ip = length nn \<and> mask_bytes n nn = mask_bytes n ip)"

end
