(* ===== verification/Processor.thy ===== *)
theory Processor
  imports Framing Messages Identity Go_Net
begin

text \<open>
  The heart of the gateway: the tunnel (\<open>tunnel.go\<close>), the protocol state machine
  \<open>Processor.Process\<close> (\<open>process.go\<close>), and the two directions of data flow, \<open>receive\<close>
  and \<open>forward\<close> (\<open>common.go\<close>).

  The three policy hooks of the gateway, the network and the clock are parameters. Everything
  the processor does to the outside is recorded in a trace, in order; the answers of the
  network may depend on all that happened before.
\<close>

subsection \<open>The tunnel\<close>

type_synonym i64 = "64 word"

text \<open>
  \<open>rwc\<close> is the connection to the RDP server, \<open>None\<close> while it is nil; connections are
  numbered in the order they were dialled. \<open>tUser\<close> is \<open>None\<close> when the interface is nil.
\<close>

record Tunnel =
  Id :: string
  RDGId :: string
  TargetServer :: string
  RemoteAddr :: string
  tUser :: "User option"
  rwc :: "nat option"
  BytesSent :: i64
  BytesReceived :: i64
  ConnectedOn :: instant
  LastSeen :: instant

datatype event =
    EvCookie string bool          \<comment> \<open>\<open>CheckPAACookie\<close> was asked and answered\<close>
  | EvClientName string bool      \<comment> \<open>\<open>CheckClientName\<close>\<close>
  | EvHost string bool            \<comment> \<open>\<open>CheckHost\<close>\<close>
  | EvDial string bool            \<comment> \<open>\<open>net.DialTimeout\<close> and its success\<close>
  | EvSend "byte list"            \<comment> \<open>a packet given to the outgoing transport\<close>
  | EvStartForward nat            \<comment> \<open>\<open>go forward(conn, tunnel)\<close>\<close>
  | EvToServer nat "byte list"    \<comment> \<open>bytes written to the RDP server\<close>
  | EvCloseServer nat             \<comment> \<open>\<open>forward\<close> closed its connection\<close>

type_synonym trace = "event list"

record env =
  dial :: "trace \<Rightarrow> string \<Rightarrow> bool"
  written :: "trace \<Rightarrow> byte list \<Rightarrow> nat"
  clock :: "trace \<Rightarrow> instant"

text \<open>
  The request context: the identity the web layer put there. The tunnel in the context is
  the processor's own, so a hook takes it and gives it back changed.
\<close>

record Ctx =
  ctxIdentity :: "User option"

type_synonym hook = "Ctx \<Rightarrow> Tunnel \<Rightarrow> string \<Rightarrow> (bool \<times> Tunnel) go"

record Gateway = gateway_settings +
  CheckPAACookie :: "hook option"
  CheckClientName :: "hook option"
  CheckHost :: "hook option"

record Processor =
  gw :: Gateway
  pstate :: int
  tunnel :: Tunnel
  ptrace :: trace

definition NewProcessor :: "Gateway \<Rightarrow> Tunnel \<Rightarrow> Processor" where
  "NewProcessor g t = \<lparr>gw = g, pstate = SERVER_STATE_INITIALIZED, tunnel = t, ptrace = []\<rparr>"

definition emit :: "event \<Rightarrow> Processor \<Rightarrow> Processor" where
  "emit e p = p\<lparr>ptrace := ptrace p @ [e]\<rparr>"

definition tunnel_Write :: "env \<Rightarrow> byte list \<Rightarrow> Processor \<Rightarrow> Processor" where
  "tunnel_Write E pkt p =
     (let n = written E (ptrace p) pkt;
          t = tunnel p
      in emit (EvSend pkt) (p\<lparr>tunnel := t\<lparr>BytesSent := BytesSent t + word_of_nat n\<rparr>\<rparr>))"

text \<open>The statistics part of \<open>Tunnel.Read\<close>, for the messages of one \<open>readMessage\<close>.\<close>

definition tunnel_Read :: "env \<Rightarrow> message list \<Rightarrow> Processor \<Rightarrow> Processor" where
  "tunnel_Read E messages p =
     foldl (\<lambda>p m. let t = tunnel p in
              p\<lparr>tunnel := t\<lparr>BytesReceived := BytesReceived t + word_of_int (mlength m),
                           LastSeen := clock E (ptrace p)\<rparr>\<rparr>) p messages"

subsection \<open>One message\<close>

datatype process_error =
    WrongState u32
  | NoMatchingCaps
  | InvalidCookie
  | InvalidClientName
  | DeniedByPolicy
  | DialFailed
  | WrongStateData
  | ReadFailed

datatype verdict = Continue | Return "process_error option"

text \<open>A hook is asked only when it is configured; its error result is ignored.\<close>

definition run_hook ::
    "hook option \<Rightarrow> (string \<Rightarrow> bool \<Rightarrow> event) \<Rightarrow> Ctx \<Rightarrow> string \<Rightarrow> Processor \<Rightarrow> (bool \<times> Processor) go" where
  "run_hook h ev ctx arg p =
     (case h of
        None \<Rightarrow> Ret (True, p)
      | Some f \<Rightarrow>
          go_bind (f ctx (tunnel p) arg)
            (\<lambda>(ok, t). Ret (ok, emit (ev arg ok) (p\<lparr>tunnel := t\<rparr>))))"

definition handle_handshake :: "env \<Rightarrow> Processor \<Rightarrow> byte list \<Rightarrow> (Processor \<times> verdict) go" where
  "handle_handshake E p m =
     (if tUser (tunnel p) = None then Panic
      else if pstate p \<noteq> SERVER_STATE_INITIALIZED then
        Ret (tunnel_Write E (handshakeResponse 0 0 0 E_PROXY_INTERNALERROR) p,
             Return (Some (WrongState E_PROXY_INTERNALERROR)))
      else let (major, minor, version, reqAuth) = handshakeRequest m in
        (case matchAuth (gw p) reqAuth of
           None \<Rightarrow> Ret (tunnel_Write E (handshakeResponse 0 0 0 E_PROXY_CAPABILITYMISMATCH) p,
                        Return (Some NoMatchingCaps))
         | Some caps \<Rightarrow>
             Ret ((tunnel_Write E (handshakeResponse major minor caps ERROR_SUCCESS) p)
                    \<lparr>pstate := SERVER_STATE_HANDSHAKE\<rparr>, Continue)))"

definition handle_tunnel_create :: "env \<Rightarrow> Ctx \<Rightarrow> Processor \<Rightarrow> byte list \<Rightarrow> (Processor \<times> verdict) go" where
  "handle_tunnel_create E ctx p m =
     (if pstate p \<noteq> SERVER_STATE_HANDSHAKE then
        Ret (tunnel_Write E (tunnelResponse E_PROXY_INTERNALERROR) p,
             Return (Some (WrongState E_PROXY_INTERNALERROR)))
      else let (caps, cookie) = tunnelRequest m in
        go_bind (run_hook (CheckPAACookie (gw p)) EvCookie ctx cookie p)
          (\<lambda>(ok, p).
             if \<not> ok then
               (if tUser (tunnel p) = None then Panic
                else Ret (tunnel_Write E (tunnelResponse E_PROXY_COOKIE_AUTHENTICATION_ACCESS_DENIED) p,
                          Return (Some InvalidCookie)))
             else Ret ((tunnel_Write E (tunnelResponse ERROR_SUCCESS) p)
                         \<lparr>pstate := SERVER_STATE_TUNNEL_CREATE\<rparr>, Continue)))"

definition send_tunnelAuthResponse :: "env \<Rightarrow> u32 \<Rightarrow> Processor \<Rightarrow> Processor" where
  "send_tunnelAuthResponse E code p =
     (let (g, pkt) = tunnelAuthResponse (gw p) code in tunnel_Write E pkt (p\<lparr>gw := g\<rparr>))"

definition handle_tunnel_auth :: "env \<Rightarrow> Ctx \<Rightarrow> Processor \<Rightarrow> byte list \<Rightarrow> (Processor \<times> verdict) go" where
  "handle_tunnel_auth E ctx p m =
     (if pstate p \<noteq> SERVER_STATE_TUNNEL_CREATE then
        Ret (send_tunnelAuthResponse E E_PROXY_INTERNALERROR p,
             Return (Some (WrongState E_PROXY_INTERNALERROR)))
      else let client = tunnelAuthRequest m in
        go_bind (run_hook (CheckClientName (gw p)) EvClientName ctx client p)
          (\<lambda>(ok, p).
             if \<not> ok then Ret (send_tunnelAuthResponse E ERROR_ACCESS_DENIED p, Return (Some InvalidClientName))
             else Ret ((send_tunnelAuthResponse E ERROR_SUCCESS p)
                         \<lparr>pstate := SERVER_STATE_TUNNEL_AUTHORIZE\<rparr>, Continue)))"

text \<open>The number of connections dialled so far names the next one.\<close>

definition dial_count :: "trace \<Rightarrow> nat" where
  "dial_count tr = length (filter (\<lambda>e. case e of EvDial h ok \<Rightarrow> True | _ \<Rightarrow> False) tr)"

text \<open>The branch of CHANNEL_CREATE after the policy check: dial, answer, start forwarding.\<close>

definition connect_server :: "env \<Rightarrow> string \<Rightarrow> Processor \<Rightarrow> Processor \<times> verdict" where
  "connect_server E host p =
     (let conn = dial_count (ptrace p);
          up = dial E (ptrace p) host;
          p = emit (EvDial host up) (p\<lparr>tunnel := (tunnel p)\<lparr>rwc := (if up then Some conn else None)\<rparr>\<rparr>)
      in if \<not> up then (tunnel_Write E (channelResponse E_PROXY_INTERNALERROR) p, Return (Some DialFailed))
         else let p = p\<lparr>tunnel := (tunnel p)\<lparr>TargetServer := host\<rparr>\<rparr>;
                  p = tunnel_Write E (channelResponse ERROR_SUCCESS) p;
                  p = emit (EvStartForward conn) p
              in (p\<lparr>pstate := SERVER_STATE_CHANNEL_CREATE\<rparr>, Continue))"

definition handle_channel_create :: "env \<Rightarrow> Ctx \<Rightarrow> Processor \<Rightarrow> byte list \<Rightarrow> (Processor \<times> verdict) go" where
  "handle_channel_create E ctx p m =
     (if pstate p \<noteq> SERVER_STATE_TUNNEL_AUTHORIZE then
        Ret (tunnel_Write E (channelResponse E_PROXY_INTERNALERROR) p,
             Return (Some (WrongState E_PROXY_INTERNALERROR)))
      else let (server, port) = channelRequest m;
               host = JoinHostPort server (Itoa (unat port)) in
        go_bind (run_hook (CheckHost (gw p)) EvHost ctx host p)
          (\<lambda>(ok, p).
             if \<not> ok then Ret (tunnel_Write E (channelResponse E_PROXY_RAP_ACCESSDENIED) p,
                               Return (Some DeniedByPolicy))
             else Ret (connect_server E host p)))"

definition handle_data :: "Processor \<Rightarrow> byte list \<Rightarrow> (Processor \<times> verdict) go" where
  "handle_data p m =
     (if pstate p < SERVER_STATE_CHANNEL_CREATE then Ret (p, Return (Some WrongStateData))
      else (case rwc (tunnel p) of
              None \<Rightarrow> Panic
            | Some conn \<Rightarrow> Ret (emit (EvToServer conn (receive m)) (p\<lparr>pstate := SERVER_STATE_OPENED\<rparr>), Continue)))"

definition handle_keepalive :: "Processor \<Rightarrow> (Processor \<times> verdict) go" where
  "handle_keepalive p =
     (if pstate p < SERVER_STATE_CHANNEL_CREATE then Ret (p, Return (Some WrongStateData))
      else Ret (p, Continue))"

definition handle_close :: "env \<Rightarrow> Processor \<Rightarrow> (Processor \<times> verdict) go" where
  "handle_close E p =
     (if pstate p \<noteq> SERVER_STATE_OPENED then Ret (p, Return (Some WrongStateData))
      else Ret ((tunnel_Write E (channelCloseResponse ERROR_SUCCESS) p)\<lparr>pstate := SERVER_STATE_CLOSED\<rparr>, Return None))"

definition process_message :: "env \<Rightarrow> Ctx \<Rightarrow> Processor \<Rightarrow> message \<Rightarrow> (Processor \<times> verdict) go" where
  "process_message E ctx p m =
     (if merr m \<noteq> None then Ret (p, Continue)
      else if packetType m = PKT_TYPE_HANDSHAKE_REQUEST then handle_handshake E p (msg m)
      else if packetType m = PKT_TYPE_TUNNEL_CREATE then handle_tunnel_create E ctx p (msg m)
      else if packetType m = PKT_TYPE_TUNNEL_AUTH then handle_tunnel_auth E ctx p (msg m)
      else if packetType m = PKT_TYPE_CHANNEL_CREATE then handle_channel_create E ctx p (msg m)
      else if packetType m = PKT_TYPE_DATA then handle_data p (msg m)
      else if packetType m = PKT_TYPE_KEEPALIVE then handle_keepalive p
      else if packetType m = PKT_TYPE_CLOSE_CHANNEL then handle_close E p
      else Ret (p, Continue))"

subsection \<open>The loop\<close>

fun process_messages :: "env \<Rightarrow> Ctx \<Rightarrow> Processor \<Rightarrow> message list \<Rightarrow> (Processor \<times> verdict) go" where
  "process_messages E ctx p [] = Ret (p, Continue)"
| "process_messages E ctx p (m # ms) =
     go_bind (process_message E ctx p m)
       (\<lambda>(p, v). if v = Continue then process_messages E ctx p ms else Ret (p, v))"

text \<open>
  \<open>Process\<close> on the transport: \<open>None\<close> when some \<open>readMessage\<close> never returns. Each read leaves
  fewer results in the transport or fails, and a transport that is used up reports an error.
\<close>

partial_function (option) Process ::
    "env \<Rightarrow> Ctx \<Rightarrow> Processor \<Rightarrow> read_res list \<Rightarrow> (Processor \<times> process_error option) go option" where
  "Process E ctx p tr =
     (case readMessage tr of
        None \<Rightarrow> None
      | Some Panic \<Rightarrow> Some Panic
      | Some (Ret ((messages, failed), tr')) \<Rightarrow>
          if failed then Some (Ret (p, Some ReadFailed))
          else (case process_messages E ctx (tunnel_Read E messages p) messages of
                  Panic \<Rightarrow> Some Panic
                | Ret (p', Return err) \<Rightarrow> Some (Ret (p', err))
                | Ret (p', Continue) \<Rightarrow> Process E ctx p' tr'))"

subsection \<open>The flow from the RDP server\<close>

text \<open>
  \<open>forward\<close> runs beside \<open>Process\<close>: each read of at most 4086 bytes becomes one DATA packet;
  the first read error closes the connection and ends it (\<open>None\<close>).
\<close>

definition forward_bufsize :: nat where "forward_bufsize = 4086"

definition forward_read :: "env \<Rightarrow> nat \<Rightarrow> byte list option \<Rightarrow> Processor \<Rightarrow> Processor" where
  "forward_read E conn r p =
     (case r of
        None \<Rightarrow> emit (EvCloseServer conn) p
      | Some chunk \<Rightarrow> tunnel_Write E (forward_packet chunk) p)"

end
