(* ===== verification/Session.thy ===== *)
theory Session
  imports Processor
begin

text \<open>
  What the processor guarantees over whole sessions. A session interleaves the messages of
  the client with the reads of the forwarding goroutine in any order; the theorems are
  invariants of every reachable state, and a refinement of \<open>process_message\<close> to the phase
  diagram of the protocol.
\<close>

subsection \<open>Phases\<close>

datatype phase = Initialized | Handshake | TunnelCreate | TunnelAuthorize | ChannelCreate | Opened | Closed

fun phase_num :: "phase \<Rightarrow> nat" where
  "phase_num Initialized = 0"
| "phase_num Handshake = 1"
| "phase_num TunnelCreate = 2"
| "phase_num TunnelAuthorize = 3"
| "phase_num ChannelCreate = 4"
| "phase_num Opened = 5"
| "phase_num Closed = 6"

lemma phase_num_inject: "phase_num a = phase_num b \<longleftrightarrow> a = b"
  by (cases a; cases b) simp_all

instantiation phase :: linorder
begin

definition less_eq_phase :: "phase \<Rightarrow> phase \<Rightarrow> bool" where
  "a \<le> b \<longleftrightarrow> phase_num a \<le> phase_num b"

definition less_phase :: "phase \<Rightarrow> phase \<Rightarrow> bool" where
  "a < b \<longleftrightarrow> phase_num a < phase_num b"

instance
  by intro_classes (auto simp: less_eq_phase_def less_phase_def phase_num_inject)

end

definition state_of :: "phase \<Rightarrow> int" where
  "state_of ph = int (phase_num ph)"

lemma state_of_simps:
  "state_of Initialized = SERVER_STATE_INITIALIZED" "state_of Handshake = SERVER_STATE_HANDSHAKE"
  "state_of TunnelCreate = SERVER_STATE_TUNNEL_CREATE" "state_of TunnelAuthorize = SERVER_STATE_TUNNEL_AUTHORIZE"
  "state_of ChannelCreate = SERVER_STATE_CHANNEL_CREATE" "state_of Opened = SERVER_STATE_OPENED"
  "state_of Closed = SERVER_STATE_CLOSED"
  by (simp_all add: state_of_def server_state_defs)

lemma state_of_eq: "state_of a = state_of b \<longleftrightarrow> a = b"
  by (simp add: state_of_def phase_num_inject)

lemma state_of_less: "state_of a < state_of b \<longleftrightarrow> a < b"
  by (simp add: state_of_def less_phase_def)

text \<open>The phase diagram: where a message of a given type may come, and where it leads.\<close>

definition next_phase :: "phase \<Rightarrow> int \<Rightarrow> phase option" where
  "next_phase ph t =
     (if t = PKT_TYPE_HANDSHAKE_REQUEST then (if ph = Initialized then Some Handshake else None)
      else if t = PKT_TYPE_TUNNEL_CREATE then (if ph = Handshake then Some TunnelCreate else None)
      else if t = PKT_TYPE_TUNNEL_AUTH then (if ph = TunnelCreate then Some TunnelAuthorize else None)
      else if t = PKT_TYPE_CHANNEL_CREATE then (if ph = TunnelAuthorize then Some ChannelCreate else None)
      else if t = PKT_TYPE_DATA then (if ChannelCreate \<le> ph then Some Opened else None)
      else if t = PKT_TYPE_KEEPALIVE then (if ChannelCreate \<le> ph then Some ph else None)
      else if t = PKT_TYPE_CLOSE_CHANNEL then (if ph = Opened then Some Closed else None)
      else Some ph)"

definition out_of_phase :: "process_error \<Rightarrow> bool" where
  "out_of_phase e \<longleftrightarrow> e = WrongStateData \<or> e = WrongState E_PROXY_INTERNALERROR"

subsection \<open>How the handlers change the processor\<close>

named_theorems proc_simps \<open>what the primitive effects leave unchanged\<close>

lemma emit_simps [proc_simps]:
  "ptrace (emit e p) = ptrace p @ [e]" "pstate (emit e p) = pstate p" "gw (emit e p) = gw p"
  "tunnel (emit e p) = tunnel p"
  by (simp_all add: emit_def)

lemma tunnel_Write_simps [proc_simps]:
  "ptrace (tunnel_Write E pkt p) = ptrace p @ [EvSend pkt]" "pstate (tunnel_Write E pkt p) = pstate p"
  "gw (tunnel_Write E pkt p) = gw p" "rwc (tunnel (tunnel_Write E pkt p)) = rwc (tunnel p)"
  "tUser (tunnel (tunnel_Write E pkt p)) = tUser (tunnel p)"
  "TargetServer (tunnel (tunnel_Write E pkt p)) = TargetServer (tunnel p)"
  by (simp_all add: tunnel_Write_def Let_def proc_simps)

text \<open>The hooks a gateway is configured with; nothing the processor does changes them.\<close>

definition hooks :: "Gateway \<Rightarrow> hook option \<times> hook option \<times> hook option" where
  "hooks g = (CheckPAACookie g, CheckClientName g, CheckHost g)"

lemma send_tunnelAuthResponse_simps [proc_simps]:
  "ptrace (send_tunnelAuthResponse E c p) = ptrace p @ [EvSend (snd (tunnelAuthResponse (gw p) c))]"
  "pstate (send_tunnelAuthResponse E c p) = pstate p"
  "hooks (gw (send_tunnelAuthResponse E c p)) = hooks (gw p)"
  "rwc (tunnel (send_tunnelAuthResponse E c p)) = rwc (tunnel p)"
  "tUser (tunnel (send_tunnelAuthResponse E c p)) = tUser (tunnel p)"
  "TargetServer (tunnel (send_tunnelAuthResponse E c p)) = TargetServer (tunnel p)"
  by (simp_all add: send_tunnelAuthResponse_def split_def proc_simps hooks_def tunnelAuthResponse_gateway)

lemma tunnel_Read_simps [proc_simps]:
  "ptrace (tunnel_Read E ms p) = ptrace p" "pstate (tunnel_Read E ms p) = pstate p"
  "gw (tunnel_Read E ms p) = gw p" "rwc (tunnel (tunnel_Read E ms p)) = rwc (tunnel p)"
  "tUser (tunnel (tunnel_Read E ms p)) = tUser (tunnel p)"
  by (induction ms arbitrary: p) (simp_all add: tunnel_Read_def Let_def)

lemmas handler_defs = handle_handshake_def handle_tunnel_create_def handle_tunnel_auth_def
  handle_channel_create_def handle_data_def handle_keepalive_def handle_close_def

text \<open>A hook's run: an unconfigured hook allows and leaves no event.\<close>

lemma run_hook_Ret:
  assumes "run_hook h ev ctx arg p = Ret (ok, p')"
  shows "pstate p' = pstate p" and "gw p' = gw p"
    and "ptrace p' = ptrace p @ (if h = None then [] else [ev arg ok])"
    and "h = None \<longrightarrow> ok \<and> p' = p"
  using assms by (cases h; auto simp: run_hook_def go_bind_eq_Ret proc_simps)+

text \<open>The events that decide a session; packets and data are not among them.\<close>

definition is_control :: "event \<Rightarrow> bool" where
  "is_control e =
     (case e of EvSend b \<Rightarrow> False | EvToServer c b \<Rightarrow> False | EvCloseServer c \<Rightarrow> False | _ \<Rightarrow> True)"

definition control :: "trace \<Rightarrow> event list" where
  "control = filter is_control"

lemma control_simps [simp]:
  "control [] = []" "control (xs @ ys) = control xs @ control ys"
  "control (EvCookie s b # xs) = EvCookie s b # control xs"
  "control (EvClientName s b # xs) = EvClientName s b # control xs"
  "control (EvHost s b # xs) = EvHost s b # control xs" "control (EvDial s b # xs) = EvDial s b # control xs"
  "control (EvStartForward c # xs) = EvStartForward c # control xs" "control (EvSend d # xs) = control xs"
  "control (EvToServer c d # xs) = control xs" "control (EvCloseServer c # xs) = control xs"
  by (simp_all add: control_def is_control_def)

lemma dial_count_control: "dial_count tr = dial_count (control tr)"
  by (induction tr) (auto simp: dial_count_def control_def is_control_def split: event.splits)

lemma dial_count_append [simp]: "dial_count (xs @ ys) = dial_count xs + dial_count ys"
  by (simp add: dial_count_def)

subsection \<open>Refinement to the phase diagram\<close>

text \<open>What a handler may do in a phase whose successor for the message is \<open>nx\<close>.\<close>

definition follows :: "phase option \<Rightarrow> Processor \<Rightarrow> verdict \<Rightarrow> bool" where
  "follows nx p' v \<longleftrightarrow>
     (case nx of
        None \<Rightarrow> (\<exists>e. v = Return (Some e) \<and> out_of_phase e)
      | Some ph \<Rightarrow> (v = Continue \<or> v = Return None) \<and> pstate p' = state_of ph
                 \<or> (\<exists>e. v = Return (Some e) \<and> \<not> out_of_phase e))"

lemma next_phase_simps:
  "next_phase ph PKT_TYPE_HANDSHAKE_REQUEST = (if ph = Initialized then Some Handshake else None)"
  "next_phase ph PKT_TYPE_TUNNEL_CREATE = (if ph = Handshake then Some TunnelCreate else None)"
  "next_phase ph PKT_TYPE_TUNNEL_AUTH = (if ph = TunnelCreate then Some TunnelAuthorize else None)"
  "next_phase ph PKT_TYPE_CHANNEL_CREATE = (if ph = TunnelAuthorize then Some ChannelCreate else None)"
  "next_phase ph PKT_TYPE_DATA = (if ph < ChannelCreate then None else Some Opened)"
  "next_phase ph PKT_TYPE_KEEPALIVE = (if ph < ChannelCreate then None else Some ph)"
  "next_phase ph PKT_TYPE_CLOSE_CHANNEL = (if ph = Opened then Some Closed else None)"
  by (simp_all add: next_phase_def wire_defs flip: not_less)

lemma pstate_eq: "pstate p = state_of ph \<Longrightarrow>
    pstate p = SERVER_STATE_INITIALIZED \<longleftrightarrow> ph = Initialized" "pstate p = state_of ph \<Longrightarrow>
    pstate p = SERVER_STATE_HANDSHAKE \<longleftrightarrow> ph = Handshake" "pstate p = state_of ph \<Longrightarrow>
    pstate p = SERVER_STATE_TUNNEL_CREATE \<longleftrightarrow> ph = TunnelCreate" "pstate p = state_of ph \<Longrightarrow>
    pstate p = SERVER_STATE_TUNNEL_AUTHORIZE \<longleftrightarrow> ph = TunnelAuthorize" "pstate p = state_of ph \<Longrightarrow>
    pstate p = SERVER_STATE_OPENED \<longleftrightarrow> ph = Opened" "pstate p = state_of ph \<Longrightarrow>
    pstate p < SERVER_STATE_CHANNEL_CREATE \<longleftrightarrow> ph < ChannelCreate"
  by (simp_all add: state_of_eq state_of_less flip: state_of_simps)

lemma handle_handshake_follows:
  assumes "pstate p = state_of ph" and "handle_handshake E p d = Ret (p', v)"
  shows "follows (next_phase ph PKT_TYPE_HANDSHAKE_REQUEST) p' v"
  using assms(2)
  by (auto simp: handle_handshake_def pstate_eq [OF assms(1)] follows_def next_phase_simps out_of_phase_def
      state_of_simps split: if_splits option.splits prod.splits)

lemma handle_tunnel_create_follows:
  assumes "pstate p = state_of ph" and "handle_tunnel_create E ctx p d = Ret (p', v)"
  shows "follows (next_phase ph PKT_TYPE_TUNNEL_CREATE) p' v"
  using assms(2)
  by (auto simp: handle_tunnel_create_def pstate_eq [OF assms(1)] follows_def next_phase_simps out_of_phase_def
      state_of_simps go_bind_eq_Ret split: if_splits prod.splits)

lemma handle_tunnel_auth_follows:
  assumes "pstate p = state_of ph" and "handle_tunnel_auth E ctx p d = Ret (p', v)"
  shows "follows (next_phase ph PKT_TYPE_TUNNEL_AUTH) p' v"
  using assms(2)
  by (auto simp: handle_tunnel_auth_def pstate_eq [OF assms(1)] follows_def next_phase_simps out_of_phase_def
      state_of_simps go_bind_eq_Ret Let_def split: if_splits prod.splits)

lemma handle_channel_create_follows:
  assumes "pstate p = state_of ph" and "handle_channel_create E ctx p d = Ret (p', v)"
  shows "follows (next_phase ph PKT_TYPE_CHANNEL_CREATE) p' v"
  using assms(2)
  by (auto simp: handle_channel_create_def connect_server_def pstate_eq [OF assms(1)] follows_def next_phase_simps out_of_phase_def
      state_of_simps go_bind_eq_Ret Let_def split: if_splits prod.splits)

lemma handle_data_follows:
  assumes "pstate p = state_of ph" and "handle_data p d = Ret (p', v)"
  shows "follows (next_phase ph PKT_TYPE_DATA) p' v"
proof (cases "ph < ChannelCreate")
  case True
  then show ?thesis
    using assms(2) by (auto simp: handle_data_def pstate_eq [OF assms(1)] follows_def next_phase_simps out_of_phase_def)
next
  case False
  then show ?thesis
    using assms(2) unfolding handle_data_def pstate_eq [OF assms(1)] follows_def next_phase_simps
    by (simp add: state_of_simps split: option.splits) (auto simp: proc_simps)
qed

lemma handle_keepalive_follows:
  assumes "pstate p = state_of ph" and "handle_keepalive p = Ret (p', v)"
  shows "follows (next_phase ph PKT_TYPE_KEEPALIVE) p' v"
proof (cases "ph < ChannelCreate")
  case True
  then show ?thesis
    using assms(2) by (auto simp: handle_keepalive_def pstate_eq [OF assms(1)] follows_def next_phase_simps out_of_phase_def)
next
  case False
  then show ?thesis
    using assms(2) unfolding handle_keepalive_def pstate_eq [OF assms(1)] follows_def next_phase_simps
    using assms(1) by auto
qed

lemma handle_close_follows:
  assumes "pstate p = state_of ph" and "handle_close E p = Ret (p', v)"
  shows "follows (next_phase ph PKT_TYPE_CLOSE_CHANNEL) p' v"
  using assms(2)
  by (auto simp: handle_close_def pstate_eq [OF assms(1)] follows_def next_phase_simps out_of_phase_def
      state_of_simps split: if_splits)

lemma next_phase_other:
  assumes "t \<noteq> PKT_TYPE_HANDSHAKE_REQUEST" "t \<noteq> PKT_TYPE_TUNNEL_CREATE" "t \<noteq> PKT_TYPE_TUNNEL_AUTH"
    "t \<noteq> PKT_TYPE_CHANNEL_CREATE" "t \<noteq> PKT_TYPE_DATA" "t \<noteq> PKT_TYPE_KEEPALIVE" "t \<noteq> PKT_TYPE_CLOSE_CHANNEL"
  shows "next_phase ph t = Some ph"
  using assms by (simp add: next_phase_def)

text \<open>
  The case distinction of \<open>process_message\<close>: a fact about every handler on its own is a fact
  about the whole switch.
\<close>

lemma process_message_cases [consumes 1, case_names skip handshake create auth channel data keepalive close]:
  assumes "process_message E ctx p m = r"
    and "merr m \<noteq> None \<or> (\<forall>ph. next_phase ph (packetType m) = Some ph) \<Longrightarrow> r = Ret (p, Continue) \<Longrightarrow> P"
    and "merr m = None \<Longrightarrow> packetType m = PKT_TYPE_HANDSHAKE_REQUEST \<Longrightarrow> handle_handshake E p (msg m) = r \<Longrightarrow> P"
    and "merr m = None \<Longrightarrow> packetType m = PKT_TYPE_TUNNEL_CREATE \<Longrightarrow> handle_tunnel_create E ctx p (msg m) = r \<Longrightarrow> P"
    and "merr m = None \<Longrightarrow> packetType m = PKT_TYPE_TUNNEL_AUTH \<Longrightarrow> handle_tunnel_auth E ctx p (msg m) = r \<Longrightarrow> P"
    and "merr m = None \<Longrightarrow> packetType m = PKT_TYPE_CHANNEL_CREATE \<Longrightarrow> handle_channel_create E ctx p (msg m) = r \<Longrightarrow> P"
    and "merr m = None \<Longrightarrow> packetType m = PKT_TYPE_DATA \<Longrightarrow> handle_data p (msg m) = r \<Longrightarrow> P"
    and "merr m = None \<Longrightarrow> packetType m = PKT_TYPE_KEEPALIVE \<Longrightarrow> handle_keepalive p = r \<Longrightarrow> P"
    and "merr m = None \<Longrightarrow> packetType m = PKT_TYPE_CLOSE_CHANNEL \<Longrightarrow> handle_close E p = r \<Longrightarrow> P"
  shows P
proof (cases "merr m = None")
  case False
  then show P using assms(1) by (intro assms(2)) (simp_all add: process_message_def)
next
  case True
  note run = assms(1) [unfolded process_message_def, symmetric]
  consider "packetType m = PKT_TYPE_HANDSHAKE_REQUEST" | "packetType m = PKT_TYPE_TUNNEL_CREATE"
    | "packetType m = PKT_TYPE_TUNNEL_AUTH" | "packetType m = PKT_TYPE_CHANNEL_CREATE"
    | "packetType m = PKT_TYPE_DATA" | "packetType m = PKT_TYPE_KEEPALIVE"
    | "packetType m = PKT_TYPE_CLOSE_CHANNEL"
    | (other) "packetType m \<noteq> PKT_TYPE_HANDSHAKE_REQUEST" "packetType m \<noteq> PKT_TYPE_TUNNEL_CREATE"
      "packetType m \<noteq> PKT_TYPE_TUNNEL_AUTH" "packetType m \<noteq> PKT_TYPE_CHANNEL_CREATE"
      "packetType m \<noteq> PKT_TYPE_DATA" "packetType m \<noteq> PKT_TYPE_KEEPALIVE" "packetType m \<noteq> PKT_TYPE_CLOSE_CHANNEL"
    by blast
  then show P
  proof cases
    case 1 then show P using True run by (intro assms(3)) (simp_all add: wire_defs)
  next
    case 2 then show P using True run by (intro assms(4)) (simp_all add: wire_defs)
  next
    case 3 then show P using True run by (intro assms(5)) (simp_all add: wire_defs)
  next
    case 4 then show P using True run by (intro assms(6)) (simp_all add: wire_defs)
  next
    case 5 then show P using True run by (intro assms(7)) (simp_all add: wire_defs)
  next
    case 6 then show P using True run by (intro assms(8)) (simp_all add: wire_defs)
  next
    case 7 then show P using True run by (intro assms(9)) (simp_all add: wire_defs)
  next
    case other then show P using True run by (intro assms(2)) (simp_all add: next_phase_other)
  qed
qed

lemma message_follows:
  assumes "pstate p = state_of ph" and "process_message E ctx p m = Ret (p', v)" and "merr m = None"
  shows "follows (next_phase ph (packetType m)) p' v"
  using assms(2)
proof (cases rule: process_message_cases)
  case skip
  then have "next_phase ph (packetType m) = Some ph"
    using assms(3) by simp
  then show ?thesis using skip assms(1) by (simp add: follows_def)
next
  case handshake
  then show ?thesis using handle_handshake_follows [OF assms(1)] by metis
next
  case create
  then show ?thesis using handle_tunnel_create_follows [OF assms(1)] by metis
next
  case auth
  then show ?thesis using handle_tunnel_auth_follows [OF assms(1)] by metis
next
  case channel
  then show ?thesis using handle_channel_create_follows [OF assms(1)] by metis
next
  case data
  then show ?thesis using handle_data_follows [OF assms(1)] by metis
next
  case keepalive
  then show ?thesis using handle_keepalive_follows [OF assms(1)] by metis
next
  case close
  then show ?thesis using handle_close_follows [OF assms(1)] by metis
qed

text \<open>
  C7: The state machine refines the phase diagram. A message ends the session as out of
  phase exactly where the diagram has no step for it; if the processor goes on, or ends
  without an error, it is in the phase the diagram leads to. An unreadable message is skipped.
\<close>

theorem process_message_refines:
  assumes "pstate p = state_of ph" and "process_message E ctx p m = Ret (p', v)"
  shows "if merr m \<noteq> None then v = Continue \<and> p' = p
         else (case next_phase ph (packetType m) of
                 None \<Rightarrow> (\<exists>e. v = Return (Some e) \<and> out_of_phase e)
               | Some ph' \<Rightarrow> (v = Continue \<or> v = Return None) \<and> pstate p' = state_of ph'
                           \<or> (\<exists>e. v = Return (Some e) \<and> \<not> out_of_phase e))"
  using message_follows [OF assms] assms(2) by (auto simp: follows_def process_message_def)

subsection \<open>Sessions\<close>

record Session =
  sRunning :: bool
  sProc :: Processor

text \<open>
  A step of a session: the statistics of a read, one message through the switch, a failed
  read, or one read of a forwarding goroutine that was started and has not ended.
\<close>

inductive session_step :: "env \<Rightarrow> Ctx \<Rightarrow> Session \<Rightarrow> Session \<Rightarrow> bool" for E ctx where
  step_read: "sRunning s \<Longrightarrow> session_step E ctx s (s\<lparr>sProc := tunnel_Read E ms (sProc s)\<rparr>)"
| step_message: "sRunning s \<Longrightarrow> process_message E ctx (sProc s) m = Ret (p', v) \<Longrightarrow>
    session_step E ctx s \<lparr>sRunning = (v = Continue), sProc = p'\<rparr>"
| step_failed: "sRunning s \<Longrightarrow> session_step E ctx s (s\<lparr>sRunning := False\<rparr>)"
| step_forward: "EvStartForward conn \<in> set (ptrace (sProc s)) \<Longrightarrow> EvCloseServer conn \<notin> set (ptrace (sProc s)) \<Longrightarrow>
    (\<forall>chunk. r = Some chunk \<longrightarrow> length chunk \<le> forward_bufsize) \<Longrightarrow>
    session_step E ctx s (s\<lparr>sProc := forward_read E conn r (sProc s)\<rparr>)"

inductive reachable :: "env \<Rightarrow> Ctx \<Rightarrow> Gateway \<Rightarrow> Tunnel \<Rightarrow> Session \<Rightarrow> bool" for E ctx g t where
  reach_init: "reachable E ctx g t \<lparr>sRunning = True, sProc = NewProcessor g t\<rparr>"
| reach_step: "reachable E ctx g t s \<Longrightarrow> session_step E ctx s s' \<Longrightarrow> reachable E ctx g t s'"

subsection \<open>What decided the session\<close>

text \<open>The control events that led to a phase, and those of a refusal in that phase.\<close>

definition approvals :: "Gateway \<Rightarrow> phase \<Rightarrow> string \<Rightarrow> string \<Rightarrow> string \<Rightarrow> event list" where
  "approvals g ph ck cn h =
     (if TunnelCreate \<le> ph \<and> CheckPAACookie g \<noteq> None then [EvCookie ck True] else [])
     @ (if TunnelAuthorize \<le> ph \<and> CheckClientName g \<noteq> None then [EvClientName cn True] else [])
     @ (if ChannelCreate \<le> ph
        then (if CheckHost g \<noteq> None then [EvHost h True] else []) @ [EvDial h True, EvStartForward 0] else [])"

definition refusal :: "Gateway \<Rightarrow> phase \<Rightarrow> string \<Rightarrow> string \<Rightarrow> string \<Rightarrow> event list \<Rightarrow> bool" where
  "refusal g ph ck cn h xs \<longleftrightarrow>
     xs = []
     \<or> ph = Handshake \<and> CheckPAACookie g \<noteq> None \<and> xs = [EvCookie ck False]
     \<or> ph = TunnelCreate \<and> CheckClientName g \<noteq> None \<and> xs = [EvClientName cn False]
     \<or> ph = TunnelAuthorize \<and> CheckHost g \<noteq> None \<and> xs = [EvHost h False]
     \<or> ph = TunnelAuthorize \<and> xs = (if CheckHost g \<noteq> None then [EvHost h True] else []) @ [EvDial h False]"

definition session_inv_at :: "Gateway \<Rightarrow> bool \<Rightarrow> Processor \<Rightarrow> phase \<Rightarrow> string \<Rightarrow> string \<Rightarrow> string \<Rightarrow> event list \<Rightarrow> bool" where
  "session_inv_at g run p ph ck cn h xs \<longleftrightarrow>
     hooks (gw p) = hooks g \<and> pstate p = state_of ph \<and> control (ptrace p) = approvals g ph ck cn h @ xs
     \<and> refusal g ph ck cn h xs \<and> (run \<longrightarrow> xs = [])
     \<and> (ChannelCreate \<le> ph \<longrightarrow> rwc (tunnel p) = Some 0)
     \<and> (\<forall>c d. EvToServer c d \<in> set (ptrace p) \<longrightarrow> c = 0 \<and> ChannelCreate \<le> ph)"

definition session_inv :: "Gateway \<Rightarrow> bool \<Rightarrow> Processor \<Rightarrow> bool" where
  "session_inv g run p \<longleftrightarrow> (\<exists>ph ck cn h xs. session_inv_at g run p ph ck cn h xs)"

lemma session_invI: "session_inv_at g run p ph ck cn h xs \<Longrightarrow> session_inv g run p"
  unfolding session_inv_def by blast

lemma hooks_eq: "hooks a = hooks b \<longleftrightarrow>
    CheckPAACookie a = CheckPAACookie b \<and> CheckClientName a = CheckClientName b \<and> CheckHost a = CheckHost b"
  by (simp add: hooks_def)

lemma session_init: "session_inv g True (NewProcessor g t)"
proof -
  have "session_inv_at g True (NewProcessor g t) Initialized [] [] [] []"
    by (simp add: session_inv_at_def NewProcessor_def state_of_simps approvals_def refusal_def less_eq_phase_def)
  then show ?thesis unfolding session_inv_def by blast
qed

text \<open>Steps that touch neither the phase nor the control events keep the invariant.\<close>

lemma session_inv_quiet:
  assumes "session_inv g run p" and "run' \<longrightarrow> run" and "hooks (gw p') = hooks (gw p)"
    and "pstate p' = pstate p" and "rwc (tunnel p') = rwc (tunnel p)"
    and "control (ptrace p') = control (ptrace p)"
    and "\<And>c d. EvToServer c d \<in> set (ptrace p') \<Longrightarrow> EvToServer c d \<in> set (ptrace p)"
  shows "session_inv g run' p'"
  using assms unfolding session_inv_def session_inv_at_def by metis

text \<open>The phase of a running session decides what its control events are.\<close>

lemma session_running:
  assumes "session_inv g True p"
  obtains ph ck cn h where "session_inv_at g True p ph ck cn h []"
  using assms unfolding session_inv_def session_inv_at_def by blast

lemma approvals_simps:
  "approvals g Initialized ck cn h = []" "approvals g Handshake ck cn h = []"
  "approvals g TunnelCreate ck cn h = (if CheckPAACookie g \<noteq> None then [EvCookie ck True] else [])"
  "approvals g TunnelAuthorize ck cn h = approvals g TunnelCreate ck cn h
     @ (if CheckClientName g \<noteq> None then [EvClientName cn True] else [])"
  "approvals g ChannelCreate ck cn h = approvals g TunnelAuthorize ck cn h
     @ (if CheckHost g \<noteq> None then [EvHost h True] else []) @ [EvDial h True, EvStartForward 0]"
  "approvals g Opened ck cn h = approvals g ChannelCreate ck cn h"
  "approvals g Closed ck cn h = approvals g ChannelCreate ck cn h"
  by (simp_all add: approvals_def less_eq_phase_def)

lemma phase_le_simps:
  "\<not> ChannelCreate \<le> Initialized" "\<not> ChannelCreate \<le> Handshake" "\<not> ChannelCreate \<le> TunnelCreate"
  "\<not> ChannelCreate \<le> TunnelAuthorize" "ChannelCreate \<le> Opened" "ChannelCreate \<le> Closed"
  by (simp_all add: less_eq_phase_def)

lemma inv_no_data:
  "session_inv_at g run p ph ck cn h xs \<Longrightarrow> \<not> ChannelCreate \<le> ph \<Longrightarrow> EvToServer c d \<notin> set (ptrace p)"
  unfolding session_inv_at_def by blast

lemma handshake_inv:
  assumes "session_inv g True p" and "handle_handshake E p d = Ret (p', v)"
  shows "session_inv g (v = Continue) p'"
proof (cases "v = Continue")
  case False
  then show ?thesis
    using assms by (auto simp: handle_handshake_def proc_simps split: if_splits prod.splits option.splits
        intro!: session_inv_quiet [OF assms(1)])
next
  case True
  obtain ph ck cn h where inv: "session_inv_at g True p ph ck cn h []"
    using assms(1) by (rule session_running)
  from assms(2) True have "pstate p = SERVER_STATE_INITIALIZED" and p': "pstate p' = SERVER_STATE_HANDSHAKE"
    "gw p' = gw p" "control (ptrace p') = control (ptrace p)"
    "\<And>c d. EvToServer c d \<in> set (ptrace p') \<Longrightarrow> EvToServer c d \<in> set (ptrace p)"
    by (auto simp: handle_handshake_def proc_simps split: if_splits prod.splits option.splits)
  with inv have ph: "ph = Initialized" by (simp add: session_inv_at_def state_of_eq flip: state_of_simps)
  have "session_inv_at g True p' Handshake ck cn h []"
    using inv p' inv_no_data [OF inv] unfolding ph session_inv_at_def
    by (auto simp: state_of_simps approvals_simps refusal_def phase_le_simps)
  then show ?thesis using True by (auto intro: session_invI)
qed

lemma phase_is:
  assumes "session_inv_at g run p ph ck cn h xs"
  shows "pstate p = SERVER_STATE_HANDSHAKE \<Longrightarrow> ph = Handshake"
    and "pstate p = SERVER_STATE_TUNNEL_CREATE \<Longrightarrow> ph = TunnelCreate"
    and "pstate p = SERVER_STATE_TUNNEL_AUTHORIZE \<Longrightarrow> ph = TunnelAuthorize"
    and "pstate p = SERVER_STATE_OPENED \<Longrightarrow> ph = Opened"
    and "\<not> pstate p < SERVER_STATE_CHANNEL_CREATE \<Longrightarrow> ChannelCreate \<le> ph"
  using assms pstate_eq(2-6) [of p ph] by (auto simp: session_inv_at_def)

text \<open>The handlers with a hook, cut at the hook's answer.\<close>

definition after_cookie :: "env \<Rightarrow> bool \<Rightarrow> Processor \<Rightarrow> (Processor \<times> verdict) go" where
  "after_cookie E ok q =
     (if \<not> ok then
        (if tUser (tunnel q) = None then Panic
         else Ret (tunnel_Write E (tunnelResponse E_PROXY_COOKIE_AUTHENTICATION_ACCESS_DENIED) q, Return (Some InvalidCookie)))
      else Ret ((tunnel_Write E (tunnelResponse ERROR_SUCCESS) q)\<lparr>pstate := SERVER_STATE_TUNNEL_CREATE\<rparr>, Continue))"

definition after_host :: "env \<Rightarrow> string \<Rightarrow> bool \<Rightarrow> Processor \<Rightarrow> (Processor \<times> verdict) go" where
  "after_host E host ok q =
     (if \<not> ok then Ret (tunnel_Write E (channelResponse E_PROXY_RAP_ACCESSDENIED) q, Return (Some DeniedByPolicy))
      else Ret (connect_server E host q))"

lemma create_split:
  assumes "pstate p = SERVER_STATE_HANDSHAKE" and "handle_tunnel_create E ctx p d = Ret (p', v)"
  obtains ok q where "run_hook (CheckPAACookie (gw p)) EvCookie ctx (snd (tunnelRequest d)) p = Ret (ok, q)"
    and "after_cookie E ok q = Ret (p', v)"
  using assms by (auto simp: handle_tunnel_create_def after_cookie_def go_bind_eq_Ret split: prod.splits)

lemma channel_split:
  assumes "pstate p = SERVER_STATE_TUNNEL_AUTHORIZE" and "handle_channel_create E ctx p d = Ret (p', v)"
  obtains ok q where "run_hook (CheckHost (gw p)) EvHost ctx
        (JoinHostPort (fst (channelRequest d)) (Itoa (unat (snd (channelRequest d))))) p = Ret (ok, q)"
    and "after_host E (JoinHostPort (fst (channelRequest d)) (Itoa (unat (snd (channelRequest d))))) ok q = Ret (p', v)"
proof -
  let ?h = "JoinHostPort (fst (channelRequest d)) (Itoa (unat (snd (channelRequest d))))"
  have "go_bind (run_hook (CheckHost (gw p)) EvHost ctx ?h p) (\<lambda>(ok, q). after_host E ?h ok q) = Ret (p', v)"
    using assms by (simp add: handle_channel_create_def after_host_def Let_def split_def)
  then show ?thesis using that by (auto simp: go_bind_eq_Ret)
qed

lemma run_hook_Some:
  assumes "run_hook (Some f) ev ctx arg p = Ret (ok, q)"
  obtains t where "f ctx (tunnel p) arg = Ret (ok, t)" and "q = emit (ev arg ok) (p\<lparr>tunnel := t\<rparr>)"
  using assms by (auto simp: run_hook_def go_bind_eq_Ret)

lemma create_inv:
  assumes "session_inv g True p" and run: "handle_tunnel_create E ctx p d = Ret (p', v)"
  shows "session_inv g (v = Continue) p'"
proof (cases "pstate p = SERVER_STATE_HANDSHAKE")
  case False
  then show ?thesis
    using run by (auto simp: handle_tunnel_create_def proc_simps intro!: session_inv_quiet [OF assms(1)])
next
  case True
  obtain ph ck cn h where inv: "session_inv_at g True p ph ck cn h []"
    using assms(1) by (rule session_running)
  note ph = phase_is(1) [OF inv True]
  let ?ck = "snd (tunnelRequest d)"
  obtain ok q where q: "run_hook (CheckPAACookie (gw p)) EvCookie ctx ?ck p = Ret (ok, q)"
    and rest: "after_cookie E ok q = Ret (p', v)"
    using create_split [OF True run] .
  note rest = rest [unfolded after_cookie_def]
  note hook = run_hook_Ret [OF q]
  have g: "CheckPAACookie (gw p) = CheckPAACookie g" using inv by (simp add: session_inv_at_def hooks_eq)
  show ?thesis
  proof (cases ok)
    case True
    then have "session_inv_at g True p' TunnelCreate ?ck cn h []"
      using rest inv hook g inv_no_data [OF inv] unfolding ph session_inv_at_def
      by (auto simp: state_of_simps approvals_simps refusal_def phase_le_simps proc_simps hooks_def)
    then show ?thesis using rest True by (auto intro: session_invI)
  next
    case False
    then have "session_inv_at g False p' Handshake ?ck cn h [EvCookie ?ck False]"
      using rest inv hook g inv_no_data [OF inv] unfolding ph session_inv_at_def
      by (auto simp: state_of_simps approvals_simps refusal_def phase_le_simps proc_simps hooks_def split: if_splits)
    then show ?thesis using rest False by (auto intro: session_invI split: if_splits)
  qed
qed

lemma auth_inv:
  assumes "session_inv g True p" and run: "handle_tunnel_auth E ctx p d = Ret (p', v)"
  shows "session_inv g (v = Continue) p'"
proof (cases "pstate p = SERVER_STATE_TUNNEL_CREATE")
  case False
  then show ?thesis
    using run by (auto simp: handle_tunnel_auth_def proc_simps intro!: session_inv_quiet [OF assms(1)])
next
  case True
  obtain ph ck cn h where inv: "session_inv_at g True p ph ck cn h []"
    using assms(1) by (rule session_running)
  note ph = phase_is(2) [OF inv True]
  let ?cn = "tunnelAuthRequest d"
  obtain ok q where q: "run_hook (CheckClientName (gw p)) EvClientName ctx ?cn p = Ret (ok, q)"
    and rest: "(if \<not> ok then Ret (send_tunnelAuthResponse E ERROR_ACCESS_DENIED q, Return (Some InvalidClientName))
             else Ret ((send_tunnelAuthResponse E ERROR_SUCCESS q)
                         \<lparr>pstate := SERVER_STATE_TUNNEL_AUTHORIZE\<rparr>, Continue)) = Ret (p', v)"
    using run True by (auto simp: handle_tunnel_auth_def go_bind_eq_Ret Let_def split: prod.splits)
  note hook = run_hook_Ret [OF q]
  have g: "CheckClientName (gw p) = CheckClientName g" using inv by (simp add: session_inv_at_def hooks_eq)
  show ?thesis
  proof (cases ok)
    case True
    then have "session_inv_at g True p' TunnelAuthorize ck ?cn h []"
      using rest inv hook g inv_no_data [OF inv] unfolding ph session_inv_at_def
      by (auto simp: state_of_simps approvals_simps refusal_def phase_le_simps proc_simps)
    then show ?thesis using rest True by (auto intro: session_invI)
  next
    case False
    then have "session_inv_at g False p' TunnelCreate ck ?cn h [EvClientName ?cn False]"
      using rest inv hook g inv_no_data [OF inv] unfolding ph session_inv_at_def
      by (auto simp: state_of_simps approvals_simps refusal_def phase_le_simps proc_simps split: if_splits)
    then show ?thesis using rest False by (auto intro: session_invI)
  qed
qed

lemma approvals_dial_count:
  "dial_count (approvals g TunnelAuthorize ck cn h @ (if b then [EvHost h' c] else [])) = 0"
  by (simp add: approvals_simps dial_count_def)

lemma channel_inv:
  assumes "session_inv g True p" and run: "handle_channel_create E ctx p d = Ret (p', v)"
  shows "session_inv g (v = Continue) p'"
proof (cases "pstate p = SERVER_STATE_TUNNEL_AUTHORIZE")
  case False
  then show ?thesis
    using run by (auto simp: handle_channel_create_def proc_simps intro!: session_inv_quiet [OF assms(1)])
next
  case True
  obtain ph ck cn h where inv: "session_inv_at g True p ph ck cn h []"
    using assms(1) by (rule session_running)
  note ph = phase_is(3) [OF inv True]
  let ?h = "JoinHostPort (fst (channelRequest d)) (Itoa (unat (snd (channelRequest d))))"
  obtain ok q where q: "run_hook (CheckHost (gw p)) EvHost ctx ?h p = Ret (ok, q)"
    and rest: "after_host E ?h ok q = Ret (p', v)"
    using channel_split [OF True run] .
  note rest = rest [unfolded after_host_def]
  note hook = run_hook_Ret [OF q]
  have g: "CheckHost (gw p) = CheckHost g" using inv by (simp add: session_inv_at_def hooks_eq)
  have ctl: "control (ptrace q) = approvals g TunnelAuthorize ck cn h
      @ (if CheckHost g \<noteq> None then [EvHost ?h ok] else [])"
    using inv hook g ph by (simp add: session_inv_at_def)
  have dials: "dial_count (ptrace q) = 0"
    using approvals_dial_count [of g ck cn h "CheckHost g \<noteq> None"] ctl by (simp add: dial_count_control [of "ptrace q"])
  have auth: "approvals g TunnelAuthorize ck cn h = approvals g TunnelAuthorize ck cn ?h"
    by (simp add: approvals_simps)
  have quiet: "EvToServer c e \<notin> set (ptrace q)" for c e
    using inv_no_data [OF inv] hook(3) by (auto simp: ph phase_le_simps)
  consider (denied) "\<not> ok" | (down) "ok" "\<not> dial E (ptrace q) ?h" | (up) "ok" "dial E (ptrace q) ?h" by blast
  then show ?thesis
  proof cases
    case denied
    then have "session_inv_at g False p' TunnelAuthorize ck cn ?h [EvHost ?h False]"
      using rest inv hook g quiet ctl unfolding ph session_inv_at_def auth
      by (auto simp: state_of_simps refusal_def phase_le_simps proc_simps split: if_splits)
    then show ?thesis using rest denied by (auto intro: session_invI)
  next
    case down
    then have "session_inv_at g False p' TunnelAuthorize ck cn ?h
        ((if CheckHost g \<noteq> None then [EvHost ?h True] else []) @ [EvDial ?h False])"
      using rest inv hook g quiet ctl unfolding ph session_inv_at_def auth
      by (auto simp: state_of_simps refusal_def phase_le_simps proc_simps connect_server_def)
    then show ?thesis using rest down by (auto simp: Let_def connect_server_def intro: session_invI)
  next
    case up
    then have "session_inv_at g True p' ChannelCreate ck cn ?h []"
      using rest inv hook g quiet ctl dials unfolding ph session_inv_at_def auth
      by (auto simp: state_of_simps refusal_def phase_le_simps proc_simps approvals_simps(5) Let_def connect_server_def)
    then show ?thesis using rest up by (auto simp: Let_def connect_server_def intro: session_invI)
  qed
qed

lemma data_inv:
  assumes "session_inv g True p" and run: "handle_data p d = Ret (p', v)"
  shows "session_inv g (v = Continue) p'"
proof (cases "pstate p < SERVER_STATE_CHANNEL_CREATE")
  case True
  then show ?thesis using run by (auto simp: handle_data_def intro: session_inv_quiet [OF assms(1)])
next
  case False
  obtain ph ck cn h where inv: "session_inv_at g True p ph ck cn h []"
    using assms(1) by (rule session_running)
  have le: "ChannelCreate \<le> ph" using phase_is(5) [OF inv False] .
  then have p': "p' = emit (EvToServer 0 (receive d)) (p\<lparr>pstate := SERVER_STATE_OPENED\<rparr>)" and "v = Continue"
    using run inv False by (auto simp: handle_data_def session_inv_at_def)
  have "approvals g Opened ck cn h = approvals g ph ck cn h"
    using le by (cases ph) (simp_all add: approvals_simps phase_le_simps)
  then have "session_inv_at g True p' Opened ck cn h []"
    using inv le unfolding session_inv_at_def p'
    by (simp add: proc_simps state_of_simps refusal_def phase_le_simps)
  then show ?thesis using \<open>v = Continue\<close> by (auto intro: session_invI)
qed

lemma keepalive_inv:
  assumes "session_inv g True p" and "handle_keepalive p = Ret (p', v)"
  shows "session_inv g (v = Continue) p'"
  using assms(2) by (auto simp: handle_keepalive_def intro: session_inv_quiet [OF assms(1)] split: if_splits)

lemma close_inv:
  assumes "session_inv g True p" and run: "handle_close E p = Ret (p', v)"
  shows "session_inv g (v = Continue) p'"
proof (cases "pstate p = SERVER_STATE_OPENED")
  case False
  then show ?thesis using run by (auto simp: handle_close_def intro: session_inv_quiet [OF assms(1)])
next
  case True
  obtain ph ck cn h where inv: "session_inv_at g True p ph ck cn h []"
    using assms(1) by (rule session_running)
  have p': "p' = (tunnel_Write E (channelCloseResponse ERROR_SUCCESS) p)\<lparr>pstate := SERVER_STATE_CLOSED\<rparr>"
    and "v = Return None"
    using run True by (simp_all add: handle_close_def)
  have "session_inv_at g False p' Closed ck cn h []"
    using inv unfolding phase_is(4) [OF inv True] session_inv_at_def p'
    by (simp add: proc_simps state_of_simps approvals_simps(6,7) refusal_def phase_le_simps)
  then show ?thesis using \<open>v = Return None\<close> by (auto intro: session_invI)
qed

lemma message_inv:
  assumes inv: "session_inv g True p" and "process_message E ctx p m = Ret (p', v)"
  shows "session_inv g (v = Continue) p'"
  using assms(2)
proof (cases rule: process_message_cases)
  case skip
  then show ?thesis using inv by simp
qed (auto intro: handshake_inv [OF inv] create_inv [OF inv] auth_inv [OF inv] channel_inv [OF inv]
      data_inv [OF inv] keepalive_inv [OF inv] close_inv [OF inv])

lemma session_inv_reachable: "reachable E ctx g t s \<Longrightarrow> session_inv g (sRunning s) (sProc s)"
proof (induction rule: reachable.induct)
  case reach_init
  show ?case using session_init by simp
next
  case (reach_step s s')
  note inv = reach_step.IH
  from reach_step.hyps(2) show ?case
  proof (cases rule: session_step.cases)
    case (step_read ms)
    then show ?thesis by (auto simp: proc_simps intro: session_inv_quiet [OF inv])
  next
    case (step_message m p' v)
    then show ?thesis using inv message_inv [of g "sProc s" E ctx m p' v] by simp
  next
    case step_failed
    then show ?thesis by (auto intro: session_inv_quiet [OF inv])
  next
    case (step_forward conn r)
    then show ?thesis
      by (auto simp: forward_read_def proc_simps intro!: session_inv_quiet [OF inv] split: option.splits)
  qed
qed

text \<open>
  C6: What a session may do. In every reachable state, under every interleaving, the policy
  answers and dials on record are exactly those of the phase reached: the cookie, the client
  name and the host were each asked once, in this order, and approved, before the single dial
  of that same host; a refusal ends the record and the session. A hook that is not configured
  leaves no entry.
\<close>

theorem session_policy:
  assumes "reachable E ctx g t s"
  shows "\<exists>ph ck cn h xs. pstate (sProc s) = state_of ph
           \<and> control (ptrace (sProc s)) = approvals g ph ck cn h @ xs \<and> refusal g ph ck cn h xs
           \<and> (sRunning s \<longrightarrow> xs = [])"
  using session_inv_reachable [OF assms] unfolding session_inv_def session_inv_at_def by blast

lemma dial_in_approvals:
  assumes "EvDial h ok \<in> set (approvals g ph ck cn h' @ xs)" and "refusal g ph ck cn h' xs"
    and "CheckHost g \<noteq> None"
  shows "EvHost h True \<in> set (approvals g ph ck cn h' @ xs)"
  using assms by (auto simp: approvals_def refusal_def split: if_splits)

lemma control_member: "is_control e \<Longrightarrow> e \<in> set (control tr) \<longleftrightarrow> e \<in> set tr"
  by (simp add: control_def)

text \<open>
  With a host policy configured, the gateway never opens a connection to a host the
  policy did not approve in this session, and with a cookie policy configured never before a
  cookie was accepted.
\<close>

theorem dial_only_approved:
  assumes "reachable E ctx g t s" and "EvDial h ok \<in> set (ptrace (sProc s))"
  shows "(CheckHost g \<noteq> None \<longrightarrow> EvHost h True \<in> set (ptrace (sProc s)))
       \<and> (CheckPAACookie g \<noteq> None \<longrightarrow> (\<exists>ck. EvCookie ck True \<in> set (ptrace (sProc s))))"
proof -
  let ?tr = "ptrace (sProc s)"
  obtain ph ck cn h' xs where inv: "session_inv_at g (sRunning s) (sProc s) ph ck cn h' xs"
    using session_inv_reachable [OF assms(1)] unfolding session_inv_def by blast
  then have ctl: "control ?tr = approvals g ph ck cn h' @ xs" and ref: "refusal g ph ck cn h' xs"
    by (simp_all add: session_inv_at_def)
  have dial: "EvDial h ok \<in> set (approvals g ph ck cn h' @ xs)"
    using assms(2) control_member [of "EvDial h ok" ?tr] by (simp add: ctl is_control_def)
  have host: "CheckHost g \<noteq> None \<longrightarrow> EvHost h True \<in> set (control ?tr)"
    using dial_in_approvals [OF dial ref] by (simp add: ctl)
  have "TunnelCreate \<le> ph"
    using dial ref by (auto simp: approvals_def refusal_def less_eq_phase_def split: if_splits)
  then have "CheckPAACookie g \<noteq> None \<longrightarrow> EvCookie ck True \<in> set (control ?tr)"
    by (simp add: ctl approvals_def)
  with host show ?thesis by (auto simp: control_member is_control_def)
qed

text \<open>
  C8: Client data reaches an RDP server only over the connection that was dialled
  successfully in this session: there is exactly one, and it is the one data is written to.
\<close>

theorem data_only_to_dialled:
  assumes "reachable E ctx g t s" and "EvToServer c d \<in> set (ptrace (sProc s))"
  shows "c = 0 \<and> dial_count (ptrace (sProc s)) = 1 \<and> (\<exists>h. EvDial h True \<in> set (ptrace (sProc s)))"
proof -
  obtain ph ck cn h' xs where inv: "session_inv_at g (sRunning s) (sProc s) ph ck cn h' xs"
    using session_inv_reachable [OF assms(1)] unfolding session_inv_def by blast
  then have le: "ChannelCreate \<le> ph" and "c = 0" and ctl: "control (ptrace (sProc s)) = approvals g ph ck cn h' @ xs"
    and "refusal g ph ck cn h' xs"
    using assms(2) unfolding session_inv_at_def by blast+
  then have "xs = []" by (auto simp: refusal_def phase_le_simps)
  then have "dial_count (ptrace (sProc s)) = 1" and "EvDial h' True \<in> set (control (ptrace (sProc s)))"
    using le by (simp_all add: dial_count_control [of "ptrace (sProc s)"] ctl, simp_all add: approvals_def dial_count_def)
  then show ?thesis using \<open>c = 0\<close> by (auto simp: control_member is_control_def)
qed

subsection \<open>Panics\<close>

text \<open>A hook that never panics and never takes the user away from the tunnel.\<close>

definition tame_hook :: "hook option \<Rightarrow> bool" where
  "tame_hook h \<longleftrightarrow> (\<forall>f ctx t arg. h = Some f \<longrightarrow> tUser t \<noteq> None \<longrightarrow>
     (\<exists>ok t'. f ctx t arg = Ret (ok, t') \<and> tUser t' \<noteq> None))"

lemma run_hook_tame:
  assumes "tame_hook h" and "tUser (tunnel p) \<noteq> None"
  obtains ok p' where "run_hook h ev ctx arg p = Ret (ok, p')" and "tUser (tunnel p') \<noteq> None"
proof (cases h)
  case None
  then show ?thesis using that assms(2) by (simp add: run_hook_def)
next
  case (Some f)
  then obtain ok t' where "f ctx (tunnel p) arg = Ret (ok, t')" "tUser t' \<noteq> None"
    using assms unfolding tame_hook_def by blast
  then show ?thesis using that Some by (simp add: run_hook_def proc_simps)
qed

definition tame :: "Gateway \<Rightarrow> bool" where
  "tame g \<longleftrightarrow> tame_hook (CheckPAACookie g) \<and> tame_hook (CheckClientName g) \<and> tame_hook (CheckHost g)"

lemma tame_hooks: "hooks g = hooks g' \<Longrightarrow> tame g = tame g'"
  by (simp add: tame_def hooks_eq)

lemma connect_server_user: "tUser (tunnel (fst (connect_server E h q))) = tUser (tunnel q)"
  by (simp add: connect_server_def Let_def proc_simps)

lemma message_no_panic:
  assumes "session_inv g True p" and "tame g" and user: "tUser (tunnel p) \<noteq> None"
  shows "\<exists>p' v. process_message E ctx p m = Ret (p', v) \<and> tUser (tunnel p') \<noteq> None"
proof -
  obtain ph ck cn h where inv: "session_inv_at g True p ph ck cn h []"
    using assms(1) by (rule session_running)
  have hooks: "tame_hook (CheckPAACookie (gw p))" "tame_hook (CheckClientName (gw p))" "tame_hook (CheckHost (gw p))"
    using inv assms(2) by (simp_all add: session_inv_at_def hooks_eq tame_def)
  have "\<exists>p' v. r = Ret (p', v) \<and> tUser (tunnel p') \<noteq> None" if "process_message E ctx p m = r" for r
    using that
  proof (cases rule: process_message_cases)
    case skip
    then show ?thesis using user by simp
  next
    case handshake
    then show ?thesis using user by (auto simp: handle_handshake_def proc_simps split: option.splits prod.splits)
  next
    case create
    obtain ok q where "run_hook (CheckPAACookie (gw p)) EvCookie ctx (snd (tunnelRequest (msg m))) p = Ret (ok, q)"
      "tUser (tunnel q) \<noteq> None" using run_hook_tame [OF hooks(1) user] .
    then show ?thesis using create user by (auto simp: handle_tunnel_create_def proc_simps split_def)
  next
    case auth
    obtain ok q where "run_hook (CheckClientName (gw p)) EvClientName ctx (tunnelAuthRequest (msg m)) p = Ret (ok, q)"
      "tUser (tunnel q) \<noteq> None" using run_hook_tame [OF hooks(2) user] .
    then show ?thesis using auth user by (auto simp: handle_tunnel_auth_def proc_simps)
  next
    case channel
    obtain ok q where "run_hook (CheckHost (gw p)) EvHost ctx
        (JoinHostPort (fst (channelRequest (msg m))) (Itoa (unat (snd (channelRequest (msg m)))))) p = Ret (ok, q)"
      "tUser (tunnel q) \<noteq> None" using run_hook_tame [OF hooks(3) user] .
    then show ?thesis
      using channel user connect_server_user [of E "JoinHostPort (fst (channelRequest (msg m))) (Itoa (unat (snd (channelRequest (msg m)))))" q]
      by (cases "connect_server E (JoinHostPort (fst (channelRequest (msg m))) (Itoa (unat (snd (channelRequest (msg m)))))) q")
         (auto simp: handle_channel_create_def Let_def proc_simps split_def)
  next
    case data
    have "\<not> pstate p < SERVER_STATE_CHANNEL_CREATE \<Longrightarrow> rwc (tunnel p) = Some 0"
      using phase_is(5) [OF inv] inv by (simp add: session_inv_at_def)
    then show ?thesis using data user by (auto simp: handle_data_def proc_simps)
  next
    case keepalive
    then show ?thesis using user by (auto simp: handle_keepalive_def)
  next
    case close
    then show ?thesis using user by (auto simp: handle_close_def proc_simps)
  qed
  then show ?thesis by blast
qed

lemma reachable_user:
  assumes "reachable E ctx g t s" and "tame g" and "tUser t \<noteq> None"
  shows "tUser (tunnel (sProc s)) \<noteq> None"
  using assms
proof (induction rule: reachable.induct)
  case reach_init
  then show ?case by (simp add: NewProcessor_def)
next
  case (reach_step s s')
  note user = reach_step.IH [OF reach_step.prems]
  from reach_step.hyps(2) show ?case
  proof (cases rule: session_step.cases)
    case (step_message m p' v)
    then have "session_inv g True (sProc s)" using session_inv_reachable [OF reach_step.hyps(1)] by simp
    then show ?thesis using message_no_panic [OF _ reach_step.prems(1) user, of E ctx m] step_message by auto
  qed (use user in \<open>auto simp: proc_simps forward_read_def split: option.splits\<close>)
qed


subsection \<open>The loop and the step relation\<close>

lemma messages_reachable:
  assumes "reachable E ctx g t \<lparr>sRunning = True, sProc = p\<rparr>" and "process_messages E ctx p ms = Ret (p', v)"
  shows "reachable E ctx g t \<lparr>sRunning = (v = Continue), sProc = p'\<rparr>"
  using assms
proof (induction ms arbitrary: p)
  case (Cons m ms)
  obtain q w where q: "process_message E ctx p m = Ret (q, w)"
    and rest: "(if w = Continue then process_messages E ctx q ms else Ret (q, w)) = Ret (p', v)"
    using Cons.prems(2) by (auto simp: go_bind_eq_Ret)
  have "session_step E ctx \<lparr>sRunning = True, sProc = p\<rparr> \<lparr>sRunning = (w = Continue), sProc = q\<rparr>"
    using step_message [of "\<lparr>sRunning = True, sProc = p\<rparr>" E ctx m q w] q by simp
  from reach_step [OF Cons.prems(1) this] show ?case
    using Cons.IH [of q] rest by (cases "w = Continue") auto
qed simp

text \<open>One turn of \<open>Process\<close>.\<close>

lemma Process_turn:
  "Process E ctx p tr = Some (Ret (p', err)) \<longleftrightarrow>
     (\<exists>ms tr'. readMessage tr = Some (Ret ((ms, True), tr')) \<and> p' = p \<and> err = Some ReadFailed)
     \<or> (\<exists>ms tr' q v. readMessage tr = Some (Ret ((ms, False), tr'))
          \<and> process_messages E ctx (tunnel_Read E ms p) ms = Ret (q, v)
          \<and> (case v of Return e \<Rightarrow> p' = q \<and> err = e | Continue \<Rightarrow> Process E ctx q tr' = Some (Ret (p', err))))"
  by (subst Process.simps) (auto split: option.splits go.splits verdict.splits if_splits)

text \<open>
  The loop does nothing else: whatever \<open>Process\<close> returns on a transport is a reachable
  final state of the step relation, so every theorem about sessions holds of it.
\<close>

theorem Process_reachable:
  assumes "Process E ctx (NewProcessor g t) tr = Some (Ret (p', err))"
  shows "reachable E ctx g t \<lparr>sRunning = False, sProc = p'\<rparr>"
proof -
  let ?P = "\<lambda>E' ctx' p tr r. E' = E \<longrightarrow> ctx' = ctx \<longrightarrow> reachable E ctx g t \<lparr>sRunning = True, sProc = p\<rparr> \<longrightarrow>
       (\<forall>p' err. r = Ret (p', err) \<longrightarrow> reachable E ctx g t \<lparr>sRunning = False, sProc = p'\<rparr>)"
  have "?P E ctx (NewProcessor g t) tr (Ret (p', err))"
  proof (rule Process.raw_induct [OF _ assms, where P = ?P], intro impI allI)
    fix loop :: "env \<Rightarrow> Ctx \<Rightarrow> Processor \<Rightarrow> read_res list \<Rightarrow> (Processor \<times> process_error option) go option"
      and E' ctx' p tr r p' err
    assume IH: "\<And>E' ctx' p tr r. loop E' ctx' p tr = Some r \<Longrightarrow> ?P E' ctx' p tr r"
      and run: "(case readMessage tr of None \<Rightarrow> None | Some Panic \<Rightarrow> Some Panic
        | Some (Ret ((messages, failed), tr')) \<Rightarrow>
          if failed then Some (Ret (p, Some ReadFailed))
          else (case process_messages E' ctx' (tunnel_Read E' messages p) messages of
                  Panic \<Rightarrow> Some Panic
                | Ret (p', Continue) \<Rightarrow> loop E' ctx' p' tr'
                | Ret (p', Return err) \<Rightarrow> Some (Ret (p', err)))) = Some r"
      and E': "E' = E" "ctx' = ctx" and reach: "reachable E ctx g t \<lparr>sRunning = True, sProc = p\<rparr>"
      and r: "r = Ret (p', err)"
    obtain ms failed tr' where rd: "readMessage tr = Some (Ret ((ms, failed), tr'))"
      using run r by (auto split: option.splits go.splits)
    show "reachable E ctx g t \<lparr>sRunning = False, sProc = p'\<rparr>"
    proof (cases failed)
      case True
      then have "p' = p" using run rd r by auto
      then show ?thesis
        using reach_step [OF reach step_failed] by simp
    next
      case False
      then obtain q v where q: "process_messages E ctx (tunnel_Read E ms p) ms = Ret (q, v)"
        and rest: "(case v of Continue \<Rightarrow> loop E ctx q tr' | Return err \<Rightarrow> Some (Ret (q, err))) = Some r"
        using run rd r E' by (auto split: go.splits)
      have "reachable E ctx g t \<lparr>sRunning = True, sProc = tunnel_Read E ms p\<rparr>"
        using reach_step [OF reach step_read [of _ E ctx ms]] by simp
      note reached = messages_reachable [OF this q]
      show ?thesis
      proof (cases v)
        case Continue
        then show ?thesis using IH [of E ctx q tr' r] rest reached r by simp
      next
        case (Return e)
        then show ?thesis using rest reached r by simp
      qed
    qed
  qed
  then show ?thesis using reach_init by auto
qed

lemma Process_small_reads:
  assumes "list_all sound_read tr" and "list_all (\<lambda>r. length (rd_p r) \<le> maxFragmentSize) tr"
  shows "\<exists>res. Process E ctx p tr = Some res"
  using assms
proof (induction "length tr" arbitrary: p tr rule: less_induct)
  case less
  obtain res where rd: "readMessage tr = Some res" using small_reads_return [OF less.prems] by blast
  show ?case
  proof (cases "\<exists>ms tr'. res = Ret ((ms, False), tr')")
    case False
    then show ?thesis using rd by (subst Process.simps) (auto split: go.splits)
  next
    case True
    then obtain ms tr' where res: "res = Ret ((ms, False), tr')" by blast
    note rest = readMessage_rest [OF less.prems rd [unfolded res]]
    have "\<exists>r. Process E ctx q tr' = Some r" for q
      using less.hyps [of tr' q] rest by blast
    then show ?thesis using rd res by (subst Process.simps) (auto split: go.splits verdict.splits)
  qed
qed

text \<open>
  C10: The processor never hangs on a websocket: for every finite sequence of frames, none
  larger than the reassembly buffer, \<open>Process\<close> comes to an end.
\<close>

theorem Process_websocket_ends:
  assumes "\<forall>b m. WSMessage b m \<in> set es \<longrightarrow> length m \<le> 65536"
  shows "\<exists>res. Process E ctx p (map ws_ReadPacket es) = Some res"
  by (rule Process_small_reads [OF ws_reads [OF assms]])

subsection \<open>A concrete session\<close>

text \<open>A network that always answers, a gateway whose host policy allows one host, and a tunnel with a user.\<close>

definition all_up :: env where
  "all_up = \<lparr>dial = (\<lambda>tr h. True), written = (\<lambda>tr b. length b), clock = (\<lambda>tr. 1)\<rparr>"

definition small_gateway :: Gateway where
  "small_gateway =
     \<lparr>gwRedirectFlags = \<lparr>Clipboard = True, Port = True, Drive = True, Printer = True, Pnp = True,
        DisableAll = False, EnableAll = False\<rparr>, IdleTimeout = 0, SmartCardAuth = False, TokenAuth = False,
      ReceiveBuf = 0, SendBuf = 0, 
      CheckPAACookie = Some (\<lambda>ctx t c. Ret (True, t)), CheckClientName = None,
      CheckHost = Some (\<lambda>ctx t h. Ret (h = ''h:1'', t))\<rparr>"

definition bob_tunnel :: Tunnel where
  "bob_tunnel =
     \<lparr>Id = ''t1'', RDGId = [], TargetServer = [], RemoteAddr = [], tUser = Some (NewUser ''s1''), rwc = None,
      BytesSent = 0, BytesReceived = 0, ConnectedOn = 0, LastSeen = 0\<rparr>"

definition no_identity :: Ctx where "no_identity = \<lparr>ctxIdentity = None\<rparr>"

definition msg_of :: "int \<Rightarrow> byte list \<Rightarrow> message" where
  "msg_of t d = \<lparr>packetType = t, mlength = int (length d) + 8, msg = d, merr = None\<rparr>"

text \<open>The messages of a client that connects to \<open>h:1\<close> and sends one byte.\<close>

definition hello :: "message list" where
  "hello = [msg_of PKT_TYPE_HANDSHAKE_REQUEST [], msg_of PKT_TYPE_TUNNEL_CREATE [], msg_of PKT_TYPE_TUNNEL_AUTH [],
            msg_of PKT_TYPE_CHANNEL_CREATE (put_u8 1 @ put_u8 0 @ put_u16 1 @ put_u16 3 @ put_u16 2 @ [104, 0]),
            msg_of PKT_TYPE_DATA (put_u16 1 @ [7])]"

lemma decoded_h: "decoded [104, 0] = ''h''"
  by (simp add: decoded_def DecodeUTF16_def utf16_Decode1_def utf8_EncodeRune_def string_of_bytes_def Let_def
      unsigned_ucast_eq take_bit_eq_mod char_of_def bit_0)

lemma hello_requests:
  "handshakeRequest [] = (0, 0, 0, 0)" "tunnelRequest [] = (0, [])"
  "channelRequest (put_u8 1 @ put_u8 0 @ put_u16 1 @ put_u16 3 @ put_u16 2 @ [104, 0]) = (''h'', 1)"
  "receive (put_u16 1 @ [7]) = [7]"
  by (simp_all add: read_slice_def handshakeRequest_def tunnelRequest_def channelRequest_def receive_def wire_simps
      u8.dec_short u16.dec_short u32.dec_short decoded_h wire_defs)

lemma hello_run:
  "\<exists>p. process_messages all_up no_identity (NewProcessor small_gateway bob_tunnel) hello = Ret (p, Continue)
       \<and> EvDial ''h:1'' True \<in> set (ptrace p) \<and> EvToServer 0 [7] \<in> set (ptrace p)"
proof -
  have host: "JoinHostPort ''h'' (Itoa (Suc 0)) = ''h:1''"
    by (simp add: JoinHostPort_def Itoa.simps digit_def char_of_def bit_0)
  show ?thesis
    by (simp add: hello_def msg_of_def process_message_def wire_defs handler_defs hello_requests
        NewProcessor_def bob_tunnel_def NewUser_def small_gateway_def matchAuth_def Let_def server_state_defs
        run_hook_def connect_server_def dial_count_def emit_def tunnel_Write_def all_up_def
        send_tunnelAuthResponse_def tunnelAuthResponse_def host)
qed

lemma hello_reachable:
  obtains p where "reachable all_up no_identity small_gateway bob_tunnel \<lparr>sRunning = True, sProc = p\<rparr>"
    and "EvDial ''h:1'' True \<in> set (ptrace p)" and "EvToServer 0 [7] \<in> set (ptrace p)"
  using hello_run messages_reachable [OF reach_init, of all_up no_identity small_gateway bob_tunnel hello] by fastforce

lemma small_hooks: "CheckHost small_gateway \<noteq> None" "CheckPAACookie small_gateway \<noteq> None"
  by (simp_all add: small_gateway_def)

lemma tame_small: "tame small_gateway"
  by (auto simp: tame_def tame_hook_def small_gateway_def)

theorem process_message_refines_witness:
  "\<exists>p' v. process_message all_up no_identity (NewProcessor small_gateway bob_tunnel) (msg_of PKT_TYPE_DATA []) = Ret (p', v)
     \<and> (\<exists>e. v = Return (Some e) \<and> out_of_phase e)"
proof -
  let ?p = "NewProcessor small_gateway bob_tunnel"
  have st: "pstate ?p = state_of Initialized" by (simp add: NewProcessor_def state_of_simps)
  have run: "process_message all_up no_identity ?p (msg_of PKT_TYPE_DATA []) = Ret (?p, Return (Some WrongStateData))"
    by (simp add: process_message_def msg_of_def wire_defs handle_data_def NewProcessor_def server_state_defs)
  have "next_phase Initialized PKT_TYPE_DATA = None" by (simp add: next_phase_simps less_phase_def)
  then show ?thesis
    using process_message_refines [OF st run] run by (simp add: msg_of_def)
qed

theorem session_policy_witness:
  "\<exists>(p :: Processor) ph ck cn h. EvToServer 0 [7] \<in> set (ptrace p) \<and> pstate p = state_of ph
     \<and> control (ptrace p) = approvals small_gateway ph ck cn h"
proof -
  obtain p where "reachable all_up no_identity small_gateway bob_tunnel \<lparr>sRunning = True, sProc = p\<rparr>"
    and "EvToServer 0 [7] \<in> set (ptrace p)" by (rule hello_reachable)
  then show ?thesis using session_policy [of all_up no_identity small_gateway bob_tunnel "\<lparr>sRunning = True, sProc = p\<rparr>"]
    by - (rule exI [of _ p], auto)
qed

theorem dial_only_approved_witness:
  "\<exists>p :: Processor. EvDial ''h:1'' True \<in> set (ptrace p) \<and> EvHost ''h:1'' True \<in> set (ptrace p)
       \<and> (\<exists>ck. EvCookie ck True \<in> set (ptrace p))"
proof -
  obtain p where "reachable all_up no_identity small_gateway bob_tunnel \<lparr>sRunning = True, sProc = p\<rparr>"
    and "EvDial ''h:1'' True \<in> set (ptrace p)" by (rule hello_reachable)
  then show ?thesis
    using dial_only_approved [of all_up no_identity small_gateway bob_tunnel "\<lparr>sRunning = True, sProc = p\<rparr>" "''h:1''" True]
    by - (rule exI [of _ p], simp add: small_hooks del: not_None_eq)
qed

theorem data_only_to_dialled_witness:
  "\<exists>(p :: Processor) h. EvToServer 0 [7] \<in> set (ptrace p) \<and> dial_count (ptrace p) = 1 \<and> EvDial h True \<in> set (ptrace p)"
proof -
  obtain p where "reachable all_up no_identity small_gateway bob_tunnel \<lparr>sRunning = True, sProc = p\<rparr>"
    and "EvToServer 0 [7] \<in> set (ptrace p)" by (rule hello_reachable)
  then show ?thesis
    using data_only_to_dialled [of all_up no_identity small_gateway bob_tunnel "\<lparr>sRunning = True, sProc = p\<rparr>" 0 "[7]"]
    by - (rule exI [of _ p], simp)
qed


theorem Process_reachable_witness:
  "\<exists>p'. Process all_up no_identity (NewProcessor small_gateway bob_tunnel) [] = Some (Ret (p', Some ReadFailed))
        \<and> reachable all_up no_identity small_gateway bob_tunnel \<lparr>sRunning = False, sProc = p'\<rparr>"
proof -
  have "Process all_up no_identity (NewProcessor small_gateway bob_tunnel) []
      = Some (Ret (NewProcessor small_gateway bob_tunnel, Some ReadFailed))"
    by (subst Process.simps) (simp add: readMessage_def pr_read_def newTransportPacket_def)
  then show ?thesis using Process_reachable by blast
qed

theorem Process_websocket_ends_witness:
  "\<exists>res. Process all_up no_identity (NewProcessor small_gateway bob_tunnel)
     (map ws_ReadPacket [WSMessage True [1, 0, 0], WSMessage True [1, 2], WSError]) = Some res"
  by (rule Process_websocket_ends) auto

end
