(* ===== verification/Security.thy ===== *)
theory Security
  imports Processor
begin

text \<open>
  Package \<open>security\<close>: host templates and the managed host policy (\<open>host_template.go\<close>,
  \<open>basic.go\<close>), the session check and the PAA, user and query tokens (\<open>jwt.go\<close>), and random
  strings (\<open>string.go\<close>).

  Sealing, opening and validating tokens is go-jose's work and answering for an access token
  is the identity provider's: both are parameters, gathered in a record. The package-level
  variables are a record too.
\<close>

subsection \<open>Parameters and globals\<close>

record Claims =
  Issuer :: string
  Subject :: string
  Expiry :: instant

record customClaims =
  RemoteServer :: string
  ClientIP :: string
  AccessToken :: string
  AuthSource :: string
  ccUserName :: string

text \<open>
  The calls into go-jose, each with the key it is given: parsing yields a handle, decryption
  a signed object, \<open>Claims\<close> verifies and decodes. \<open>Validate\<close> checks issuer and time.
\<close>

record jose =
  ParseSignedAndEncrypted :: "string \<Rightarrow> string option"
  Decrypt :: "string \<Rightarrow> string \<Rightarrow> string option"
  ClaimsCustom :: "string \<Rightarrow> string \<Rightarrow> (Claims \<times> customClaims) option"
  ClaimsStandard :: "string \<Rightarrow> string \<Rightarrow> Claims option"
  ParseEncrypted :: "string \<Rightarrow> string option"
  ParseSigned :: "string \<Rightarrow> string option"
  Validate :: "Claims \<Rightarrow> string \<Rightarrow> instant \<Rightarrow> bool"
  SealCustom :: "string \<Rightarrow> string \<Rightarrow> Claims \<Rightarrow> customClaims \<Rightarrow> string option"
  SealStandard :: "string \<Rightarrow> string \<Rightarrow> Claims \<Rightarrow> string option"
  SealEncrypted :: "string \<Rightarrow> Claims \<Rightarrow> string option"
  Sign :: "string \<Rightarrow> Claims \<Rightarrow> string option"
  IdpUserInfo :: "string \<Rightarrow> string option"

record globals =
  SigningKey :: string
  EncryptionKey :: string
  UserSigningKey :: string
  UserEncryptionKey :: string
  QuerySigningKey :: string
  VerifyClientIP :: bool
  HostSelection :: string
  ManagedHostList :: "string list option option"

text \<open>\<open>ManagedHostList\<close>: \<open>None\<close> when the function is nil, \<open>Some None\<close> when it returns an error.\<close>

definition minute :: instant where "minute = 60000000000"

subsection \<open>Host templates\<close>

definition ValidateRenderedHost :: "string \<Rightarrow> string option" where
  "ValidateRenderedHost host =
     (let host = TrimSpace host in
      if host = [] then None
      else if \<exists>c \<in> set [CHR 0x0D, CHR 0x0A, CHR 0x09]. c \<in> set host then None
      else if CHR '':'' \<in> set host then
        (case SplitHostPort host of
           None \<Rightarrow> None
         | Some (renderedHost, port) \<Rightarrow>
             if TrimSpace renderedHost = [] then None
             else (case Atoi port of
                     None \<Rightarrow> None
                   | Some portNum \<Rightarrow> if portNum < 1 \<or> portNum > 65535 then None else Some host))
      else Some host)"

definition ResolvePreferredUsernameHost :: "string \<Rightarrow> string \<Rightarrow> string option" where
  "ResolvePreferredUsernameHost templateHost username =
     ValidateRenderedHost (ReplaceFirst templateHost ''{{ preferred_username }}'' username)"

subsection \<open>The managed host policy\<close>

text \<open>
  A check answers with its verdict; every error comes with the verdict false. The tunnel in
  the context is \<open>None\<close> when there is none; its nil user is dereferenced without a test.
\<close>

fun host_listed :: "string list \<Rightarrow> string \<Rightarrow> string \<Rightarrow> bool" where
  "host_listed [] user host = False"
| "host_listed (h # hs) user host =
     (case ResolvePreferredUsernameHost h user of
        None \<Rightarrow> host_listed hs user host
      | Some resolved \<Rightarrow> if resolved = host then True else host_listed hs user host)"

definition sec_CheckHost :: "globals \<Rightarrow> Tunnel option \<Rightarrow> string \<Rightarrow> bool go" where
  "sec_CheckHost G tun host =
     (case ManagedHostList G of
        None \<Rightarrow> Ret False
      | Some None \<Rightarrow> Ret False
      | Some (Some hosts) \<Rightarrow>
          if hosts = [] then Ret False
          else if HostSelection G = ''signed'' then Ret False
          else if HostSelection G \<in> {''any'', ''roundrobin'', ''unsigned''} then
            (case tun of
               None \<Rightarrow> Panic
             | Some s \<Rightarrow>
                 (case tUser s of
                    None \<Rightarrow> Panic
                  | Some u \<Rightarrow>
                      if UserName u = [] then Ret False else Ret (host_listed hosts (UserName u) host)))
          else Ret False)"

text \<open>The wrapper \<open>CheckSession(next)\<close>; \<open>None\<close> is a nil \<open>next\<close>.\<close>

definition CheckSession ::
    "globals \<Rightarrow> (Tunnel option \<Rightarrow> string \<Rightarrow> bool go) option \<Rightarrow> Ctx \<Rightarrow> Tunnel option \<Rightarrow> string \<Rightarrow> bool go" where
  "CheckSession G nxt ctx tun host =
     (case tun of
        None \<Rightarrow> Ret False
      | Some t \<Rightarrow>
          if TargetServer t \<noteq> host then Ret False
          else go_bind
            (if VerifyClientIP G
             then (case ctxIdentity ctx of
                     None \<Rightarrow> Panic
                   | Some ident \<Rightarrow> Ret (GetAttribute ident AttrClientIp = Some (AString (RemoteAddr t))))
             else Ret True)
            (\<lambda>same. if \<not> same then Ret False
                    else (case nxt of None \<Rightarrow> Ret True | Some f \<Rightarrow> f tun host)))"

subsection \<open>The PAA cookie\<close>

definition sec_CheckPAACookie ::
    "jose \<Rightarrow> globals \<Rightarrow> instant \<Rightarrow> string \<Rightarrow> Tunnel option \<Rightarrow> string \<Rightarrow> bool \<times> Tunnel option" where
  "sec_CheckPAACookie J G now uuid tun tokenString =
     (if tokenString = [] then (False, tun)
      else case ParseSignedAndEncrypted J tokenString of
        None \<Rightarrow> (False, tun)
      | Some enc \<Rightarrow>
          (case Decrypt J enc (EncryptionKey G) of
             None \<Rightarrow> (False, tun)
           | Some token \<Rightarrow>
               (case ClaimsCustom J token (SigningKey G) of
                  None \<Rightarrow> (False, tun)
                | Some (standard, custom) \<Rightarrow>
                    if \<not> Validate J standard ''rdpgw'' now then (False, tun)
                    else (case tun of
                            None \<Rightarrow> (False, tun)
                          | Some t \<Rightarrow>
                              let u = (case tUser t of None \<Rightarrow> NewUser uuid | Some u \<Rightarrow> u);
                                  t = t\<lparr>tUser := Some u, TargetServer := RemoteServer custom,
                                        RemoteAddr := ClientIP custom\<rparr>
                              in if AccessToken custom \<noteq> [] then
                                   (case IdpUserInfo J (AccessToken custom) of
                                      None \<Rightarrow> (False, Some t)
                                    | Some sub \<Rightarrow> (True, Some (t\<lparr>tUser := Some (SetUserName sub u)\<rparr>)))
                                 else (False, Some t)))))"

datatype token_error = KeyTooShort | NoIdentity | NoAccessToken | NoClientIP | SealFailed

definition GeneratePAAToken ::
    "jose \<Rightarrow> globals \<Rightarrow> instant \<Rightarrow> Ctx \<Rightarrow> string \<Rightarrow> string \<Rightarrow> token_error + string" where
  "GeneratePAAToken J G now ctx username server =
     (if length (SigningKey G) < 32 then Inl KeyTooShort
      else if length (EncryptionKey G) < 32 then Inl KeyTooShort
      else let standard = \<lparr>Issuer = ''rdpgw'', Subject = username, Expiry = now + 5 * minute\<rparr> in
        (case ctxIdentity ctx of
           None \<Rightarrow> Inl NoIdentity
         | Some ident \<Rightarrow>
             let accessToken = attr_string (GetAttribute ident AttrAccessToken);
                 authSource = attr_string (GetAttribute ident AttrAuthSource);
                 authSource = (if authSource = [] \<and> accessToken \<noteq> [] then AuthSourceOIDC else authSource)
             in if accessToken = [] then Inl NoAccessToken
                else let clientIP = attr_string (GetAttribute ident AttrClientIp) in
                  if clientIP = [] then Inl NoClientIP
                  else let private = \<lparr>RemoteServer = server, ClientIP = clientIP, AccessToken = accessToken,
                                      AuthSource = authSource, ccUserName = username\<rparr>
                       in (case SealCustom J (SigningKey G) (EncryptionKey G) standard private of
                             None \<Rightarrow> Inl SealFailed
                           | Some token \<Rightarrow> Inr token)))"

subsection \<open>User and query tokens\<close>

definition GenerateUserToken :: "jose \<Rightarrow> globals \<Rightarrow> instant \<Rightarrow> string \<Rightarrow> token_error + string" where
  "GenerateUserToken J G now user =
     (if length (UserEncryptionKey G) < 32 then Inl KeyTooShort
      else let claims = \<lparr>Issuer = ''rdpgw'', Subject = user, Expiry = now + 5 * minute\<rparr>;
               token = (if 0 < length (UserSigningKey G)
                        then SealStandard J (UserSigningKey G) (UserEncryptionKey G) claims
                        else SealEncrypted J (UserEncryptionKey G) claims)
           in (case token of None \<Rightarrow> Inl SealFailed | Some t \<Rightarrow> Inr t))"

text \<open>
  \<open>UserInfo\<close> of the package: \<open>None\<close> is an error. With a signing key but no encryption key
  neither branch runs and the empty claims go to validation.
\<close>

definition UserInfo :: "jose \<Rightarrow> globals \<Rightarrow> instant \<Rightarrow> string \<Rightarrow> Claims option" where
  "UserInfo J G now token =
     (let read =
        (if UserEncryptionKey G \<noteq> [] \<and> UserSigningKey G \<noteq> [] then
           (case ParseSignedAndEncrypted J token of
              None \<Rightarrow> None
            | Some enc \<Rightarrow>
                (case Decrypt J enc (UserEncryptionKey G) of
                   None \<Rightarrow> None
                 | Some tok \<Rightarrow> ClaimsStandard J tok (UserSigningKey G)))
         else if UserSigningKey G = [] then
           (case ParseEncrypted J token of
              None \<Rightarrow> None
            | Some tok \<Rightarrow> ClaimsStandard J tok (UserEncryptionKey G))
         else Some \<lparr>Issuer = [], Subject = [], Expiry = 0\<rparr>)
      in (case read of
            None \<Rightarrow> None
          | Some standard \<Rightarrow> if Validate J standard ''rdpgw'' now then Some standard else None))"

definition QueryInfo :: "jose \<Rightarrow> globals \<Rightarrow> instant \<Rightarrow> string \<Rightarrow> string \<Rightarrow> string option" where
  "QueryInfo J G now tokenString issuer =
     (case ParseSigned J tokenString of
        None \<Rightarrow> None
      | Some token \<Rightarrow>
          (case ClaimsStandard J token (QuerySigningKey G) of
             None \<Rightarrow> None
           | Some standard \<Rightarrow> if Validate J standard issuer now then Some (Subject standard) else None))"

definition GenerateQueryToken :: "jose \<Rightarrow> globals \<Rightarrow> instant \<Rightarrow> string \<Rightarrow> string \<Rightarrow> token_error + string" where
  "GenerateQueryToken J G now query issuer =
     (if length (QuerySigningKey G) < 32 then Inl KeyTooShort
      else (case Sign J (QuerySigningKey G) \<lparr>Issuer = issuer, Subject = query, Expiry = now + 5 * minute\<rparr> of
              None \<Rightarrow> Inl SealFailed
            | Some t \<Rightarrow> Inr t))"

subsection \<open>Random strings\<close>

definition letters :: string where
  "letters = ''0123456789ABCDEFGHIJKLMNOPQRSTUVWXYZabcdefghijklmnopqrstuvwxyz-''"

text \<open>
  The results of the successive \<open>rand.Int(rand.Reader, n)\<close> calls are a parameter, \<open>None\<close> a
  failure; \<open>crypto/rand\<close> returns numbers below \<open>n\<close>.
\<close>

fun GenerateRandomString :: "(nat \<Rightarrow> nat option) \<Rightarrow> nat \<Rightarrow> nat \<Rightarrow> string option go" where
  "GenerateRandomString rnd i 0 = Ret (Some [])"
| "GenerateRandomString rnd i (Suc n) =
     (case rnd i of
        None \<Rightarrow> Ret None
      | Some num \<Rightarrow>
          if length letters \<le> num then Panic
          else go_bind (GenerateRandomString rnd (i + 1) n)
            (\<lambda>rest. Ret (map_option (\<lambda>s. letters ! num # s) rest)))"

subsection \<open>Lemmas and properties\<close>

lemma host_listed_iff:
  "host_listed hs user host \<longleftrightarrow> (\<exists>h \<in> set hs. ResolvePreferredUsernameHost h user = Some host)"
  by (induction hs) (auto split: option.splits)

text \<open>The claims a cookie carries, if it opens and verifies under the configured keys.\<close>

definition cookie_claims :: "jose \<Rightarrow> globals \<Rightarrow> string \<Rightarrow> (Claims \<times> customClaims) option" where
  "cookie_claims J G tok =
     Option.bind (ParseSignedAndEncrypted J tok) (\<lambda>enc.
     Option.bind (Decrypt J enc (EncryptionKey G)) (\<lambda>t. ClaimsCustom J t (SigningKey G)))"

lemma cookie_accepted:
  assumes "sec_CheckPAACookie J G now uuid tun tok = (True, tun')"
  obtains standard custom sub t u where "tok \<noteq> []" and "cookie_claims J G tok = Some (standard, custom)"
    and "Validate J standard ''rdpgw'' now" and "AccessToken custom \<noteq> []"
    and "IdpUserInfo J (AccessToken custom) = Some sub" and "tun = Some t"
    and "u = (case tUser t of None \<Rightarrow> NewUser uuid | Some u \<Rightarrow> u)"
    and "tun' = Some (t\<lparr>tUser := Some (SetUserName sub u), TargetServer := RemoteServer custom,
                        RemoteAddr := ClientIP custom\<rparr>)"
  using assms
  by (auto simp: sec_CheckPAACookie_def cookie_claims_def Let_def split: if_splits option.splits)

text \<open>
  A cookie is accepted only if it opens and verifies under the configured keys, is valid now
  for issuer \<open>rdpgw\<close>, and carries an access token the identity provider still honours; the
  tunnel is then bound to the token's server and client address and to the provider's subject.
\<close>

theorem CheckPAACookie_sound:
  assumes "sec_CheckPAACookie J G now uuid tun tok = (True, tun')"
  shows "\<exists>standard custom sub t'. cookie_claims J G tok = Some (standard, custom)
           \<and> Validate J standard ''rdpgw'' now \<and> IdpUserInfo J (AccessToken custom) = Some sub
           \<and> tun' = Some t' \<and> TargetServer t' = RemoteServer custom \<and> RemoteAddr t' = ClientIP custom
           \<and> map_option UserName (tUser t') = Some sub"
  using assms by (rule cookie_accepted) auto

text \<open>
  The managed host policy is exact: it allows a host just when the inventory is there, the
  mode is one that grants hosts (never \<open>signed\<close>), the user has a name, and some configured
  template, with the user's name filled in, is a valid address equal to the host.
\<close>

theorem CheckHost_exact:
  assumes "tun = Some t" and "tUser t = Some u"
  shows "sec_CheckHost G tun host = Ret
           (UserName u \<noteq> [] \<and> HostSelection G \<in> {''any'', ''roundrobin'', ''unsigned''}
            \<and> (\<exists>hosts. ManagedHostList G = Some (Some hosts)
                 \<and> (\<exists>h \<in> set hosts. ResolvePreferredUsernameHost h (UserName u) = Some host)))"
  using assms by (auto simp: sec_CheckHost_def host_listed_iff split: option.splits)

lemma TrimSpace_no_lead: "ValidateRenderedHost h = Some r \<Longrightarrow> r = TrimSpace h \<and> r \<noteq> []"
  by (auto simp: ValidateRenderedHost_def Let_def split: if_splits option.splits)

text \<open>
  What passes validation is the trimmed input and validates again to itself; it has no tab
  or line break, and if it has a colon it is a host and a port from 1 to 65535.
\<close>

theorem ValidateRenderedHost_valid:
  assumes "ValidateRenderedHost h = Some r"
  shows "ValidateRenderedHost r = Some r \<and> r = TrimSpace h \<and> r \<noteq> []
       \<and> set r \<inter> {CHR 0x0D, CHR 0x0A, CHR 0x09} = {}
       \<and> (CHR '':'' \<in> set r \<longrightarrow> (\<exists>host port n. SplitHostPort r = Some (host, port) \<and> Atoi port = Some n
            \<and> 1 \<le> n \<and> n \<le> 65535))"
proof -
  have r: "r = TrimSpace h" using TrimSpace_no_lead [OF assms] by simp
  show ?thesis
    using assms unfolding r ValidateRenderedHost_def Let_def TrimSpace_idem
    by (auto split: if_splits option.splits)
qed

text \<open>
  The session check admits exactly the server the tunnel is bound to, from the client
  address it is bound to (when addresses are verified), and then leaves the decision to the
  next check.
\<close>

theorem CheckSession_exact:
  assumes "ctxIdentity ctx = Some u"
  shows "CheckSession G nxt ctx (Some t) host =
     (if TargetServer t = host \<and> (VerifyClientIP G \<longrightarrow> GetAttribute u AttrClientIp = Some (AString (RemoteAddr t)))
      then (case nxt of None \<Rightarrow> Ret True | Some f \<Rightarrow> f (Some t) host) else Ret False)"
  using assms by (simp add: CheckSession_def)

lemma PAAToken_accepted:
  assumes gen: "GeneratePAAToken J G issued ctx user server = Inr tok"
    and opens: "\<And>std c tk. SealCustom J (SigningKey G) (EncryptionKey G) std c = Some tk
                  \<Longrightarrow> tk \<noteq> [] \<and> cookie_claims J G tk = Some (std, c)"
    and valid: "Validate J \<lparr>Issuer = ''rdpgw'', Subject = user, Expiry = issued + 5 * minute\<rparr> ''rdpgw'' now"
    and idp: "\<And>at. IdpUserInfo J at = Some sub"
  shows "\<exists>t'. sec_CheckPAACookie J G now uuid (Some t) tok = (True, Some t')
              \<and> TargetServer t' = server \<and> CheckSession G None ctx (Some t') server = Ret True"
proof -
  obtain u where u: "ctxIdentity ctx = Some u" and at: "attr_string (GetAttribute u AttrAccessToken) \<noteq> []"
    and ip: "attr_string (GetAttribute u AttrClientIp) \<noteq> []"
    and seal: "SealCustom J (SigningKey G) (EncryptionKey G)
        \<lparr>Issuer = ''rdpgw'', Subject = user, Expiry = issued + 5 * minute\<rparr>
        \<lparr>RemoteServer = server, ClientIP = attr_string (GetAttribute u AttrClientIp),
         AccessToken = attr_string (GetAttribute u AttrAccessToken),
         AuthSource = (let a = attr_string (GetAttribute u AttrAuthSource) in if a = [] then AuthSourceOIDC else a),
         ccUserName = user\<rparr> = Some tok"
    using gen by (auto simp: GeneratePAAToken_def Let_def split: if_splits option.splits)
  have addr: "GetAttribute u AttrClientIp = Some (AString (attr_string (GetAttribute u AttrClientIp)))"
    using ip by (auto simp: attr_string_def split: option.splits attr.splits)
  let ?t = "t\<lparr>tUser := Some (SetUserName sub (case tUser t of None \<Rightarrow> NewUser uuid | Some u \<Rightarrow> u)),
              TargetServer := server, RemoteAddr := attr_string (GetAttribute u AttrClientIp)\<rparr>"
  have "sec_CheckPAACookie J G now uuid (Some t) tok = (True, Some ?t)"
    using opens [OF seal] valid idp at
    by (auto simp: sec_CheckPAACookie_def cookie_claims_def Let_def bind_eq_Some_conv)
  moreover have "CheckSession G None ctx (Some ?t) server = Ret True"
    by (simp add: CheckSession_def u addr [symmetric])
  ultimately show ?thesis by (intro exI [of _ ?t]) simp
qed


subsection \<open>A concrete token service\<close>

text \<open>
  A service that remembers one kind of token: it seals the server's name into the token and
  opens it for a fixed client. It meets the hypotheses above on its own tokens.
\<close>

definition demo_custom :: "string \<Rightarrow> customClaims" where
  "demo_custom server = \<lparr>RemoteServer = server, ClientIP = ''10.0.0.1'', AccessToken = ''at'',
     AuthSource = AuthSourceOIDC, ccUserName = ''bob''\<rparr>"

definition demo_claims :: Claims where
  "demo_claims = \<lparr>Issuer = ''rdpgw'', Subject = ''bob'', Expiry = 5 * minute\<rparr>"

definition demo_jose :: jose where
  "demo_jose =
     \<lparr>ParseSignedAndEncrypted = Some, Decrypt = (\<lambda>e k. Some e),
      ClaimsCustom = (\<lambda>t k. Some (demo_claims, demo_custom (tl t))), ClaimsStandard = (\<lambda>t k. None),
      ParseEncrypted = (\<lambda>t. None), ParseSigned = (\<lambda>t. None),
      Validate = (\<lambda>c iss t. Issuer c = iss \<and> t \<le> Expiry c),
      SealCustom = (\<lambda>sk ek std c. if std = demo_claims \<and> c = demo_custom (RemoteServer c)
                     then Some (CHR ''T'' # RemoteServer c) else None),
      SealStandard = (\<lambda>sk ek c. None), SealEncrypted = (\<lambda>k c. None), Sign = (\<lambda>k c. None),
      IdpUserInfo = (\<lambda>at. Some ''bob'')\<rparr>"

definition demo_globals :: globals where
  "demo_globals =
     \<lparr>SigningKey = replicate 32 CHR ''s'', EncryptionKey = replicate 32 CHR ''e'', UserSigningKey = [],
      UserEncryptionKey = [], QuerySigningKey = [], VerifyClientIP = True, HostSelection = ''roundrobin'',
      ManagedHostList = Some (Some [''pc1:3389'', ''{{ preferred_username }}-pc''])\<rparr>"

definition demo_user :: User where
  "demo_user = SetAttribute AttrClientIp (AString ''10.0.0.1'')
     (SetAttribute AttrAccessToken (AString ''at'') (SetUserName ''bob'' (NewUser ''s1'')))"

definition demo_ctx :: Ctx where "demo_ctx = \<lparr>ctxIdentity = Some demo_user\<rparr>"

definition demo_tunnel :: Tunnel where
  "demo_tunnel =
     \<lparr>Id = ''t1'', RDGId = [], TargetServer = [], RemoteAddr = [], tUser = Some demo_user, rwc = None,
      BytesSent = 0, BytesReceived = 0, ConnectedOn = 0, LastSeen = 0\<rparr>"

lemma demo_user_attrs: "GetAttribute demo_user AttrClientIp = Some (AString ''10.0.0.1'')"
    "GetAttribute demo_user AttrAccessToken = Some (AString ''at'')" "GetAttribute demo_user AttrAuthSource = None"
    "UserName demo_user = ''bob''"
  by (simp_all add: demo_user_def attr_name_defs, simp add: GetAttribute_def NewUser_def SetUserName_def)

lemma demo_accepts:
  "sec_CheckPAACookie demo_jose demo_globals 0 ''u'' (Some demo_tunnel) ''Tpc1:3389''
     = (True, Some (demo_tunnel\<lparr>tUser := Some (SetUserName ''bob'' demo_user), TargetServer := ''pc1:3389'',
                               RemoteAddr := ''10.0.0.1''\<rparr>))"
  by (simp add: sec_CheckPAACookie_def demo_jose_def demo_claims_def demo_custom_def demo_tunnel_def minute_def Let_def)

theorem CheckPAACookie_sound_witness:
  "\<exists>standard custom sub. cookie_claims demo_jose demo_globals ''Tpc1:3389'' = Some (standard, custom)
     \<and> Validate demo_jose standard ''rdpgw'' 0 \<and> IdpUserInfo demo_jose (AccessToken custom) = Some sub
     \<and> RemoteServer custom = ''pc1:3389''"
  using CheckPAACookie_sound [OF demo_accepts] by auto

theorem CheckHost_exact_witness:
  "sec_CheckHost demo_globals (Some demo_tunnel) ''bob-pc'' = Ret
     (\<exists>h \<in> {''pc1:3389'', ''{{ preferred_username }}-pc''}. ResolvePreferredUsernameHost h ''bob'' = Some ''bob-pc'')"
  using CheckHost_exact [of "Some demo_tunnel" demo_tunnel demo_user demo_globals "''bob-pc''"]
  by (simp add: demo_tunnel_def demo_globals_def demo_user_attrs)

theorem ValidateRenderedHost_valid_witness:
  "\<exists>host port n. SplitHostPort ''pc1:3389'' = Some (host, port) \<and> Atoi port = Some n \<and> n \<le> 65535"
proof -
  have "ValidateRenderedHost ''pc1:3389'' = Some ''pc1:3389''" by code_simp
  from ValidateRenderedHost_valid [OF this] show ?thesis by fastforce
qed

theorem CheckSession_exact_witness:
  "CheckSession demo_globals None demo_ctx (Some (demo_tunnel\<lparr>TargetServer := ''pc1:3389'', RemoteAddr := ''10.0.0.1''\<rparr>))
     ''pc1:3389'' = Ret True"
  using CheckSession_exact [of demo_ctx demo_user demo_globals None
      "demo_tunnel\<lparr>TargetServer := ''pc1:3389'', RemoteAddr := ''10.0.0.1''\<rparr>" "''pc1:3389''"]
  by (simp add: demo_ctx_def demo_user_attrs)

lemma demo_generates: "GeneratePAAToken demo_jose demo_globals 0 demo_ctx ''bob'' ''pc1:3389'' = Inr ''Tpc1:3389''"
  by (simp add: GeneratePAAToken_def demo_globals_def demo_ctx_def demo_user_attrs attr_string_def
      demo_jose_def demo_claims_def demo_custom_def AuthSourceOIDC_def minute_def)

lemma demo_opens:
  "SealCustom demo_jose (SigningKey demo_globals) (EncryptionKey demo_globals) std c = Some tk
     \<Longrightarrow> tk \<noteq> [] \<and> cookie_claims demo_jose demo_globals tk = Some (std, c)"
  by (auto simp: demo_jose_def cookie_claims_def minute_def demo_claims_def split: if_splits)


end
