(* ===== verification/Config.thy ===== *)
theory Config
  imports Go_Net
begin

text \<open>
  Package \<open>config\<close>: the configuration record, the translation of environment variables to
  keys, and what \<open>Load\<close> makes of the values it has read: derived paths, generated keys,
  and the combinations it refuses. Reading YAML and the environment into the record is
  koanf's work; the record it yields is the argument of \<open>Load\<close>.
\<close>

subsection \<open>The record\<close>

record ServerConfig =
  sv_GatewayAddress :: string
  sv_Port :: int
  sv_CertFile :: string
  sv_KeyFile :: string
  sv_Hosts :: "string list"
  sv_HostSelection :: string
  sv_SessionKey :: string
  sv_SessionEncryptionKey :: string
  sv_SessionStore :: string
  sv_MaxSessionLength :: int
  sv_SendBuf :: int
  sv_ReceiveBuf :: int
  sv_Tls :: string
  sv_Authentication :: "string list"
  sv_AuthSocket :: string
  sv_BasicAuthTimeout :: int
  sv_TrustedProxyCIDRs :: "string list"
  sv_InternalDomains :: "string list"
  sv_InternalDNSServer :: string
  sv_SecureCookies :: bool
  sv_AllowTLSKeyLog :: bool
  sv_EnableMetrics :: bool

record KerberosConfig =
  kb_Keytab :: string
  kb_Krb5Conf :: string

record OpenIDConfig =
  oi_ProviderUrl :: string
  oi_ClientId :: string
  oi_ClientSecret :: string
  oi_GroupsClaim :: string

record DashboardConfig =
  db_StorePath :: string
  db_UploadDir :: string
  db_IconDir :: string
  db_AuthUsersPath :: string
  db_AuthHelperConfigPath :: string
  db_AdminGroups :: "string list"
  db_MaxUploadSizeMb :: int
  db_MaxTemplateUploads :: int
  db_MaxIconUploads :: int
  db_MaxTemplateUploadStorageMb :: int
  db_MaxIconUploadStorageMb :: int

record HeaderConfig =
  hd_UserHeader :: string
  hd_UserIdHeader :: string
  hd_EmailHeader :: string
  hd_DisplayNameHeader :: string

record RDGCapsConfig =
  cap_SmartCardAuth :: bool
  cap_TokenAuth :: bool
  cap_IdleTimeout :: int
  cap_RedirectAll :: bool
  cap_DisableRedirect :: bool
  cap_EnableClipboard :: bool
  cap_EnablePrinter :: bool
  cap_EnablePort :: bool
  cap_EnablePnp :: bool
  cap_EnableDrive :: bool

record SecurityConfig =
  se_PAATokenEncryptionKey :: string
  se_PAATokenSigningKey :: string
  se_UserTokenEncryptionKey :: string
  se_UserTokenSigningKey :: string
  se_QueryTokenSigningKey :: string
  se_QueryTokenIssuer :: string
  se_VerifyClientIp :: bool
  se_EnableUserToken :: bool

record ClientOptions =
  cl_Defaults :: string
  cl_UsernameTemplate :: string
  cl_SplitUserDomain :: bool
  cl_NoUsername :: bool
  cl_SigningCert :: string
  cl_SigningKey :: string

record Configuration =
  Server :: ServerConfig
  OpenId :: OpenIDConfig
  Dashboard :: DashboardConfig
  Kerberos :: KerberosConfig
  Header :: HeaderConfig
  Caps :: RDGCapsConfig
  Security :: SecurityConfig
  ClientOpts :: ClientOptions

subsection \<open>Authentication modes\<close>

fun matchAuth_mode :: "string list \<Rightarrow> string \<Rightarrow> bool" where
  "matchAuth_mode [] needle = False"
| "matchAuth_mode (q # qs) needle = (if q = needle then True else matchAuth_mode qs needle)"

definition OpenIDEnabled :: "ServerConfig \<Rightarrow> bool" where
  "OpenIDEnabled s = matchAuth_mode (sv_Authentication s) ''openid''"

definition KerberosEnabled :: "ServerConfig \<Rightarrow> bool" where
  "KerberosEnabled s = matchAuth_mode (sv_Authentication s) ''kerberos''"

definition BasicAuthEnabled :: "ServerConfig \<Rightarrow> bool" where
  "BasicAuthEnabled s \<longleftrightarrow> matchAuth_mode (sv_Authentication s) ''local'' \<or> matchAuth_mode (sv_Authentication s) ''basic''"

definition NtlmEnabled :: "ServerConfig \<Rightarrow> bool" where
  "NtlmEnabled s = matchAuth_mode (sv_Authentication s) ''ntlm''"

definition HeaderEnabled :: "ServerConfig \<Rightarrow> bool" where
  "HeaderEnabled s = matchAuth_mode (sv_Authentication s) ''header''"

subsection \<open>Keys from the environment\<close>

text \<open>The loop of \<open>ToCamel\<close>: \<open>i\<close> is the index, \<open>capNext\<close> the flag.\<close>

definition is_upper :: "char \<Rightarrow> bool" where
  "is_upper c \<longleftrightarrow> (65::nat) \<le> of_char c \<and> (of_char c :: nat) \<le> 90"

definition is_lower :: "char \<Rightarrow> bool" where
  "is_lower c \<longleftrightarrow> (97::nat) \<le> of_char c \<and> (of_char c :: nat) \<le> 122"

definition to_upper :: "char \<Rightarrow> char" where
  "to_upper c = char_of ((of_char c :: nat) - 32)"

definition to_lower :: "char \<Rightarrow> char" where
  "to_lower c = char_of ((of_char c :: nat) + 32)"

fun camel_loop :: "nat \<Rightarrow> bool \<Rightarrow> string \<Rightarrow> string" where
  "camel_loop i capNext [] = []"
| "camel_loop i capNext (c # cs) =
     (let v = (if capNext then (if is_lower c then to_upper c else c)
               else if i = 0 then (if is_upper c then to_lower c else c) else c)
      in if is_upper c \<or> is_lower c then v # camel_loop (i + 1) False cs
         else if is_digit v then v # camel_loop (i + 1) True cs
         else (if v = CHR ''.'' then [v] else [])
              @ camel_loop (i + 1) (v = CHR ''_'' \<or> v = CHR '' '' \<or> v = CHR ''-'' \<or> v = CHR ''.'') cs)"

definition ToCamel :: "string \<Rightarrow> string" where
  "ToCamel s = camel_loop 0 True (TrimSpace s)"

definition envKeyOverrides :: "(string \<times> string) list" where
  "envKeyOverrides =
     [(''Openid.Groupsclaim'', ''OpenId.GroupsClaim''),
      (''Dashboard.Storepath'', ''Dashboard.StorePath''),
      (''Dashboard.Uploaddir'', ''Dashboard.UploadDir''),
      (''Dashboard.Icondir'', ''Dashboard.IconDir''),
      (''Dashboard.Authuserspath'', ''Dashboard.AuthUsersPath''),
      (''Dashboard.Authhelperconfigpath'', ''Dashboard.AuthHelperConfigPath''),
      (''Dashboard.Admingroups'', ''Dashboard.AdminGroups''),
      (''Dashboard.Maxuploadsizemb'', ''Dashboard.MaxUploadSizeMb''),
      (''Dashboard.Maxtemplateuploads'', ''Dashboard.MaxTemplateUploads''),
      (''Dashboard.Maxiconuploads'', ''Dashboard.MaxIconUploads''),
      (''Dashboard.Maxtemplateuploadstoragemb'', ''Dashboard.MaxTemplateUploadStorageMb''),
      (''Dashboard.Maxiconuploadstoragemb'', ''Dashboard.MaxIconUploadStorageMb''),
      (''Server.Trustedproxycidrs'', ''Server.TrustedProxyCIDRs''),
      (''Server.Internaldomains'', ''Server.InternalDomains''),
      (''Server.Internaldnsserver'', ''Server.InternalDNSServer''),
      (''Server.Securecookies'', ''Server.SecureCookies''),
      (''Server.Allowtlskeylog'', ''Server.AllowTLSKeyLog''),
      (''Server.Enablemetrics'', ''Server.EnableMetrics'')]"

datatype env_value = EnvString string | EnvList "string list"

text \<open>The callback of the environment provider, for one variable \<open>s\<close> with value \<open>v\<close>.\<close>

definition env_entry :: "(string \<Rightarrow> string) \<Rightarrow> string \<Rightarrow> string \<Rightarrow> string \<times> env_value" where
  "env_entry ul s v =
     (let key = ToCamel (ReplaceUnderscores (ToLower ul (TrimPrefix s ''RDPGW_'')));
          key = (case map_of envKeyOverrides key of Some k \<Rightarrow> k | None \<Rightarrow> key);
          v = TrimBlanks v
      in if CHR '' '' \<in> set v then (key, EnvList (Split v CHR '' '')) else (key, EnvString v))"

subsection \<open>Derived paths\<close>

definition derive_path :: "string \<Rightarrow> string \<Rightarrow> string" where
  "derive_path storePath leaf =
     (if storePath = [] then leaf
      else if HasSuffix storePath ''/'' then storePath @ leaf
      else storePath @ ''/'' @ leaf)"

definition deriveUploadDir :: "string \<Rightarrow> string" where "deriveUploadDir p = derive_path p ''uploads''"
definition deriveIconDir :: "string \<Rightarrow> string" where "deriveIconDir p = derive_path p ''icons''"
definition deriveAuthUsersPath :: "string \<Rightarrow> string" where "deriveAuthUsersPath p = derive_path p ''auth-users.json''"
definition deriveAuthHelperConfigPath :: "string \<Rightarrow> string" where
  "deriveAuthHelperConfigPath p = derive_path p ''rdpgw-auth.yaml''"

subsection \<open>Validation\<close>

definition maxUploadStorageMegabytes :: int where
  "maxUploadStorageMegabytes = (2 ^ 63 - 1) div (1024 * 1024)"

definition hasTrustedProxyCIDR :: "string list \<Rightarrow> bool" where
  "hasTrustedProxyCIDR cidrs \<longleftrightarrow> (\<exists>cidr \<in> set cidrs. TrimSpace cidr \<noteq> [])"

datatype config_error =
    InvalidCIDR string
  | HeaderWithoutUser
  | HeaderWithoutProxies
  | SignedWithoutKey
  | UploadSizeRange
  | TemplateUploadsRange
  | IconUploadsRange
  | TemplateStorageRange
  | IconStorageRange

fun first_bad_cidr :: "string list \<Rightarrow> string option" where
  "first_bad_cidr [] = None"
| "first_bad_cidr (cidr # cs) =
     (let cidr = TrimSpace cidr
      in if cidr = [] then first_bad_cidr cs
         else if ParseCIDR cidr = None then Some cidr
         else first_bad_cidr cs)"

definition Validate_conf :: "Configuration \<Rightarrow> config_error option" where
  "Validate_conf c =
     (case first_bad_cidr (sv_TrustedProxyCIDRs (Server c)) of
        Some cidr \<Rightarrow> Some (InvalidCIDR cidr)
      | None \<Rightarrow>
          if HeaderEnabled (Server c) \<and> hd_UserHeader (Header c) = [] then Some HeaderWithoutUser
          else if HeaderEnabled (Server c) \<and> \<not> hasTrustedProxyCIDR (sv_TrustedProxyCIDRs (Server c))
          then Some HeaderWithoutProxies
          else if sv_HostSelection (Server c) = ''signed'' \<and> length (se_QueryTokenSigningKey (Security c)) < 32
          then Some SignedWithoutKey
          else if db_MaxUploadSizeMb (Dashboard c) < 0 then Some UploadSizeRange
          else if db_MaxUploadSizeMb (Dashboard c) > maxUploadStorageMegabytes then Some UploadSizeRange
          else if db_MaxTemplateUploads (Dashboard c) < 0 then Some TemplateUploadsRange
          else if db_MaxIconUploads (Dashboard c) < 0 then Some IconUploadsRange
          else if db_MaxTemplateUploadStorageMb (Dashboard c) < 0 then Some TemplateStorageRange
          else if db_MaxTemplateUploadStorageMb (Dashboard c) > maxUploadStorageMegabytes then Some TemplateStorageRange
          else if db_MaxIconUploadStorageMb (Dashboard c) < 0 then Some IconStorageRange
          else if db_MaxIconUploadStorageMb (Dashboard c) > maxUploadStorageMegabytes then Some IconStorageRange
          else None)"

subsection \<open>Load\<close>

text \<open>
  \<open>Load\<close> from the record koanf filled in. \<open>rnd i\<close> is the string of the \<open>i\<close>-th call of
  \<open>GenerateRandomString(32)\<close>, whose error is dropped. \<open>Inl\<close> is the end of the process by
  \<open>log.Fatalf\<close>.
\<close>

datatype fatal =
    BasicWithoutTls | NtlmWithKerberos | OpenIdWithoutTokenAuth | KerberosWithoutKeytab
  | HeaderWithoutUserHeader | InvalidConfig config_error

definition derive_paths :: "DashboardConfig \<Rightarrow> DashboardConfig" where
  "derive_paths d =
     (let d = (if db_UploadDir d = [] then d\<lparr>db_UploadDir := deriveUploadDir (db_StorePath d)\<rparr> else d);
          d = (if db_IconDir d = [] then d\<lparr>db_IconDir := deriveIconDir (db_StorePath d)\<rparr> else d);
          d = (if db_AuthUsersPath d = [] then d\<lparr>db_AuthUsersPath := deriveAuthUsersPath (db_StorePath d)\<rparr> else d);
          d = (if db_AuthHelperConfigPath d = []
               then d\<lparr>db_AuthHelperConfigPath := deriveAuthHelperConfigPath (db_StorePath d)\<rparr> else d)
      in d)"

definition key_or_random :: "string \<Rightarrow> string \<Rightarrow> string" where
  "key_or_random key r = (if length key \<noteq> 32 then r else key)"

definition disable_tokens :: "Configuration \<Rightarrow> Configuration" where
  "disable_tokens c =
     (if OpenIDEnabled (Server c) then c
      else c\<lparr>Caps := (Caps c)\<lparr>cap_TokenAuth := False\<rparr>, Security := (Security c)\<lparr>se_EnableUserToken := False\<rparr>\<rparr>)"

definition generate_keys :: "(nat \<Rightarrow> string) \<Rightarrow> Configuration \<Rightarrow> Configuration" where
  "generate_keys rnd c =
     (let s = Security c;
          s = s\<lparr>se_PAATokenEncryptionKey := key_or_random (se_PAATokenEncryptionKey s) (rnd 0)\<rparr>;
          s = s\<lparr>se_PAATokenSigningKey := key_or_random (se_PAATokenSigningKey s) (rnd 1)\<rparr>;
          s = (if se_EnableUserToken s
               then s\<lparr>se_UserTokenEncryptionKey := key_or_random (se_UserTokenEncryptionKey s) (rnd 2)\<rparr> else s);
          v = Server c;
          v = v\<lparr>sv_SessionKey := key_or_random (sv_SessionKey v) (rnd 3)\<rparr>;
          v = v\<lparr>sv_SessionEncryptionKey := key_or_random (sv_SessionEncryptionKey v) (rnd 4)\<rparr>
      in c\<lparr>Security := s, Server := v\<rparr>)"

definition fatal_check :: "Configuration \<Rightarrow> fatal option" where
  "fatal_check c =
     (if BasicAuthEnabled (Server c) \<and> sv_Tls (Server c) = ''disable'' then Some BasicWithoutTls
      else if NtlmEnabled (Server c) \<and> KerberosEnabled (Server c) then Some NtlmWithKerberos
      else if \<not> cap_TokenAuth (Caps c) \<and> OpenIDEnabled (Server c) then Some OpenIdWithoutTokenAuth
      else if KerberosEnabled (Server c) \<and> kb_Keytab (Kerberos c) = [] then Some KerberosWithoutKeytab
      else if HeaderEnabled (Server c) \<and> hd_UserHeader (Header c) = [] then Some HeaderWithoutUserHeader
      else map_option InvalidConfig (Validate_conf c))"

definition Load :: "(nat \<Rightarrow> string) \<Rightarrow> Configuration \<Rightarrow> fatal + Configuration" where
  "Load rnd c =
     (let c = c\<lparr>Dashboard := derive_paths (Dashboard c)\<rparr>;
          c = disable_tokens c;
          c = generate_keys rnd c
      in (case fatal_check c of
            Some e \<Rightarrow> Inl e
          | None \<Rightarrow>
              Inr (if Contains (sv_GatewayAddress (Server c)) ''//'' then c
                   else c\<lparr>Server := (Server c)\<lparr>sv_GatewayAddress := ''//'' @ sv_GatewayAddress (Server c)\<rparr>\<rparr>)))"

subsection \<open>Lemmas and properties\<close>

lemma matchAuth_mode_iff: "matchAuth_mode qs n \<longleftrightarrow> n \<in> set qs"
  by (induction qs) auto

lemma first_bad_cidr_None: "first_bad_cidr cs = None \<longleftrightarrow>
    (\<forall>c \<in> set cs. TrimSpace c = [] \<or> ParseCIDR (TrimSpace c) \<noteq> None)"
  by (induction cs) (auto simp: Let_def)

lemma first_bad_cidr_Some: "first_bad_cidr cs = Some c \<Longrightarrow> ParseCIDR c = None \<and> c \<noteq> []"
  by (induction cs) (auto simp: Let_def split: if_splits)

lemma length_key_or_random: "length r = 32 \<Longrightarrow> length (key_or_random k r) = 32"
  by (simp add: key_or_random_def)

lemma generate_keys_simps:
  "Dashboard (generate_keys rnd c) = Dashboard c" "Caps (generate_keys rnd c) = Caps c"
  "Kerberos (generate_keys rnd c) = Kerberos c" "Header (generate_keys rnd c) = Header c"
  "sv_Authentication (Server (generate_keys rnd c)) = sv_Authentication (Server c)"
  "se_EnableUserToken (Security (generate_keys rnd c)) = se_EnableUserToken (Security c)"
  by (simp_all add: generate_keys_def Let_def)

lemma mode_simps:
  "sv_Authentication a = sv_Authentication b \<Longrightarrow> OpenIDEnabled a = OpenIDEnabled b"
  "sv_Authentication a = sv_Authentication b \<Longrightarrow> HeaderEnabled a = HeaderEnabled b"
  "sv_Authentication a = sv_Authentication b \<Longrightarrow> KerberosEnabled a = KerberosEnabled b"
  "sv_Authentication a = sv_Authentication b \<Longrightarrow> NtlmEnabled a = NtlmEnabled b"
  "sv_Authentication a = sv_Authentication b \<Longrightarrow> BasicAuthEnabled a = BasicAuthEnabled b"
  by (simp_all add: OpenIDEnabled_def HeaderEnabled_def KerberosEnabled_def NtlmEnabled_def BasicAuthEnabled_def)

text \<open>What a successful \<open>Load\<close> returns, up to the address prefix.\<close>

lemma Load_Inr:
  assumes "Load rnd c = Inr c'"
  obtains d where "d = generate_keys rnd (disable_tokens (c\<lparr>Dashboard := derive_paths (Dashboard c)\<rparr>))"
    and "fatal_check d = None"
    and "c' = d\<lparr>Server := (Server d)\<lparr>sv_GatewayAddress := sv_GatewayAddress (Server c')\<rparr>\<rparr>"
    and "Contains (sv_GatewayAddress (Server c')) ''//''"
proof -
  let ?d = "generate_keys rnd (disable_tokens (c\<lparr>Dashboard := derive_paths (Dashboard c)\<rparr>))"
  have ok: "fatal_check ?d = None"
    and c': "c' = (if Contains (sv_GatewayAddress (Server ?d)) ''//'' then ?d
        else ?d\<lparr>Server := (Server ?d)\<lparr>sv_GatewayAddress := ''//'' @ sv_GatewayAddress (Server ?d)\<rparr>\<rparr>)"
    using assms by (auto simp: Load_def Let_def split: option.splits)
  have "Contains (''//'' @ s) ''//''" for s
    by (simp add: Contains_iff_sublist)
  then show ?thesis using that [of ?d] ok c' by (cases "Contains (sv_GatewayAddress (Server ?d)) ''//''") auto
qed

text \<open>
  C14: A configuration that \<open>Load\<close> returns is safe to run: token authentication is on exactly
  when OpenID is, user tokens only then; every generated or configured session and PAA key
  has 32 characters (when random strings do); basic authentication has TLS, Kerberos a keytab
  and no NTLM beside it, header authentication a user header and a trusted proxy; and the
  gateway address has its slashes.
\<close>

theorem Load_safe:
  assumes "Load rnd c = Inr c'" and "\<And>i. length (rnd i) = 32"
  shows "cap_TokenAuth (Caps c') = OpenIDEnabled (Server c')
       \<and> (se_EnableUserToken (Security c') \<longrightarrow> OpenIDEnabled (Server c'))
       \<and> length (se_PAATokenEncryptionKey (Security c')) = 32 \<and> length (se_PAATokenSigningKey (Security c')) = 32
       \<and> length (sv_SessionKey (Server c')) = 32 \<and> length (sv_SessionEncryptionKey (Server c')) = 32
       \<and> (BasicAuthEnabled (Server c') \<longrightarrow> sv_Tls (Server c') \<noteq> ''disable'')
       \<and> (KerberosEnabled (Server c') \<longrightarrow> kb_Keytab (Kerberos c') \<noteq> [] \<and> \<not> NtlmEnabled (Server c'))
       \<and> (HeaderEnabled (Server c') \<longrightarrow> hd_UserHeader (Header c') \<noteq> []
            \<and> (\<exists>cidr \<in> set (sv_TrustedProxyCIDRs (Server c')). TrimSpace cidr \<noteq> [] \<and> ParseCIDR (TrimSpace cidr) \<noteq> None))
       \<and> Contains (sv_GatewayAddress (Server c')) ''//''"
proof -
  obtain d where d: "d = generate_keys rnd (disable_tokens (c\<lparr>Dashboard := derive_paths (Dashboard c)\<rparr>))"
    and ok: "fatal_check d = None"
    and c': "c' = d\<lparr>Server := (Server d)\<lparr>sv_GatewayAddress := sv_GatewayAddress (Server c')\<rparr>\<rparr>"
    and slashes: "Contains (sv_GatewayAddress (Server c')) ''//''"
    using assms(1) by (rule Load_Inr)
  have same: "Caps c' = Caps d" "Security c' = Security d" "Kerberos c' = Kerberos d" "Header c' = Header d"
    "sv_Authentication (Server c') = sv_Authentication (Server d)" "sv_Tls (Server c') = sv_Tls (Server d)"
    "sv_TrustedProxyCIDRs (Server c') = sv_TrustedProxyCIDRs (Server d)"
    "sv_SessionKey (Server c') = sv_SessionKey (Server d)"
    "sv_SessionEncryptionKey (Server c') = sv_SessionEncryptionKey (Server d)"
    by (subst c', simp)+
  have modes: "OpenIDEnabled (Server c') = OpenIDEnabled (Server d)" "HeaderEnabled (Server c') = HeaderEnabled (Server d)"
    "KerberosEnabled (Server c') = KerberosEnabled (Server d)" "NtlmEnabled (Server c') = NtlmEnabled (Server d)"
    "BasicAuthEnabled (Server c') = BasicAuthEnabled (Server d)"
    using mode_simps same(5) by blast+
  have keys: "length (se_PAATokenEncryptionKey (Security d)) = 32" "length (se_PAATokenSigningKey (Security d)) = 32"
    "length (sv_SessionKey (Server d)) = 32" "length (sv_SessionEncryptionKey (Server d)) = 32"
    using assms(2) by (simp_all add: d generate_keys_def Let_def length_key_or_random)
  have tok: "\<not> OpenIDEnabled (Server d) \<longrightarrow> \<not> cap_TokenAuth (Caps d) \<and> \<not> se_EnableUserToken (Security d)"
    using mode_simps(1) [of "Server d" "Server (disable_tokens (c\<lparr>Dashboard := derive_paths (Dashboard c)\<rparr>))"]
    by (auto simp: d generate_keys_simps disable_tokens_def)
  have val: "Validate_conf d = None" using ok by (auto simp: fatal_check_def split: if_splits)
  then have cidrs: "first_bad_cidr (sv_TrustedProxyCIDRs (Server d)) = None"
    and hdr: "HeaderEnabled (Server d) \<longrightarrow> hasTrustedProxyCIDR (sv_TrustedProxyCIDRs (Server d))"
    by (auto simp: Validate_conf_def split: option.splits if_splits)
  show ?thesis
    using ok tok keys cidrs hdr slashes
    by (auto simp: same modes fatal_check_def first_bad_cidr_None hasTrustedProxyCIDR_def split: if_splits)
qed

subsection \<open>A concrete configuration\<close>

definition demo_config :: Configuration where
  "demo_config =
     \<lparr>Server = \<lparr>sv_GatewayAddress = ''gw.example.com'', sv_Port = 443, sv_CertFile = [], sv_KeyFile = [],
        sv_Hosts = [], sv_HostSelection = ''roundrobin'', sv_SessionKey = [], sv_SessionEncryptionKey = [],
        sv_SessionStore = ''cookie'', sv_MaxSessionLength = 0, sv_SendBuf = 0, sv_ReceiveBuf = 0, sv_Tls = ''auto'',
        sv_Authentication = [''openid''], sv_AuthSocket = [], sv_BasicAuthTimeout = 5, sv_TrustedProxyCIDRs = [],
        sv_InternalDomains = [], sv_InternalDNSServer = [], sv_SecureCookies = False, sv_AllowTLSKeyLog = False,
        sv_EnableMetrics = False\<rparr>,
      OpenId = \<lparr>oi_ProviderUrl = [], oi_ClientId = [], oi_ClientSecret = [], oi_GroupsClaim = ''groups''\<rparr>,
      Dashboard = \<lparr>db_StorePath = ''data'', db_UploadDir = [], db_IconDir = [], db_AuthUsersPath = [],
        db_AuthHelperConfigPath = [], db_AdminGroups = [], db_MaxUploadSizeMb = 5, db_MaxTemplateUploads = 100,
        db_MaxIconUploads = 100, db_MaxTemplateUploadStorageMb = 100, db_MaxIconUploadStorageMb = 100\<rparr>,
      Kerberos = \<lparr>kb_Keytab = [], kb_Krb5Conf = []\<rparr>,
      Header = \<lparr>hd_UserHeader = [], hd_UserIdHeader = [], hd_EmailHeader = [], hd_DisplayNameHeader = []\<rparr>,
      Caps = \<lparr>cap_SmartCardAuth = False, cap_TokenAuth = True, cap_IdleTimeout = 0, cap_RedirectAll = False,
        cap_DisableRedirect = False, cap_EnableClipboard = True, cap_EnablePrinter = False, cap_EnablePort = False,
        cap_EnablePnp = False, cap_EnableDrive = False\<rparr>,
      Security = \<lparr>se_PAATokenEncryptionKey = [], se_PAATokenSigningKey = [], se_UserTokenEncryptionKey = [],
        se_UserTokenSigningKey = [], se_QueryTokenSigningKey = [], se_QueryTokenIssuer = [],
        se_VerifyClientIp = True, se_EnableUserToken = False\<rparr>,
      ClientOpts = \<lparr>cl_Defaults = [], cl_UsernameTemplate = [], cl_SplitUserDomain = False, cl_NoUsername = False,
        cl_SigningCert = [], cl_SigningKey = []\<rparr>\<rparr>"

lemma demo_fatal: "fatal_check (generate_keys (\<lambda>i. replicate 32 CHR ''k'') (disable_tokens
    (demo_config\<lparr>Dashboard := derive_paths (Dashboard demo_config)\<rparr>))) = None"
  by (simp add: demo_config_def generate_keys_def disable_tokens_def derive_paths_def fatal_check_def Validate_conf_def
      OpenIDEnabled_def HeaderEnabled_def KerberosEnabled_def NtlmEnabled_def BasicAuthEnabled_def Let_def
      maxUploadStorageMegabytes_def)

theorem Load_safe_witness:
  "\<exists>c'. Load (\<lambda>i. replicate 32 CHR ''k'') demo_config = Inr c' \<and> cap_TokenAuth (Caps c') = OpenIDEnabled (Server c')
        \<and> length (se_PAATokenSigningKey (Security c')) = 32 \<and> Contains (sv_GatewayAddress (Server c')) ''//''"
proof -
  have "\<exists>c'. Load (\<lambda>i. replicate 32 CHR ''k'') demo_config = Inr c'"
    using demo_fatal by (simp add: Load_def Let_def)
  then obtain c' where c': "Load (\<lambda>i. replicate 32 CHR ''k'') demo_config = Inr c'" by blast
  then show ?thesis using Load_safe [OF c'] by auto
qed

end
