(* ===== verification/Policy.thy ===== *)
theory Policy
  imports Session Security Config
begin

text \<open>
  How \<open>main.go\<close> puts the parts together: the gateway's policy hooks and capabilities from the
  configuration, the routes, cookies and redirection policy that depend on it. The main
  theorem follows a connection from the PAA token to the dialled host.
\<close>

subsection \<open>Wiring\<close>

text \<open>The security functions as hooks of the processor, whose tunnel is the context's.\<close>

definition cookie_hook :: "jose \<Rightarrow> globals \<Rightarrow> instant \<Rightarrow> string \<Rightarrow> hook" where
  "cookie_hook J G now uuid = (\<lambda>ctx t tok.
     case sec_CheckPAACookie J G now uuid (Some t) tok of
       (ok, None) \<Rightarrow> Ret (ok, t)
     | (ok, Some t') \<Rightarrow> Ret (ok, t'))"

definition host_hook :: "(Ctx \<Rightarrow> Tunnel option \<Rightarrow> string \<Rightarrow> bool go) \<Rightarrow> hook" where
  "host_hook f = (\<lambda>ctx t host. go_bind (f ctx (Some t) host) (\<lambda>ok. Ret (ok, t)))"

definition buildGateway :: "jose \<Rightarrow> globals \<Rightarrow> instant \<Rightarrow> string \<Rightarrow> Configuration \<Rightarrow> bool \<Rightarrow> Gateway" where
  "buildGateway J G now uuid conf tokenAuth =
     \<lparr>gwRedirectFlags =
        \<lparr>Clipboard = cap_EnableClipboard (Caps conf), Port = cap_EnablePort (Caps conf),
         Drive = cap_EnableDrive (Caps conf), Printer = cap_EnablePrinter (Caps conf),
         Pnp = cap_EnablePnp (Caps conf), DisableAll = cap_DisableRedirect (Caps conf),
         EnableAll = cap_RedirectAll (Caps conf)\<rparr>,
      IdleTimeout = cap_IdleTimeout (Caps conf),
      SmartCardAuth = cap_SmartCardAuth (Caps conf),
      TokenAuth = tokenAuth,
      ReceiveBuf = sv_ReceiveBuf (Server conf),
      SendBuf = sv_SendBuf (Server conf),
      CheckPAACookie = (if tokenAuth then Some (cookie_hook J G now uuid) else None),
      CheckClientName = None,
      CheckHost = (if tokenAuth then Some (host_hook (CheckSession G None))
                   else Some (host_hook (\<lambda>ctx. sec_CheckHost G)))\<rparr>"

definition shouldRegisterTokenGatewayRoute :: "Configuration \<Rightarrow> bool" where
  "shouldRegisterTokenGatewayRoute conf \<longleftrightarrow>
     cap_TokenAuth (Caps conf) \<and> \<not> KerberosEnabled (Server conf) \<and> \<not> BasicAuthEnabled (Server conf)
     \<and> \<not> NtlmEnabled (Server conf) \<and> OpenIDEnabled (Server conf)"

definition secureCookiesForConfig :: "Configuration \<Rightarrow> bool" where
  "secureCookiesForConfig conf =
     (if sv_Tls (Server conf) \<noteq> ''disable'' then True else sv_SecureCookies (Server conf))"

definition configureTLSKeyLog :: "Configuration \<Rightarrow> string \<Rightarrow> bool \<Rightarrow> bool \<times> bool" where
  "configureTLSKeyLog conf keyLogPath opened =
     (if keyLogPath = [] then (True, False)
      else if \<not> sv_AllowTLSKeyLog (Server conf) then (False, False)
      else if \<not> opened then (False, False)
      else (True, True))"

definition megabytesToBytes :: "int \<Rightarrow> i64" where
  "megabytesToBytes v = word_of_int v * 1024 * 1024"

definition authHelperConfigPath :: "string \<Rightarrow> Configuration \<Rightarrow> string" where
  "authHelperConfigPath env_path conf =
     (let runtimePath = TrimSpace env_path
      in if runtimePath \<noteq> [] then runtimePath else db_AuthHelperConfigPath (Dashboard conf))"

subsection \<open>From the token to the dialled host\<close>

lemma remote_simps [proc_simps]:
  "TargetServer (tunnel (tunnel_Read E ms p)) = TargetServer (tunnel p)"
  "RemoteAddr (tunnel (tunnel_Read E ms p)) = RemoteAddr (tunnel p)"
  by (induction ms arbitrary: p) (simp_all add: tunnel_Read_def Let_def)

lemma remote_simps2 [proc_simps]:
  "RemoteAddr (tunnel (tunnel_Write E pkt p)) = RemoteAddr (tunnel p)"
  "RemoteAddr (tunnel (send_tunnelAuthResponse E c p)) = RemoteAddr (tunnel p)"
  by (simp_all add: tunnel_Write_def send_tunnelAuthResponse_def split_def Let_def proc_simps)

text \<open>A cookie that is a valid token for a server and a client address.\<close>

definition grants :: "jose \<Rightarrow> globals \<Rightarrow> instant \<Rightarrow> string \<Rightarrow> string \<Rightarrow> string \<Rightarrow> bool" where
  "grants J G now ck server addr \<longleftrightarrow>
     (\<exists>standard custom. cookie_claims J G ck = Some (standard, custom) \<and> Validate J standard ''rdpgw'' now
        \<and> RemoteServer custom = server \<and> ClientIP custom = addr)"

definition comes_from :: "globals \<Rightarrow> Ctx \<Rightarrow> string \<Rightarrow> bool" where
  "comes_from G ctx addr \<longleftrightarrow>
     (VerifyClientIP G \<longrightarrow> (\<exists>u. ctxIdentity ctx = Some u \<and> GetAttribute u AttrClientIp = Some (AString addr)))"

definition bound_inv :: "jose \<Rightarrow> globals \<Rightarrow> instant \<Rightarrow> Ctx \<Rightarrow> Processor \<Rightarrow> bool" where
  "bound_inv J G now ctx p \<longleftrightarrow>
     (pstate p \<in> {SERVER_STATE_TUNNEL_CREATE, SERVER_STATE_TUNNEL_AUTHORIZE} \<longrightarrow>
        (\<exists>ck. EvCookie ck True \<in> set (ptrace p)
              \<and> grants J G now ck (TargetServer (tunnel p)) (RemoteAddr (tunnel p))))
     \<and> (\<forall>h ok. EvDial h ok \<in> set (ptrace p) \<longrightarrow>
          (\<exists>ck addr. EvCookie ck True \<in> set (ptrace p) \<and> grants J G now ck h addr \<and> comes_from G ctx addr))"

lemma bound_quiet:
  assumes "bound_inv J G now ctx p" and "pstate p' = pstate p"
    and "TargetServer (tunnel p') = TargetServer (tunnel p)" and "RemoteAddr (tunnel p') = RemoteAddr (tunnel p)"
    and "set (ptrace p) \<subseteq> set (ptrace p')" and "\<And>h ok. EvDial h ok \<in> set (ptrace p') \<Longrightarrow> EvDial h ok \<in> set (ptrace p)"
  shows "bound_inv J G now ctx p'"
  using assms unfolding bound_inv_def by (metis subset_iff)

text \<open>A new phase in which the tunnel is not bound leaves only the dials to account for.\<close>

lemma bound_unbound:
  assumes "bound_inv J G now ctx p" and "pstate p' \<notin> {SERVER_STATE_TUNNEL_CREATE, SERVER_STATE_TUNNEL_AUTHORIZE}"
    and "set (ptrace p) \<subseteq> set (ptrace p')" and "\<And>h ok. EvDial h ok \<in> set (ptrace p') \<Longrightarrow> EvDial h ok \<in> set (ptrace p)"
  shows "bound_inv J G now ctx p'"
  using assms unfolding bound_inv_def by (metis subset_iff)

lemma bound_new:
  assumes inv: "bound_inv J G now ctx p" and tr: "set (ptrace p) \<subseteq> set (ptrace p')"
    and here: "pstate p' \<in> {SERVER_STATE_TUNNEL_CREATE, SERVER_STATE_TUNNEL_AUTHORIZE} \<Longrightarrow>
        \<exists>ck. EvCookie ck True \<in> set (ptrace p') \<and> grants J G now ck (TargetServer (tunnel p')) (RemoteAddr (tunnel p'))"
    and dials: "\<And>h ok. EvDial h ok \<in> set (ptrace p') \<Longrightarrow> EvDial h ok \<in> set (ptrace p) \<or>
        (\<exists>ck addr. EvCookie ck True \<in> set (ptrace p') \<and> grants J G now ck h addr \<and> comes_from G ctx addr)"
  shows "bound_inv J G now ctx p'"
proof -
  have "\<exists>ck addr. EvCookie ck True \<in> set (ptrace p') \<and> grants J G now ck h addr \<and> comes_from G ctx addr"
    if "EvDial h ok \<in> set (ptrace p')" for h ok
    using dials [OF that] inv tr unfolding bound_inv_def by (meson subsetD)
  then show ?thesis using here unfolding bound_inv_def by blast
qed

lemma cookie_hook_accepts:
  assumes "cookie_hook J G now uuid ctx t tok = Ret (True, t')"
  shows "grants J G now tok (TargetServer t') (RemoteAddr t')"
proof -
  obtain tun' where tun': "sec_CheckPAACookie J G now uuid (Some t) tok = (True, tun')"
    and t': "t' = (case tun' of None \<Rightarrow> t | Some t' \<Rightarrow> t')"
    using assms by (auto simp: cookie_hook_def split: prod.splits option.splits)
  show ?thesis
    by (rule cookie_accepted [OF tun']) (auto simp: t' grants_def)
qed

lemma CheckSession_admits:
  assumes "CheckSession G None ctx (Some t) host = Ret True"
  shows "TargetServer t = host \<and> comes_from G ctx (RemoteAddr t)"
  using assms by (auto simp: CheckSession_def comes_from_def go_bind_eq_Ret split: if_splits option.splits)

lemma bound_create:
  assumes inv: "bound_inv J G now ctx p" and "CheckPAACookie (gw p) = Some (cookie_hook J G now uuid)"
    and run: "handle_tunnel_create E ctx p d = Ret (p', v)"
  shows "bound_inv J G now ctx p'"
proof (cases "pstate p = SERVER_STATE_HANDSHAKE")
  case False
  then show ?thesis using run by (auto simp: handle_tunnel_create_def proc_simps intro!: bound_quiet [OF inv])
next
  case True
  let ?ck = "snd (tunnelRequest d)"
  obtain ok q where q: "run_hook (Some (cookie_hook J G now uuid)) EvCookie ctx ?ck p = Ret (ok, q)"
    and rest: "after_cookie E ok q = Ret (p', v)"
    using create_split [OF True run] assms(2) by metis
  obtain t where hook: "cookie_hook J G now uuid ctx (tunnel p) ?ck = Ret (ok, t)"
    and q': "q = emit (EvCookie ?ck ok) (p\<lparr>tunnel := t\<rparr>)"
    using run_hook_Some [OF q] .
  note rest = rest [unfolded after_cookie_def q']
  show ?thesis
  proof (cases ok)
    case False
    then show ?thesis using rest True
      by (intro bound_unbound [OF inv]) (auto simp: proc_simps server_state_defs split: if_splits)
  next
    case ok: True
    then have "grants J G now ?ck (TargetServer t) (RemoteAddr t)"
      using cookie_hook_accepts hook by simp
    moreover have "p' = (tunnel_Write E (tunnelResponse ERROR_SUCCESS) (emit (EvCookie ?ck True) (p\<lparr>tunnel := t\<rparr>)))
        \<lparr>pstate := SERVER_STATE_TUNNEL_CREATE\<rparr>"
      using rest ok by simp
    ultimately show ?thesis
      by (intro bound_new [OF inv]) (auto simp: proc_simps tunnel_Write_def Let_def)
  qed
qed

lemma bound_channel:
  assumes inv: "bound_inv J G now ctx p" and "CheckHost (gw p) = Some (host_hook (CheckSession G None))"
    and run: "handle_channel_create E ctx p d = Ret (p', v)"
  shows "bound_inv J G now ctx p'"
proof (cases "pstate p = SERVER_STATE_TUNNEL_AUTHORIZE")
  case False
  then show ?thesis using run by (auto simp: handle_channel_create_def proc_simps intro!: bound_quiet [OF inv])
next
  case True
  let ?h = "JoinHostPort (fst (channelRequest d)) (Itoa (unat (snd (channelRequest d))))"
  obtain ok q where q: "run_hook (Some (host_hook (CheckSession G None))) EvHost ctx ?h p = Ret (ok, q)"
    and rest: "after_host E ?h ok q = Ret (p', v)"
    using channel_split [OF True run] assms(2) by metis
  have check: "CheckSession G None ctx (Some (tunnel p)) ?h = Ret ok" and q': "q = emit (EvHost ?h ok) p"
    using run_hook_Some [OF q] by (auto simp: host_hook_def go_bind_eq_Ret)
  note rest = rest [unfolded after_host_def q']
  obtain ck where ck: "EvCookie ck True \<in> set (ptrace p)"
    and bound: "grants J G now ck (TargetServer (tunnel p)) (RemoteAddr (tunnel p))"
    using inv True unfolding bound_inv_def by blast
  show ?thesis
  proof (cases ok)
    case False
    then show ?thesis using rest by (auto simp: proc_simps intro!: bound_quiet [OF inv])
  next
    case ok: True
    then have here: "grants J G now ck ?h (RemoteAddr (tunnel p)) \<and> comes_from G ctx (RemoteAddr (tunnel p))"
      using CheckSession_admits [of G ctx "tunnel p" ?h] check bound by simp
    have tr: "set (ptrace p) \<subseteq> set (ptrace p')"
      and dials: "\<And>h up. EvDial h up \<in> set (ptrace p') \<Longrightarrow> EvDial h up \<in> set (ptrace p) \<or> h = ?h"
      using rest ok by (auto simp: connect_server_def Let_def proc_simps split: if_splits)
    have st: "pstate p' \<in> {SERVER_STATE_TUNNEL_CREATE, SERVER_STATE_TUNNEL_AUTHORIZE} \<longrightarrow>
        TargetServer (tunnel p') = TargetServer (tunnel p) \<and> RemoteAddr (tunnel p') = RemoteAddr (tunnel p)"
      using rest ok by (auto simp: connect_server_def Let_def proc_simps server_state_defs split: if_splits)
    have ck': "EvCookie ck True \<in> set (ptrace p')" using ck tr by blast
    show ?thesis
    proof (rule bound_new [OF inv tr])
      assume "pstate p' \<in> {SERVER_STATE_TUNNEL_CREATE, SERVER_STATE_TUNNEL_AUTHORIZE}"
      then show "\<exists>ck. EvCookie ck True \<in> set (ptrace p')
          \<and> grants J G now ck (TargetServer (tunnel p')) (RemoteAddr (tunnel p'))"
        using ck' bound st by auto
    next
      fix h up assume "EvDial h up \<in> set (ptrace p')"
      then show "EvDial h up \<in> set (ptrace p) \<or>
          (\<exists>ck addr. EvCookie ck True \<in> set (ptrace p') \<and> grants J G now ck h addr \<and> comes_from G ctx addr)"
        using dials ck' here by blast
    qed
  qed
qed

lemma bound_message:
  assumes inv: "bound_inv J G now ctx p" and g: "hooks (gw p) = hooks (buildGateway J G now uuid conf True)"
    and run: "process_message E ctx p m = Ret (p', v)"
  shows "bound_inv J G now ctx p'"
proof -
  have hk: "CheckPAACookie (gw p) = Some (cookie_hook J G now uuid)" "CheckClientName (gw p) = None"
      "CheckHost (gw p) = Some (host_hook (CheckSession G None))"
    using g by (simp_all add: hooks_eq buildGateway_def)
  show ?thesis
    using run
  proof (cases rule: process_message_cases)
    case skip
    then show ?thesis using inv by simp
  next
    case handshake
    show ?thesis
    proof (cases "pstate p' = pstate p")
      case True
      then show ?thesis using handshake
        by (auto simp: handle_handshake_def proc_simps intro!: bound_quiet [OF inv] split: if_splits option.splits prod.splits)
    next
      case False
      then show ?thesis using handshake
        by (intro bound_unbound [OF inv])
           (auto simp: handle_handshake_def proc_simps server_state_defs split: if_splits option.splits prod.splits)
    qed
  next
    case create
    then show ?thesis using bound_create [OF inv hk(1)] by blast
  next
    case auth
    have keep: "TargetServer (tunnel p') = TargetServer (tunnel p)" "RemoteAddr (tunnel p') = RemoteAddr (tunnel p)"
        "pstate p' = pstate p \<or> pstate p = SERVER_STATE_TUNNEL_CREATE" "\<exists>pkt. ptrace p' = ptrace p @ [EvSend pkt]"
      using auth by (auto simp: handle_tunnel_auth_def run_hook_def hk(2) Let_def proc_simps split: if_splits)
    then have tr: "set (ptrace p) \<subseteq> set (ptrace p')" "\<And>h ok. EvDial h ok \<in> set (ptrace p') \<Longrightarrow> EvDial h ok \<in> set (ptrace p)"
      by auto
    show ?thesis
    proof (rule bound_new [OF inv tr(1)])
      assume "pstate p' \<in> {SERVER_STATE_TUNNEL_CREATE, SERVER_STATE_TUNNEL_AUTHORIZE}"
      then have "pstate p \<in> {SERVER_STATE_TUNNEL_CREATE, SERVER_STATE_TUNNEL_AUTHORIZE}" using keep(3) by auto
      then show "\<exists>ck. EvCookie ck True \<in> set (ptrace p')
          \<and> grants J G now ck (TargetServer (tunnel p')) (RemoteAddr (tunnel p'))"
        using inv tr(1) unfolding keep(1,2) bound_inv_def by blast
    qed (use tr(2) in blast)
  next
    case channel
    then show ?thesis using bound_channel [OF inv hk(3)] by blast
  next
    case data
    show ?thesis
    proof (cases "pstate p < SERVER_STATE_CHANNEL_CREATE")
      case True
      then show ?thesis using data inv by (simp add: handle_data_def)
    next
      case False
      then show ?thesis using data
        by (intro bound_unbound [OF inv]) (auto simp: handle_data_def proc_simps server_state_defs split: option.splits)
    qed
  next
    case keepalive
    then show ?thesis using inv by (auto simp: handle_keepalive_def split: if_splits)
  next
    case close
    show ?thesis
    proof (cases "pstate p = SERVER_STATE_OPENED")
      case False
      then show ?thesis using close inv by (simp add: handle_close_def)
    next
      case True
      then show ?thesis using close
        by (intro bound_unbound [OF inv]) (auto simp: handle_close_def proc_simps server_state_defs)
    qed
  qed
qed

lemma bound_reachable:
  assumes "reachable E ctx (buildGateway J G now uuid conf True) t s"
  shows "bound_inv J G now ctx (sProc s)"
  using assms
proof (induction rule: reachable.induct)
  case reach_init
  show ?case by (simp add: bound_inv_def NewProcessor_def server_state_defs)
next
  case (reach_step s s')
  note inv = reach_step.IH
  from reach_step.hyps(2) show ?case
  proof (cases rule: session_step.cases)
    case (step_read ms)
    then show ?thesis by (auto simp: proc_simps intro!: bound_quiet [OF inv])
  next
    case (step_message m p' v)
    have "hooks (gw (sProc s)) = hooks (buildGateway J G now uuid conf True)"
      using session_inv_reachable [OF reach_step.hyps(1)] unfolding session_inv_def session_inv_at_def by blast
    then show ?thesis using bound_message [OF inv] step_message by simp
  next
    case step_failed
    then show ?thesis using inv by simp
  next
    case (step_forward conn r)
    then show ?thesis
      by (auto simp: forward_read_def proc_simps intro!: bound_quiet [OF inv] split: option.splits)
  qed
qed

text \<open>
  C1: End to end: through the gateway that token authentication registers, every host that is
  ever dialled, in any session and under any interleaving, is the server named in a PAA token
  that the client presented in this session, that opens and verifies under the gateway's keys
  and was valid; and, when addresses are verified, the request came from the client address the
  token was issued to.
\<close>

theorem token_gateway_dials_token_host:
  assumes "reachable E ctx (buildGateway J G now uuid conf True) t s"
    and "EvDial h ok \<in> set (ptrace (sProc s))"
  shows "\<exists>ck standard custom. EvCookie ck True \<in> set (ptrace (sProc s))
           \<and> cookie_claims J G ck = Some (standard, custom) \<and> Validate J standard ''rdpgw'' now
           \<and> RemoteServer custom = h
           \<and> (VerifyClientIP G \<longrightarrow> (\<exists>u. ctxIdentity ctx = Some u
                \<and> GetAttribute u AttrClientIp = Some (AString (ClientIP custom))))"
  using bound_reachable [OF assms(1)] assms(2)
  unfolding bound_inv_def grants_def comes_from_def by metis

text \<open>The same for the direct gateway, whose host policy is the managed inventory.\<close>

definition listed_inv :: "globals \<Rightarrow> Tunnel \<Rightarrow> Processor \<Rightarrow> bool" where
  "listed_inv G t p \<longleftrightarrow> tUser (tunnel p) = tUser t
     \<and> (\<forall>h. EvHost h True \<in> set (ptrace p) \<longrightarrow> sec_CheckHost G (Some t) h = Ret True)"

lemma sec_CheckHost_user: "tUser t = tUser t' \<Longrightarrow> sec_CheckHost G (Some t) h = sec_CheckHost G (Some t') h"
  by (auto simp: sec_CheckHost_def split: option.split)

lemma listed_quiet:
  assumes "listed_inv G t p" and "tUser (tunnel p') = tUser (tunnel p)"
    and "\<And>h. EvHost h True \<in> set (ptrace p') \<Longrightarrow> EvHost h True \<in> set (ptrace p)"
  shows "listed_inv G t p'"
  using assms unfolding listed_inv_def by metis

lemma listed_channel:
  assumes inv: "listed_inv G t p" and "CheckHost (gw p) = Some (host_hook (\<lambda>ctx. sec_CheckHost G))"
    and run: "handle_channel_create E ctx p d = Ret (p', v)"
  shows "listed_inv G t p'"
proof (cases "pstate p = SERVER_STATE_TUNNEL_AUTHORIZE")
  case False
  then show ?thesis using run by (auto simp: handle_channel_create_def proc_simps intro!: listed_quiet [OF inv])
next
  case True
  let ?h = "JoinHostPort (fst (channelRequest d)) (Itoa (unat (snd (channelRequest d))))"
  obtain ok q where q: "run_hook (Some (host_hook (\<lambda>ctx. sec_CheckHost G))) EvHost ctx ?h p = Ret (ok, q)"
    and rest: "after_host E ?h ok q = Ret (p', v)"
    using channel_split [OF True run] assms(2) by metis
  have check: "sec_CheckHost G (Some (tunnel p)) ?h = Ret ok" and q': "q = emit (EvHost ?h ok) p"
    using run_hook_Some [OF q] by (auto simp: host_hook_def go_bind_eq_Ret)
  have user: "tUser (tunnel p') = tUser (tunnel p)"
    and hosts: "\<And>h. EvHost h True \<in> set (ptrace p') \<Longrightarrow> EvHost h True \<in> set (ptrace p) \<or> h = ?h \<and> ok"
    using rest q' by (auto simp: after_host_def connect_server_def Let_def proc_simps split: if_splits)
  have "ok \<Longrightarrow> sec_CheckHost G (Some t) ?h = Ret True"
    using inv check sec_CheckHost_user [of "tunnel p" t G ?h] unfolding listed_inv_def by simp
  then show ?thesis
    using inv user hosts unfolding listed_inv_def by metis
qed

lemma listed_message:
  assumes inv: "listed_inv G t p" and g: "hooks (gw p) = hooks (buildGateway J G now uuid conf False)"
    and run: "process_message E ctx p m = Ret (p', v)"
  shows "listed_inv G t p'"
proof -
  have hk: "CheckPAACookie (gw p) = None" "CheckClientName (gw p) = None"
      "CheckHost (gw p) = Some (host_hook (\<lambda>ctx. sec_CheckHost G))"
    using g by (simp_all add: hooks_eq buildGateway_def)
  show ?thesis
    using run
  proof (cases rule: process_message_cases)
    case skip
    then show ?thesis using inv by simp
  next
    case handshake
    then show ?thesis
      by (auto simp: handle_handshake_def proc_simps intro!: listed_quiet [OF inv] split: if_splits option.splits prod.splits)
  next
    case create
    then show ?thesis
      by (auto simp: handle_tunnel_create_def run_hook_def hk proc_simps intro!: listed_quiet [OF inv] split: if_splits prod.splits)
  next
    case auth
    then show ?thesis
      by (auto simp: handle_tunnel_auth_def run_hook_def hk Let_def proc_simps intro!: listed_quiet [OF inv] split: if_splits)
  next
    case channel
    then show ?thesis using listed_channel [OF inv hk(3)] by blast
  next
    case data
    then show ?thesis by (auto simp: handle_data_def proc_simps intro!: listed_quiet [OF inv] split: if_splits option.splits)
  next
    case keepalive
    then show ?thesis using inv by (auto simp: handle_keepalive_def split: if_splits)
  next
    case close
    then show ?thesis by (auto simp: handle_close_def proc_simps intro!: listed_quiet [OF inv] split: if_splits)
  qed
qed

lemma listed_reachable:
  assumes "reachable E ctx (buildGateway J G now uuid conf False) t s"
  shows "listed_inv G t (sProc s)"
  using assms
proof (induction rule: reachable.induct)
  case reach_init
  show ?case by (simp add: listed_inv_def NewProcessor_def)
next
  case (reach_step s s')
  note inv = reach_step.IH
  from reach_step.hyps(2) show ?case
  proof (cases rule: session_step.cases)
    case (step_read ms)
    then show ?thesis by (auto simp: proc_simps intro!: listed_quiet [OF inv])
  next
    case (step_message m p' v)
    have "hooks (gw (sProc s)) = hooks (buildGateway J G now uuid conf False)"
      using session_inv_reachable [OF reach_step.hyps(1)] unfolding session_inv_def session_inv_at_def by blast
    then show ?thesis using listed_message [OF inv] step_message by simp
  next
    case step_failed
    then show ?thesis using inv by simp
  next
    case (step_forward conn r)
    then show ?thesis
      by (auto simp: forward_read_def proc_simps intro!: listed_quiet [OF inv] split: option.splits)
  qed
qed

lemma dial_has_approval:
  assumes "reachable E ctx g t s" and "EvDial h ok \<in> set (ptrace (sProc s))" and "CheckHost g \<noteq> None"
  shows "EvHost h True \<in> set (ptrace (sProc s))"
proof -
  obtain ph ck cn h' xs where "session_inv_at g (sRunning s) (sProc s) ph ck cn h' xs"
    using session_inv_reachable [OF assms(1)] unfolding session_inv_def by blast
  then have ctl: "control (ptrace (sProc s)) = approvals g ph ck cn h' @ xs" and ref: "refusal g ph ck cn h' xs"
    by (simp_all add: session_inv_at_def)
  have "EvDial h ok \<in> set (approvals g ph ck cn h' @ xs)"
    using assms(2) control_member [of "EvDial h ok" "ptrace (sProc s)"] by (simp add: ctl is_control_def)
  then have "EvHost h True \<in> set (control (ptrace (sProc s)))"
    using dial_in_approvals ref assms(3) by (simp add: ctl)
  then show ?thesis by (simp add: control_member is_control_def)
qed

text \<open>
  C2: Through the direct gateway (basic, NTLM, Kerberos) every host that is ever dialled comes
  from the managed inventory: some enabled address, with the authenticated user's name filled
  in, yields exactly that host; nobody without a name connects.
\<close>

theorem direct_gateway_dials_listed_host:
  assumes "reachable E ctx (buildGateway J G now uuid conf False) t s"
    and "EvDial h ok \<in> set (ptrace (sProc s))" and "tUser t = Some u"
  shows "UserName u \<noteq> [] \<and> HostSelection G \<noteq> ''signed''
       \<and> (\<exists>hosts tmpl. ManagedHostList G = Some (Some hosts) \<and> tmpl \<in> set hosts
            \<and> ResolvePreferredUsernameHost tmpl (UserName u) = Some h)"
proof -
  have "EvHost h True \<in> set (ptrace (sProc s))"
    using dial_has_approval [OF assms(1,2)] by (simp add: buildGateway_def)
  then have "sec_CheckHost G (Some t) h = Ret True"
    using listed_reachable [OF assms(1)] unfolding listed_inv_def by blast
  then show ?thesis
    using assms(3) by (auto simp: sec_CheckHost_def host_listed_iff split: option.splits if_splits)
qed

subsection \<open>Concrete runs of both gateways\<close>

text \<open>The four steps of a connection that is let through.\<close>

lemma run_handshake:
  assumes "pstate p = SERVER_STATE_INITIALIZED" and "tUser (tunnel p) \<noteq> None"
    and "handshakeRequest d = (ma, mi, ve, au)" and "matchAuth (gw p) au = Some caps"
  obtains q where "process_message E ctx p (msg_of PKT_TYPE_HANDSHAKE_REQUEST d) = Ret (q, Continue)"
    and "pstate q = SERVER_STATE_HANDSHAKE" and "gw q = gw p" and "tUser (tunnel q) = tUser (tunnel p)"
proof
  let ?q = "(tunnel_Write E (handshakeResponse ma mi caps ERROR_SUCCESS) p)\<lparr>pstate := SERVER_STATE_HANDSHAKE\<rparr>"
  show "process_message E ctx p (msg_of PKT_TYPE_HANDSHAKE_REQUEST d) = Ret (?q, Continue)"
    using assms by (simp add: process_message_def msg_of_def handle_handshake_def)
qed (simp_all add: proc_simps)

lemma run_create:
  assumes "pstate p = SERVER_STATE_HANDSHAKE" and "tunnelRequest d = (x, tok)"
    and "run_hook (CheckPAACookie (gw p)) EvCookie ctx tok p = Ret (True, p')"
  obtains q where "process_message E ctx p (msg_of PKT_TYPE_TUNNEL_CREATE d) = Ret (q, Continue)"
    and "pstate q = SERVER_STATE_TUNNEL_CREATE" and "gw q = gw p" and "tUser (tunnel q) = tUser (tunnel p')"
    and "TargetServer (tunnel q) = TargetServer (tunnel p')" and "RemoteAddr (tunnel q) = RemoteAddr (tunnel p')"
proof
  let ?q = "(tunnel_Write E (tunnelResponse ERROR_SUCCESS) p')\<lparr>pstate := SERVER_STATE_TUNNEL_CREATE\<rparr>"
  show "process_message E ctx p (msg_of PKT_TYPE_TUNNEL_CREATE d) = Ret (?q, Continue)"
    using assms by (simp add: process_message_def msg_of_def handle_tunnel_create_def wire_defs)
qed (use run_hook_Ret(2) [OF assms(3)] in \<open>simp_all add: proc_simps\<close>)

lemma run_auth:
  assumes "pstate p = SERVER_STATE_TUNNEL_CREATE" and "CheckClientName (gw p) = None"
  obtains q where "process_message E ctx p (msg_of PKT_TYPE_TUNNEL_AUTH d) = Ret (q, Continue)"
    and "pstate q = SERVER_STATE_TUNNEL_AUTHORIZE" and "hooks (gw q) = hooks (gw p)" and "tUser (tunnel q) = tUser (tunnel p)"
    and "TargetServer (tunnel q) = TargetServer (tunnel p)" and "RemoteAddr (tunnel q) = RemoteAddr (tunnel p)"
proof
  let ?q = "(send_tunnelAuthResponse E ERROR_SUCCESS p)\<lparr>pstate := SERVER_STATE_TUNNEL_AUTHORIZE\<rparr>"
  show "process_message E ctx p (msg_of PKT_TYPE_TUNNEL_AUTH d) = Ret (?q, Continue)"
    using assms by (simp add: process_message_def msg_of_def handle_tunnel_auth_def wire_defs run_hook_def Let_def)
qed (simp_all add: proc_simps)

lemma run_channel:
  assumes "pstate p = SERVER_STATE_TUNNEL_AUTHORIZE" and "channelRequest d = (server, port)"
    and "run_hook (CheckHost (gw p)) EvHost ctx (JoinHostPort server (Itoa (unat port))) p = Ret (True, p')"
    and "dial E (ptrace p') (JoinHostPort server (Itoa (unat port)))"
  obtains q where "process_message E ctx p (msg_of PKT_TYPE_CHANNEL_CREATE d) = Ret (q, Continue)"
    and "EvDial (JoinHostPort server (Itoa (unat port))) True \<in> set (ptrace q)"
proof
  let ?h = "JoinHostPort server (Itoa (unat port))"
  show "process_message E ctx p (msg_of PKT_TYPE_CHANNEL_CREATE d) = Ret (fst (connect_server E ?h p'), Continue)"
    using assms by (simp add: process_message_def msg_of_def handle_channel_create_def wire_defs Let_def connect_server_def)
  show "EvDial ?h True \<in> set (ptrace (fst (connect_server E ?h p')))"
    using assms(4) by (simp add: connect_server_def Let_def proc_simps)
qed

lemma message_reachable:
  assumes "reachable E ctx g t \<lparr>sRunning = True, sProc = p\<rparr>" and "process_message E ctx p m = Ret (q, Continue)"
  shows "reachable E ctx g t \<lparr>sRunning = True, sProc = q\<rparr>"
  using messages_reachable [OF assms(1), of "[m]" q Continue] assms(2) by simp

definition h_request :: "byte list" where
  "h_request = put_u8 1 @ put_u8 0 @ put_u16 1 @ put_u16 3 @ put_u16 2 @ [104, 0]"

definition h_cookie :: "byte list" where
  "h_cookie = put_u32 2 @ put_u16 1 @ put_u16 0 @ put_u16 8 @ [84, 0, 104, 0, 58, 0, 49, 0]"

lemma h_requests:
  "handshakeRequest (put_u8 0 @ put_u8 0 @ put_u16 0 @ put_u16 2) = (0, 0, 0, 2)"
  "tunnelRequest h_cookie = (2, ''Th:1'')" "channelRequest h_request = (''h'', 1)"
proof -
  have "decoded [84, 0, 104, 0, 58, 0, 49, 0] = ''Th:1''"
    by (simp add: decoded_def DecodeUTF16_def utf16_Decode1_def utf8_EncodeRune_def string_of_bytes_def Let_def
        unsigned_ucast_eq take_bit_eq_mod char_of_def bit_0)
  then show "tunnelRequest h_cookie = (2, ''Th:1'')"
    by (simp add: tunnelRequest_def h_cookie_def wire_simps wire_defs read_some_def)
qed (simp_all add: hello_requests h_request_def handshakeRequest_def wire_simps)

lemma h_host: "JoinHostPort ''h'' (Itoa (unat (1::u16))) = ''h:1''"
  by (simp add: JoinHostPort_def Itoa.simps digit_def char_of_def bit_0)

lemma token_connects:
  obtains p where "reachable all_up demo_ctx (buildGateway demo_jose demo_globals 0 ''u'' demo_config True) demo_tunnel
      \<lparr>sRunning = True, sProc = p\<rparr>" and "EvDial ''h:1'' True \<in> set (ptrace p)"
proof -
  let ?g = "buildGateway demo_jose demo_globals 0 ''u'' demo_config True"
  let ?R = "\<lambda>p. reachable all_up demo_ctx ?g demo_tunnel \<lparr>sRunning = True, sProc = p\<rparr>"
  let ?p = "NewProcessor ?g demo_tunnel"
  have user: "tUser (tunnel ?p) \<noteq> None" by (simp add: NewProcessor_def demo_tunnel_def)
  have auth: "matchAuth (gw ?p) 2 = Some 2"
    by (simp add: matchAuth_def NewProcessor_def buildGateway_def demo_config_def wire_defs Let_def)
  have st: "pstate ?p = SERVER_STATE_INITIALIZED" and gw0: "gw ?p = ?g" and user0: "tUser (tunnel ?p) = Some demo_user"
    by (simp_all add: NewProcessor_def demo_tunnel_def)
  obtain p1 where m1: "process_message all_up demo_ctx ?p (msg_of PKT_TYPE_HANDSHAKE_REQUEST
        (put_u8 0 @ put_u8 0 @ put_u16 0 @ put_u16 2)) = Ret (p1, Continue)"
    and st1: "pstate p1 = SERVER_STATE_HANDSHAKE" and gw1: "gw p1 = gw ?p" and user1: "tUser (tunnel p1) = tUser (tunnel ?p)"
    by (rule run_handshake [OF st user h_requests(1) auth])
  define t where "t = (tunnel p1)\<lparr>tUser := Some (SetUserName ''bob'' demo_user), TargetServer := ''h:1'', RemoteAddr := ''10.0.0.1''\<rparr>"
  have "tUser (tunnel p1) = Some demo_user" using user1 user0 by simp
  then have "sec_CheckPAACookie demo_jose demo_globals 0 ''u'' (Some (tunnel p1)) ''Th:1'' = (True, Some t)"
    by (simp add: sec_CheckPAACookie_def demo_jose_def demo_claims_def demo_custom_def minute_def Let_def t_def)
  then have cookie: "run_hook (CheckPAACookie (gw p1)) EvCookie demo_ctx ''Th:1'' p1
      = Ret (True, emit (EvCookie ''Th:1'' True) (p1\<lparr>tunnel := t\<rparr>))"
    unfolding gw1 gw0 by (simp add: run_hook_def buildGateway_def cookie_hook_def)
  obtain p2 where m2: "process_message all_up demo_ctx p1 (msg_of PKT_TYPE_TUNNEL_CREATE h_cookie) = Ret (p2, Continue)"
    and st2: "pstate p2 = SERVER_STATE_TUNNEL_CREATE" and gw2: "gw p2 = gw p1"
    and "tUser (tunnel p2) = tUser (tunnel (emit (EvCookie ''Th:1'' True) (p1\<lparr>tunnel := t\<rparr>)))"
    and tgt2: "TargetServer (tunnel p2) = TargetServer (tunnel (emit (EvCookie ''Th:1'' True) (p1\<lparr>tunnel := t\<rparr>)))"
    and adr2: "RemoteAddr (tunnel p2) = RemoteAddr (tunnel (emit (EvCookie ''Th:1'' True) (p1\<lparr>tunnel := t\<rparr>)))"
    by (rule run_create [OF st1 h_requests(2) cookie])
  have name: "CheckClientName (gw p2) = None" unfolding gw2 gw1 gw0 by (simp add: buildGateway_def)
  obtain p3 where m3: "process_message all_up demo_ctx p2 (msg_of PKT_TYPE_TUNNEL_AUTH []) = Ret (p3, Continue)"
    and st3: "pstate p3 = SERVER_STATE_TUNNEL_AUTHORIZE" and gw3: "hooks (gw p3) = hooks (gw p2)"
    and "tUser (tunnel p3) = tUser (tunnel p2)" and tgt3: "TargetServer (tunnel p3) = TargetServer (tunnel p2)"
    and adr3: "RemoteAddr (tunnel p3) = RemoteAddr (tunnel p2)"
    by (rule run_auth [OF st2 name])
  have "CheckSession demo_globals None demo_ctx (Some (tunnel p3)) ''h:1'' = Ret True"
    by (simp add: tgt3 adr3 tgt2 adr2 t_def proc_simps CheckSession_def demo_ctx_def demo_user_attrs)
  then have host: "run_hook (CheckHost (gw p3)) EvHost demo_ctx (JoinHostPort ''h'' (Itoa (unat (1::u16)))) p3
      = Ret (True, emit (EvHost ''h:1'' True) p3)"
    using gw3 unfolding h_host gw2 gw1 gw0 by (simp add: hooks_eq run_hook_def buildGateway_def host_hook_def)
  have up: "dial all_up (ptrace (emit (EvHost ''h:1'' True) p3)) (JoinHostPort ''h'' (Itoa (unat (1::u16))))"
    by (simp add: all_up_def)
  obtain p4 where m4: "process_message all_up demo_ctx p3 (msg_of PKT_TYPE_CHANNEL_CREATE h_request) = Ret (p4, Continue)"
    and dial: "EvDial (JoinHostPort ''h'' (Itoa (unat (1::u16)))) True \<in> set (ptrace p4)"
    by (rule run_channel [OF st3 h_requests(3) host up])
  have "?R p4"
    using message_reachable [OF message_reachable [OF message_reachable [OF message_reachable [OF reach_init m1] m2] m3] m4] .
  then show ?thesis using that dial unfolding h_host by blast
qed

theorem token_gateway_dials_token_host_witness:
  "\<exists>(p :: Processor) ck standard custom. EvCookie ck True \<in> set (ptrace p)
     \<and> cookie_claims demo_jose demo_globals ck = Some (standard, custom) \<and> RemoteServer custom = ''h:1''"
proof -
  obtain p where "reachable all_up demo_ctx (buildGateway demo_jose demo_globals 0 ''u'' demo_config True) demo_tunnel
      \<lparr>sRunning = True, sProc = p\<rparr>" and "EvDial ''h:1'' True \<in> set (ptrace p)" by (rule token_connects)
  from token_gateway_dials_token_host [OF this(1)] this(2) show ?thesis by fastforce
qed

definition direct_globals :: globals where
  "direct_globals = demo_globals\<lparr>ManagedHostList := Some (Some [''h:1''])\<rparr>"

lemma direct_connects:
  obtains p where "reachable all_up demo_ctx (buildGateway demo_jose direct_globals 0 ''u'' demo_config False) demo_tunnel
      \<lparr>sRunning = True, sProc = p\<rparr>" and "EvDial ''h:1'' True \<in> set (ptrace p)"
proof -
  let ?g = "buildGateway demo_jose direct_globals 0 ''u'' demo_config False"
  let ?R = "\<lambda>p. reachable all_up demo_ctx ?g demo_tunnel \<lparr>sRunning = True, sProc = p\<rparr>"
  let ?p = "NewProcessor ?g demo_tunnel"
  have st: "pstate ?p = SERVER_STATE_INITIALIZED" and gw0: "gw ?p = ?g" and user0: "tUser (tunnel ?p) = Some demo_user"
    and user: "tUser (tunnel ?p) \<noteq> None"
    by (simp_all add: NewProcessor_def demo_tunnel_def)
  have auth: "matchAuth (gw ?p) 0 = Some 0"
    by (simp add: matchAuth_def NewProcessor_def buildGateway_def demo_config_def wire_defs Let_def)
  obtain p1 where m1: "process_message all_up demo_ctx ?p (msg_of PKT_TYPE_HANDSHAKE_REQUEST []) = Ret (p1, Continue)"
    and st1: "pstate p1 = SERVER_STATE_HANDSHAKE" and gw1: "gw p1 = gw ?p" and user1: "tUser (tunnel p1) = tUser (tunnel ?p)"
    by (rule run_handshake [OF st user hello_requests(1) auth])
  have cookie: "run_hook (CheckPAACookie (gw p1)) EvCookie demo_ctx [] p1 = Ret (True, p1)"
    unfolding gw1 gw0 by (simp add: run_hook_def buildGateway_def)
  obtain p2 where m2: "process_message all_up demo_ctx p1 (msg_of PKT_TYPE_TUNNEL_CREATE []) = Ret (p2, Continue)"
    and st2: "pstate p2 = SERVER_STATE_TUNNEL_CREATE" and gw2: "gw p2 = gw p1"
    and user2: "tUser (tunnel p2) = tUser (tunnel p1)"
    by (rule run_create [OF st1 hello_requests(2) cookie])
  have name: "CheckClientName (gw p2) = None" unfolding gw2 gw1 gw0 by (simp add: buildGateway_def)
  obtain p3 where m3: "process_message all_up demo_ctx p2 (msg_of PKT_TYPE_TUNNEL_AUTH []) = Ret (p3, Continue)"
    and st3: "pstate p3 = SERVER_STATE_TUNNEL_AUTHORIZE" and gw3: "hooks (gw p3) = hooks (gw p2)"
    and user3: "tUser (tunnel p3) = tUser (tunnel p2)"
    by (rule run_auth [OF st2 name])
  have listed: "ResolvePreferredUsernameHost ''h:1'' ''bob'' = Some ''h:1''" by code_simp
  have "tUser (tunnel p3) = Some demo_user" using user3 user2 user1 user0 by simp
  then have "sec_CheckHost direct_globals (Some (tunnel p3)) ''h:1'' = Ret True"
    using listed by (simp add: sec_CheckHost_def direct_globals_def demo_globals_def demo_user_attrs)
  then have host: "run_hook (CheckHost (gw p3)) EvHost demo_ctx (JoinHostPort ''h'' (Itoa (unat (1::u16)))) p3
      = Ret (True, emit (EvHost ''h:1'' True) p3)"
    using gw3 unfolding h_host gw2 gw1 gw0 by (simp add: hooks_eq run_hook_def buildGateway_def host_hook_def)
  have up: "dial all_up (ptrace (emit (EvHost ''h:1'' True) p3)) (JoinHostPort ''h'' (Itoa (unat (1::u16))))"
    by (simp add: all_up_def)
  obtain p4 where m4: "process_message all_up demo_ctx p3 (msg_of PKT_TYPE_CHANNEL_CREATE h_request) = Ret (p4, Continue)"
    and dial: "EvDial (JoinHostPort ''h'' (Itoa (unat (1::u16)))) True \<in> set (ptrace p4)"
    by (rule run_channel [OF st3 h_requests(3) host up])
  have "?R p4"
    using message_reachable [OF message_reachable [OF message_reachable [OF message_reachable [OF reach_init m1] m2] m3] m4] .
  then show ?thesis using that dial unfolding h_host by blast
qed

theorem direct_gateway_dials_listed_host_witness:
  "\<exists>tmpl. tmpl \<in> {''h:1''} \<and> ResolvePreferredUsernameHost tmpl ''bob'' = Some ''h:1''"
proof -
  obtain p where r: "reachable all_up demo_ctx (buildGateway demo_jose direct_globals 0 ''u'' demo_config False) demo_tunnel
      \<lparr>sRunning = True, sProc = p\<rparr>" and d: "EvDial ''h:1'' True \<in> set (ptrace p)" by (rule direct_connects)
  have "tUser demo_tunnel = Some demo_user" by (simp add: demo_tunnel_def)
  from direct_gateway_dials_listed_host [OF r _ this, of "''h:1''" True] d show ?thesis
    by (auto simp: direct_globals_def demo_user_attrs)
qed

end
