(* ===== verification/Go_Http.thy ===== *)
theory Go_Http
  imports Go_Net
begin

text \<open>
  Requests as the handlers of the gateway see them, and the parts of \<open>net/url\<close> they use.
  Parsing a URL is the parameter \<open>url_parse\<close>; taking host name and port from its host field is
  written out, as \<open>url.URL.Hostname\<close> and \<open>Port\<close> do it. A header is the list of its values
  under its canonical name; \<open>r.Host\<close> is the \<open>Host\<close> header.
\<close>

record url =
  uScheme :: string
  uHost :: string

record Request =
  rMethod :: string
  rHost :: string
  rRemoteAddr :: string
  rHeader :: "string \<Rightarrow> string list"
  rQuery :: "string \<Rightarrow> string list option"

definition Header_Get :: "Request \<Rightarrow> string \<Rightarrow> string" where
  "Header_Get r k = (case rHeader r k of [] \<Rightarrow> [] | v # vs \<Rightarrow> v)"

definition validOptionalPort :: "string \<Rightarrow> bool" where
  "validOptionalPort port =
     (case port of [] \<Rightarrow> True | c # cs \<Rightarrow> c = CHR '':'' \<and> list_all is_digit cs)"

definition splitHostPort :: "string \<Rightarrow> string \<times> string" where
  "splitHostPort hostPort =
     (let (host, port) =
        (case LastIndexByte hostPort CHR '':'' of
           Some colon \<Rightarrow> if validOptionalPort (drop colon hostPort)
                        then (take colon hostPort, drop (colon + 1) hostPort) else (hostPort, [])
         | None \<Rightarrow> (hostPort, []))
      in (if HasPrefix host ''['' \<and> HasSuffix host '']'' then (tl (butlast host), port) else (host, port)))"

definition Hostname :: "url \<Rightarrow> string" where "Hostname u = fst (splitHostPort (uHost u))"
definition Port_of :: "url \<Rightarrow> string" where "Port_of u = snd (splitHostPort (uHost u))"

text \<open>The status codes the handlers answer with.\<close>

definition StatusOK :: nat where "StatusOK = 200"
definition StatusCreated :: nat where "StatusCreated = 201"
definition StatusNoContent :: nat where "StatusNoContent = 204"
definition StatusFound :: nat where "StatusFound = 302"
definition StatusSeeOther :: nat where "StatusSeeOther = 303"
definition StatusBadRequest :: nat where "StatusBadRequest = 400"
definition StatusUnauthorized :: nat where "StatusUnauthorized = 401"
definition StatusForbidden :: nat where "StatusForbidden = 403"
definition StatusNotFound :: nat where "StatusNotFound = 404"
definition StatusMethodNotAllowed :: nat where "StatusMethodNotAllowed = 405"
definition StatusInternalServerError :: nat where "StatusInternalServerError = 500"
definition StatusServiceUnavailable :: nat where "StatusServiceUnavailable = 503"

lemmas status_defs = StatusOK_def StatusCreated_def StatusNoContent_def StatusFound_def StatusSeeOther_def
  StatusBadRequest_def StatusUnauthorized_def StatusForbidden_def StatusNotFound_def StatusMethodNotAllowed_def
  StatusInternalServerError_def StatusServiceUnavailable_def

end
