(* ===== verification/Gateway_Entry.thy ===== *)
theory Gateway_Entry
  imports Session Go_Http
begin

text \<open>
  The HTTP entry of the gateway (\<open>HandleGatewayProtocol\<close> and its two handlers in
  \<open>protocol/gateway.go\<close>), the origin check, and the registry of running tunnels
  (\<open>protocol/track.go\<close>).

  Tunnels are shared by pointer between the cache, the registry and the handlers, so they live
  in a heap and are named by their position in it. The cache is go-cache, with an expiry after
  five minutes: which of its items are still alive when a request comes is a parameter. So are
  \<open>uuid.Parse\<close>, fresh identifiers, and whether upgrading or hijacking a connection succeeds.
\<close>

subsection \<open>The origin check\<close>

definition effectiveOriginPort :: "url \<Rightarrow> string" where
  "effectiveOriginPort u =
     (if Port_of u \<noteq> [] then Port_of u
      else if uScheme u = ''https'' then ''443''
      else if uScheme u = ''http'' then ''80''
      else [])"

definition sameOriginHost :: "(string \<Rightarrow> string \<Rightarrow> bool) \<Rightarrow> url \<Rightarrow> string \<Rightarrow> bool" where
  "sameOriginHost uf origin requestHost =
     (let requestURL = \<lparr>uScheme = uScheme origin, uHost = requestHost\<rparr> in
      if Hostname origin = [] \<or> Hostname requestURL = [] then False
      else if \<not> EqualFold uf (Hostname origin) (Hostname requestURL) then False
      else effectiveOriginPort origin = effectiveOriginPort requestURL)"

definition sameOriginRequest ::
    "(string \<Rightarrow> url option) \<Rightarrow> (string \<Rightarrow> string \<Rightarrow> bool) \<Rightarrow> Request \<Rightarrow> bool" where
  "sameOriginRequest url_parse uf r =
     (let rawOrigin = TrimSpace (Header_Get r ''Origin'') in
      if rawOrigin = [] then True
      else if rawOrigin = ''null'' \<or> rHost r = [] then False
      else (case url_parse rawOrigin of
              None \<Rightarrow> False
            | Some origin \<Rightarrow>
                if uHost origin = [] then False
                else if uScheme origin \<noteq> ''http'' \<and> uScheme origin \<noteq> ''https'' then False
                else sameOriginHost uf origin (rHost r)))"

subsection \<open>Tunnels, cache and registry\<close>

text \<open>
  \<open>transportOut\<close> and \<open>transportIn\<close> are the connections of a tunnel, numbered like requests;
  \<open>None\<close> is the nil interface.
\<close>

record gtunnel =
  gtRDGId :: string
  gtId :: string
  gtRemoteAddr :: string
  gtUser :: "User option"
  gtOut :: "nat option"
  gtIn :: "nat option"

record gstate =
  gHeap :: "gtunnel list"
  gCache :: "(string \<times> nat) list"
  gConns :: "(string \<times> nat) list option"

record genv =
  gAlive :: "string \<Rightarrow> bool"
  gUuidOk :: "string \<Rightarrow> bool"
  gNewId :: string
  gUpgrade :: bool
  gHijack :: bool
  gReq :: nat

definition RegisterTunnel :: "nat \<Rightarrow> string \<Rightarrow> gstate \<Rightarrow> gstate" where
  "RegisterTunnel t i s =
     (let conns = (case gConns s of None \<Rightarrow> [] | Some m \<Rightarrow> m)
      in s\<lparr>gConns := Some (AList.update i t conns)\<rparr>)"

definition RemoveTunnel :: "string \<Rightarrow> gstate \<Rightarrow> gstate" where
  "RemoveTunnel i s = s\<lparr>gConns := map_option (AList.delete i) (gConns s)\<rparr>"

text \<open>
  \<open>Disconnect\<close>: the error it returns, or the tunnel to whose processor it sends
  \<open>ctlDisconnect\<close>. In the branch of the code that sends, \<open>m\<close> is the nil pointer.
\<close>

definition ctlDisconnect :: int where "ctlDisconnect = -1"

definition Disconnect :: "string \<Rightarrow> gstate \<Rightarrow> (string + nat \<times> int) go" where
  "Disconnect i s =
     (case gConns s of
        None \<Rightarrow> Ret (Inl (i @ '' connection does not exist''))
      | Some m \<Rightarrow>
          (let monitor = map_of m i; ok = (monitor \<noteq> None) in
           if \<not> ok then (case monitor of None \<Rightarrow> Panic | Some t \<Rightarrow> Ret (Inr (t, ctlDisconnect)))
           else Ret (Inl (i @ '' connection does not exist''))))"

text \<open>
  \<open>Disconnect\<close> is inverted: it never disconnects anything. An identifier that is registered
  gets the error that the connection does not exist, one that is not registered panics as
  soon as any connection was ever registered.
\<close>

theorem Disconnect_inverted:
  "Disconnect i (RegisterTunnel t i s) = Ret (Inl (i @ '' connection does not exist''))
   \<and> Disconnect j (RemoveTunnel j (RegisterTunnel t i s)) = Panic"
  by (simp add: Disconnect_def RegisterTunnel_def RemoveTunnel_def Let_def update_conv' delete_conv')

subsection \<open>HandleGatewayProtocol\<close>

definition rdgConnectionIdKey :: string where "rdgConnectionIdKey = ''Rdg-Connection-Id''"
definition MethodRDGIN :: string where "MethodRDGIN = ''RDG_IN_DATA''"
definition MethodRDGOUT :: string where "MethodRDGOUT = ''RDG_OUT_DATA''"

text \<open>
  What a request comes to: an error answer, nothing at all, an outgoing channel that was opened,
  or a session of the processor on the tunnel named, run between \<open>RegisterTunnel\<close> and
  \<open>RemoveTunnel\<close>.
\<close>

datatype outcome =
    Answer nat
  | Closed
  | OutOpened nat
  | RunSession nat

definition handleWebsocketProtocol :: "genv \<Rightarrow> nat \<Rightarrow> gstate \<Rightarrow> outcome \<times> gstate" where
  "handleWebsocketProtocol E t s =
     (let c = (gHeap s ! t)\<lparr>gtId := gNewId E, gtOut := Some (gReq E), gtIn := Some (gReq E)\<rparr>
      in (RunSession t, RegisterTunnel t (gNewId E) (s\<lparr>gHeap := (gHeap s)[t := c]\<rparr>)))"

definition handleLegacyProtocol :: "genv \<Rightarrow> string \<Rightarrow> nat \<Rightarrow> gstate \<Rightarrow> outcome \<times> gstate" where
  "handleLegacyProtocol E method t s =
     (let c = gHeap s ! t in
      if method = MethodRDGOUT then
        (if \<not> gHijack E then (Closed, s)
         else (OutOpened t,
               s\<lparr>gHeap := (gHeap s)[t := c\<lparr>gtOut := Some (gReq E)\<rparr>],
                 gCache := AList.update (gtRDGId c) t (gCache s)\<rparr>))
      else if method = MethodRDGIN then
        (if \<not> gHijack E then (Closed, s)
         else if gtIn c = None then
           (RunSession t,
            RegisterTunnel t (gNewId E)
              (s\<lparr>gHeap := (gHeap s)[t := c\<lparr>gtId := gNewId E, gtIn := Some (gReq E)\<rparr>],
                 gCache := AList.update (gtRDGId c) t (gCache s)\<rparr>))
         else (Closed, s))
      else (Closed, s))"

text \<open>The tunnel of a request: the cached one, or a new one with the identity of the request.\<close>

definition request_tunnel :: "genv \<Rightarrow> string \<Rightarrow> User option \<Rightarrow> gstate \<Rightarrow> (nat \<times> gstate) go" where
  "request_tunnel E connId ident s =
     (case (if gAlive E connId then map_of (gCache s) connId else None) of
        Some t \<Rightarrow> Ret (t, s)
      | None \<Rightarrow>
          (case ident of
             None \<Rightarrow> Panic
           | Some u \<Rightarrow>
               (case GetAttribute u AttrRemoteAddr of
                  Some (AString addr) \<Rightarrow>
                    Ret (length (gHeap s),
                         s\<lparr>gHeap := gHeap s @ [\<lparr>gtRDGId = connId, gtId = [], gtRemoteAddr = addr,
                                                gtUser = Some u, gtOut = None, gtIn = None\<rparr>]\<rparr>)
                | _ \<Rightarrow> Panic)))"

definition dispatch :: "genv \<Rightarrow> Request \<Rightarrow> nat \<Rightarrow> gstate \<Rightarrow> outcome \<times> gstate" where
  "dispatch E r t s =
     (if rMethod r = MethodRDGOUT then
        (if Header_Get r ''Connection'' \<noteq> ''upgrade'' \<and> Header_Get r ''Upgrade'' \<noteq> ''websocket''
         then handleLegacyProtocol E (rMethod r) t s
         else if \<not> gUpgrade E then (Closed, s)
         else handleWebsocketProtocol E t s)
      else if rMethod r = MethodRDGIN then handleLegacyProtocol E (rMethod r) t s
      else (Closed, s))"

definition HandleGatewayProtocol ::
    "(string \<Rightarrow> url option) \<Rightarrow> (string \<Rightarrow> string \<Rightarrow> bool) \<Rightarrow> genv \<Rightarrow> Request \<Rightarrow> User option \<Rightarrow> gstate
      \<Rightarrow> (outcome \<times> gstate) go" where
  "HandleGatewayProtocol url_parse uf E r ident s =
     (if (rMethod r = MethodRDGOUT \<or> rMethod r = MethodRDGIN) \<and> \<not> sameOriginRequest url_parse uf r
      then Ret (Answer StatusForbidden, s)
      else let connId = Header_Get r rdgConnectionIdKey in
        if connId \<noteq> [] \<and> \<not> gUuidOk E connId then Ret (Answer StatusBadRequest, s)
        else go_bind (request_tunnel E connId ident s) (\<lambda>(t, s). Ret (dispatch E r t s)))"

text \<open>The deferred \<open>RemoveTunnel\<close> when a session ends, under the identifier its tunnel has then.\<close>

definition end_session :: "nat \<Rightarrow> gstate \<Rightarrow> gstate" where
  "end_session t s = RemoveTunnel (gtId (gHeap s ! t)) s"

subsection \<open>What the entry guarantees\<close>

text \<open>Every pointer in the cache and the registry is a tunnel of the heap.\<close>

definition gateway_wf :: "gstate \<Rightarrow> bool" where
  "gateway_wf s \<longleftrightarrow>
     (\<forall>t \<in> snd ` set (gCache s). t < length (gHeap s))
     \<and> (\<forall>m. gConns s = Some m \<longrightarrow> (\<forall>t \<in> snd ` set m. t < length (gHeap s)))"

lemma update_values: "snd ` set (AList.update k v m) \<subseteq> insert v (snd ` set m)"
  by (induction m) auto

lemma delete_values: "snd ` set (AList.delete k m) \<subseteq> snd ` set m"
  by (auto simp: AList.delete_eq)

lemma map_of_value: "map_of m k = Some t \<Longrightarrow> t \<in> snd ` set m"
  by (metis map_of_SomeD image_eqI snd_conv)

lemma RegisterTunnel_wf: "gateway_wf s \<Longrightarrow> t < length (gHeap s) \<Longrightarrow> gateway_wf (RegisterTunnel t i s)"
  using update_values [of i t] unfolding gateway_wf_def RegisterTunnel_def
  by (fastforce simp: Let_def split: option.splits)

lemma end_session_wf: "gateway_wf s \<Longrightarrow> gateway_wf (end_session t s)"
  using delete_values unfolding gateway_wf_def end_session_def RemoveTunnel_def by fastforce

lemma heap_update_wf: "gateway_wf s \<Longrightarrow> gateway_wf (s\<lparr>gHeap := (gHeap s)[t := c]\<rparr>)"
  by (simp add: gateway_wf_def)

lemma cache_update_wf: "gateway_wf s \<Longrightarrow> t < length (gHeap s) \<Longrightarrow> gateway_wf (s\<lparr>gCache := AList.update k t (gCache s)\<rparr>)"
  using update_values [of k t "gCache s"] unfolding gateway_wf_def by fastforce

lemma handleLegacyProtocol_wf:
  assumes "gateway_wf s" "t < length (gHeap s)" "handleLegacyProtocol E m t s = (out, s')"
  shows "gateway_wf s'"
proof -
  have upd: "gateway_wf (s\<lparr>gHeap := (gHeap s)[t := c], gCache := AList.update k t (gCache s)\<rparr>)" for c k
    using cache_update_wf [OF heap_update_wf [OF assms(1)], of t t c k] assms(2) by simp
  then have "gateway_wf (RegisterTunnel t i (s\<lparr>gHeap := (gHeap s)[t := c], gCache := AList.update k t (gCache s)\<rparr>))" for c k i
    using assms(2) by (intro RegisterTunnel_wf) simp_all
  with upd assms(1,3) show ?thesis by (auto simp: handleLegacyProtocol_def Let_def split: if_splits)
qed

lemma handleWebsocketProtocol_wf:
  "gateway_wf s \<Longrightarrow> t < length (gHeap s) \<Longrightarrow> handleWebsocketProtocol E t s = (out, s') \<Longrightarrow> gateway_wf s'"
  by (auto simp: handleWebsocketProtocol_def Let_def intro!: RegisterTunnel_wf heap_update_wf)

lemma new_tunnel_wf: "gateway_wf s \<Longrightarrow> gateway_wf (s\<lparr>gHeap := gHeap s @ [c]\<rparr>)"
  unfolding gateway_wf_def by fastforce

lemma request_tunnel_wf:
  assumes wf: "gateway_wf s" and run: "request_tunnel E k ident s = Ret (t, s1)"
  shows "gateway_wf s1 \<and> t < length (gHeap s1)"
proof (cases "if gAlive E k then map_of (gCache s) k else None")
  case (Some x)
  then have "map_of (gCache s) k = Some x" by (simp split: if_splits)
  then have "x < length (gHeap s)" using wf map_of_value unfolding gateway_wf_def by fastforce
  then show ?thesis using Some run wf by (simp add: request_tunnel_def)
next
  case None
  then show ?thesis
    using run new_tunnel_wf [OF wf] by (auto simp: request_tunnel_def split: option.splits attr.splits)
qed

lemma dispatch_wf: "gateway_wf s \<Longrightarrow> t < length (gHeap s) \<Longrightarrow> dispatch E r t s = (out, s') \<Longrightarrow> gateway_wf s'"
  using handleLegacyProtocol_wf [of s t E "rMethod r" out s'] handleWebsocketProtocol_wf [of s t E out s']
  by (simp add: dispatch_def split: if_splits)


text \<open>
  The two channels of the legacy protocol meet by connection identifier alone: after one
  client opened the outgoing channel, the incoming channel of any request that names the same
  identifier is served on that tunnel, with the identity, the client address and the outgoing
  connection of the first client.
\<close>

theorem legacy_channels_meet:
  assumes "sameOriginRequest up uf ro" "sameOriginRequest up uf ri"
    and "rMethod ro = MethodRDGOUT" "rMethod ri = MethodRDGIN"
    and "Header_Get ro rdgConnectionIdKey = k" "Header_Get ri rdgConnectionIdKey = k"
    and "if k = [] then True else gUuidOk Eo k \<and> gUuidOk Ei k" "gHijack Eo" "gHijack Ei" "gAlive Ei k"
    and "Header_Get ro ''Connection'' \<noteq> ''upgrade''" "Header_Get ro ''Upgrade'' \<noteq> ''websocket''"
    and "map_of (gCache s) k = None" "GetAttribute u AttrRemoteAddr = Some (AString addr)"
  shows "\<exists>s1 s2 t. HandleGatewayProtocol up uf Eo ro (Some u) s = Ret (OutOpened t, s1)
    \<and> HandleGatewayProtocol up uf Ei ri other s1 = Ret (RunSession t, s2)
    \<and> gHeap s2 ! t = \<lparr>gtRDGId = k, gtId = gNewId Ei, gtRemoteAddr = addr, gtUser = Some u,
                      gtOut = Some (gReq Eo), gtIn = Some (gReq Ei)\<rparr>"
proof -
  have methods: "MethodRDGOUT \<noteq> MethodRDGIN" by (simp add: MethodRDGOUT_def MethodRDGIN_def)
  show ?thesis
    using assms methods
    by (auto simp: HandleGatewayProtocol_def request_tunnel_def dispatch_def handleLegacyProtocol_def Let_def RegisterTunnel_def update_conv'
             split: if_splits)
qed

text \<open>
  An incoming channel that comes first is served at once, on a new tunnel without an outgoing
  connection: whatever the processor writes there dereferences a nil transport.
\<close>

theorem legacy_in_first_has_no_out:
  assumes "sameOriginRequest up uf r" "rMethod r = MethodRDGIN" "Header_Get r rdgConnectionIdKey = k"
    and "if k = [] then True else gUuidOk E k" "gHijack E" "map_of (gCache s) k = None"
    and "GetAttribute u AttrRemoteAddr = Some (AString addr)"
  shows "\<exists>t s'. HandleGatewayProtocol up uf E r (Some u) s = Ret (RunSession t, s') \<and> gtOut (gHeap s' ! t) = None"
proof -
  have methods: "MethodRDGOUT \<noteq> MethodRDGIN" by (simp add: MethodRDGOUT_def MethodRDGIN_def)
  show ?thesis
    using assms methods
    by (auto simp: HandleGatewayProtocol_def request_tunnel_def dispatch_def handleLegacyProtocol_def Let_def RegisterTunnel_def split: if_splits)
qed

subsection \<open>Witnesses\<close>

definition demo_request :: "string \<Rightarrow> Request" where
  "demo_request m = \<lparr>rMethod = m, rHost = ''gw'', rRemoteAddr = ''1.2.3.4:5'', rHeader = (\<lambda>h. []), rQuery = (\<lambda>q. None)\<rparr>"

definition demo_genv :: genv where
  "demo_genv = \<lparr>gAlive = (\<lambda>k. True), gUuidOk = (\<lambda>k. False), gNewId = ''n'', gUpgrade = True, gHijack = True, gReq = 1\<rparr>"

definition demo_gstate :: gstate where
  "demo_gstate = \<lparr>gHeap = [], gCache = [], gConns = None\<rparr>"

definition remote_user :: User where
  "remote_user = SetAttribute AttrRemoteAddr (AString ''1.2.3.4:5'') (NewUser ''s'')"

lemma demo_gateway_simps:
  "Header_Get (demo_request m) h = []" "rMethod (demo_request m) = m" "sameOriginRequest up uf (demo_request m)"
  "GetAttribute remote_user AttrRemoteAddr = Some (AString ''1.2.3.4:5'')"
  by (simp_all add: sameOriginRequest_def Header_Get_def demo_request_def remote_user_def)


theorem legacy_channels_meet_witness:
  "\<exists>s1 s2. HandleGatewayProtocol (\<lambda>s. None) (\<lambda>s t. False) demo_genv (demo_request MethodRDGOUT) (Some remote_user) demo_gstate
       = Ret (OutOpened 0, s1)
    \<and> HandleGatewayProtocol (\<lambda>s. None) (\<lambda>s t. False) demo_genv (demo_request MethodRDGIN) None s1 = Ret (RunSession 0, s2)
    \<and> gtUser (gHeap s2 ! 0) = Some remote_user"
proof -
  obtain s1 s2 t where
      out: "HandleGatewayProtocol (\<lambda>s. None) (\<lambda>s t. False) demo_genv (demo_request MethodRDGOUT) (Some remote_user) demo_gstate
        = Ret (OutOpened t, s1)"
    and inn: "HandleGatewayProtocol (\<lambda>s. None) (\<lambda>s t. False) demo_genv (demo_request MethodRDGIN) None s1 = Ret (RunSession t, s2)"
    and user: "gtUser (gHeap s2 ! t) = Some remote_user"
    using legacy_channels_meet [where ro = "demo_request MethodRDGOUT" and ri = "demo_request MethodRDGIN" and k = "[]"
        and Eo = demo_genv and Ei = demo_genv and s = demo_gstate and u = remote_user and addr = "''1.2.3.4:5''"
        and up = "\<lambda>s. None" and uf = "\<lambda>s t. False" and other = None]
    by (auto simp: demo_gateway_simps demo_genv_def demo_gstate_def)
  have "t = 0"
    using out by (auto simp: HandleGatewayProtocol_def request_tunnel_def dispatch_def handleLegacyProtocol_def
      demo_gateway_simps demo_gstate_def demo_genv_def Let_def MethodRDGIN_def MethodRDGOUT_def)
  then show ?thesis using out inn user by blast
qed

theorem legacy_in_first_has_no_out_witness:
  "\<exists>t s'. HandleGatewayProtocol (\<lambda>s. None) (\<lambda>s t. False) demo_genv (demo_request MethodRDGIN) (Some remote_user) demo_gstate
     = Ret (RunSession t, s') \<and> gtOut (gHeap s' ! t) = None"
  by (rule legacy_in_first_has_no_out [where k = "[]" and addr = "''1.2.3.4:5''"])
     (simp_all add: demo_gateway_simps demo_genv_def demo_gstate_def)

end
