(* ===== verification/Web_Auth.thy ===== *)
theory Web_Auth
  imports Identity Go_Http
begin

text \<open>
  Who a request comes from: trusted proxies (\<open>web/trusted_proxy.go\<close>), the session's identity
  (\<open>session.go\<close>, \<open>context.go\<close>), the authentication middlewares for headers, Basic and NTLM
  (\<open>header.go\<close>, \<open>basic.go\<close>, \<open>ntlm.go\<close>, \<open>mux.go\<close>) and the administrator check
  (\<open>authz.go\<close>).

  A middleware passes the request on with the identity it leaves in the context, or answers
  with a status. The session store, the Basic header parser, the gRPC authentication service
  and SPNEGO are parameters.
\<close>

datatype 'a handled = Next 'a | Reply nat

primrec handle_then :: "'a handled \<Rightarrow> ('a \<Rightarrow> 'b handled) \<Rightarrow> 'b handled" where
  "handle_then (Next x) f = f x"
| "handle_then (Reply c) f = Reply c"

lemma handle_then_Next: "handle_then m f = Next y \<longleftrightarrow> (\<exists>x. m = Next x \<and> f x = Next y)"
  by (cases m) auto

subsection \<open>Trusted proxies\<close>

type_synonym networks = "(nat list \<times> nat) list"

fun parse_cidrs :: "string list \<Rightarrow> networks option" where
  "parse_cidrs [] = Some []"
| "parse_cidrs (cidr # cs) =
     (let cidr = TrimSpace cidr
      in if cidr = [] then parse_cidrs cs
         else (case ParseCIDR cidr of
                 None \<Rightarrow> None
               | Some network \<Rightarrow> map_option (\<lambda>ns. network # ns) (parse_cidrs cs)))"

definition NewTrustedProxyChecker :: "string list \<Rightarrow> networks option" where
  "NewTrustedProxyChecker cidrs = parse_cidrs cidrs"

text \<open>A nil checker has no networks.\<close>

definition HasTrustedProxies :: "networks option \<Rightarrow> bool" where
  "HasTrustedProxies c \<longleftrightarrow> (case c of None \<Rightarrow> False | Some ns \<Rightarrow> length ns > 0)"

definition remoteIPString :: "string \<Rightarrow> string" where
  "remoteIPString remoteAddr =
     (case SplitHostPort remoteAddr of
        Some (host, port) \<Rightarrow> host
      | None \<Rightarrow> (case ParseIP remoteAddr of Some ip \<Rightarrow> IP_String ip | None \<Rightarrow> []))"

definition parseRemoteIP :: "string \<Rightarrow> nat list option" where
  "parseRemoteIP remoteAddr = ParseIP (remoteIPString remoteAddr)"

definition IsTrustedRemoteAddr :: "networks option \<Rightarrow> string \<Rightarrow> bool" where
  "IsTrustedRemoteAddr c remoteAddr =
     (if \<not> HasTrustedProxies c then False
      else (case parseRemoteIP remoteAddr of
              None \<Rightarrow> False
            | Some ip \<Rightarrow> list_ex (\<lambda>network. Network_Contains network ip) (the c)))"

fun valid_forwarded :: "string list \<Rightarrow> string list option" where
  "valid_forwarded [] = Some []"
| "valid_forwarded (p # ps) =
     (let candidate = TrimSpace p
      in if candidate = [] then None
         else (case ParseIP candidate of
                 None \<Rightarrow> None
               | Some ip \<Rightarrow> map_option (\<lambda>ips. IP_String ip # ips) (valid_forwarded ps)))"

definition firstValidForwardedFor :: "string \<Rightarrow> (string \<times> string list) option" where
  "firstValidForwardedFor header =
     (if header = [] then None
      else (case valid_forwarded (Split header CHR '','') of
              None \<Rightarrow> None
            | Some [] \<Rightarrow> None
            | Some (ip # ips) \<Rightarrow> Some (ip, ips)))"

definition ClientIPAndProxies :: "networks option \<Rightarrow> Request \<Rightarrow> string \<times> string list" where
  "ClientIPAndProxies c r =
     (let remoteIP = remoteIPString (rRemoteAddr r);
          remoteIP = (if remoteIP = [] then rRemoteAddr r else remoteIP)
      in if \<not> IsTrustedRemoteAddr c (rRemoteAddr r) then (remoteIP, [])
         else (case firstValidForwardedFor (Header_Get r ''X-Forwarded-For'') of
                 None \<Rightarrow> (remoteIP, [])
               | Some (clientIP, proxies) \<Rightarrow> (clientIP, proxies)))"

subsection \<open>Sessions\<close>

text \<open>
  What the session store holds for a request under the identity key, \<open>None\<close> when it reports
  an error; whether saving succeeds; and the coder of stored identities.
\<close>

record 'b sessions =
  sess_get :: "Request \<Rightarrow> 'b option option"
  sess_save :: "Request \<Rightarrow> 'b \<Rightarrow> bool"
  sess_enc :: "user_wire \<Rightarrow> 'b option"
  sess_dec :: "'b \<Rightarrow> user_wire option"

definition GetSessionIdentity :: "'b sessions \<Rightarrow> string \<Rightarrow> Request \<Rightarrow> User option option" where
  "GetSessionIdentity S uuid r =
     (case sess_get S r of
        None \<Rightarrow> None
      | Some None \<Rightarrow> Some None
      | Some (Some idData) \<Rightarrow>
          (case Unmarshal (sess_dec S) idData (NewUser uuid) of
             None \<Rightarrow> Some (Some (NewUser uuid))
           | Some u \<Rightarrow> Some (Some u)))"

text \<open>\<open>True\<close> when nothing failed.\<close>

definition SaveSessionIdentity :: "'b sessions \<Rightarrow> Request \<Rightarrow> User \<Rightarrow> bool" where
  "SaveSessionIdentity S r u =
     (if sess_get S r = None then False
      else (case Marshal (sess_enc S) u of None \<Rightarrow> False | Some idData \<Rightarrow> sess_save S r idData))"

subsection \<open>The identity of a request\<close>

definition enrichContext :: "'b sessions \<Rightarrow> networks option \<Rightarrow> string \<Rightarrow> Request \<Rightarrow> User handled" where
  "enrichContext S trusted uuid r =
     (case GetSessionIdentity S uuid r of
        None \<Rightarrow> Reply StatusInternalServerError
      | Some i \<Rightarrow>
          (let ident = (case i of None \<Rightarrow> NewUser uuid | Some u \<Rightarrow> u) in
           if authenticated ident \<and> GetAttribute ident AttrAuthSource = Some (AString AuthSourceHeader)
              \<and> \<not> IsTrustedRemoteAddr trusted (rRemoteAddr r)
           then Reply StatusUnauthorized
           else let (clientIP, proxies) = ClientIPAndProxies trusted r
             in Next (SetAttribute AttrRemoteAddr (AString (rRemoteAddr r))
                     (SetAttribute AttrProxies (AStrings proxies)
                     (SetAttribute AttrClientIp (AString clientIP) ident)))))"

definition EnrichContextWithTrustedProxyCIDRs ::
    "'b sessions \<Rightarrow> string list \<Rightarrow> (string \<Rightarrow> Request \<Rightarrow> User handled) option" where
  "EnrichContextWithTrustedProxyCIDRs S cidrs =
     (case NewTrustedProxyChecker cidrs of
        None \<Rightarrow> None
      | Some ns \<Rightarrow> Some (enrichContext S (Some ns)))"

text \<open>The identity that SPNEGO left in the request, when it did.\<close>

record goidentity =
  giUserName :: string
  giAuthenticated :: bool
  giDomain :: string
  giAuthTime :: instant

definition TransposeSPNEGOContext :: "goidentity option \<Rightarrow> User \<Rightarrow> User" where
  "TransposeSPNEGOContext gid ident =
     (case gid of
        None \<Rightarrow> ident
      | Some g \<Rightarrow> (SetUserName (giUserName g) ident)\<lparr>authenticated := giAuthenticated g, uDomain := giDomain g,
                                                   authTime := giAuthTime g\<rparr>)"

subsection \<open>Header authentication\<close>

record Header =
  userHeader :: string
  userIdHeader :: string
  emailHeader :: string
  displayNameHeader :: string
  trustedProxies :: "networks option"

definition HeaderConfig_New :: "string \<Rightarrow> string \<Rightarrow> string \<Rightarrow> string \<Rightarrow> string list \<Rightarrow> Header" where
  "HeaderConfig_New uh ih eh dh cidrs =
     \<lparr>userHeader = uh, userIdHeader = ih, emailHeader = eh, displayNameHeader = dh,
      trustedProxies = (case NewTrustedProxyChecker cidrs of
                          None \<Rightarrow> NewTrustedProxyChecker []
                        | Some ns \<Rightarrow> Some ns)\<rparr>"

definition Header_Authenticated ::
    "'b sessions \<Rightarrow> instant \<Rightarrow> Header \<Rightarrow> Request \<Rightarrow> User \<Rightarrow> User handled" where
  "Header_Authenticated S t h r ident =
     (if \<not> IsTrustedRemoteAddr (trustedProxies h) (rRemoteAddr r) then Reply StatusUnauthorized
      else if authenticated ident then Next ident
      else let name = Header_Get r (userHeader h) in
        if name = [] then Reply StatusUnauthorized
        else let
            ident = SetAttribute AttrAuthSource (AString AuthSourceHeader)
                      ((SetUserName name ident)\<lparr>authenticated := True, authTime := t\<rparr>);
            userId = Header_Get r (userIdHeader h);
            ident = (if userIdHeader h \<noteq> [] \<and> userId \<noteq> [] then SetAttribute ''user_id'' (AString userId) ident else ident);
            mail = Header_Get r (emailHeader h);
            ident = (if emailHeader h \<noteq> [] \<and> mail \<noteq> [] then ident\<lparr>email := mail\<rparr> else ident);
            disp = Header_Get r (displayNameHeader h);
            ident = (if displayNameHeader h \<noteq> [] \<and> disp \<noteq> [] then ident\<lparr>displayName := disp\<rparr> else ident)
          in if \<not> SaveSessionIdentity S r ident then Reply StatusInternalServerError else Next ident)"

subsection \<open>Basic and NTLM authentication\<close>

text \<open>What the authentication service answers over its socket.\<close>

datatype 'a service = Unreachable | CallFailed | Answered 'a

definition basic_authenticate :: "string \<Rightarrow> (string \<Rightarrow> string \<Rightarrow> bool service) \<Rightarrow> string \<Rightarrow> string \<Rightarrow> bool handled" where
  "basic_authenticate socket svc username password =
     (if socket = [] then Next False
      else (case svc username password of
              Unreachable \<Rightarrow> Reply StatusInternalServerError
            | CallFailed \<Rightarrow> Reply StatusInternalServerError
            | Answered ok \<Rightarrow> Next ok))"

text \<open>\<open>creds\<close> is \<open>r.BasicAuth()\<close>. After an answered error the middleware adds a 401 that no client sees.\<close>

definition BasicAuth ::
    "string \<Rightarrow> (string \<Rightarrow> string \<Rightarrow> bool service) \<Rightarrow> instant \<Rightarrow> (string \<times> string) option \<Rightarrow> User \<Rightarrow> User handled" where
  "BasicAuth socket svc t creds ident =
     (case creds of
        None \<Rightarrow> Reply StatusUnauthorized
      | Some (username, password) \<Rightarrow>
          (case basic_authenticate socket svc username password of
             Reply code \<Rightarrow> Reply code
           | Next ok \<Rightarrow>
               if \<not> ok then Reply StatusUnauthorized
               else Next ((SetUserName username ident)\<lparr>authenticated := True, authTime := t\<rparr>)))"

datatype ntlmAuthMode = authNone | authNTLM | authNegotiate

definition b64_value :: "char \<Rightarrow> nat option" where
  "b64_value c =
     (let n = (of_char c :: nat) in
      if 65 \<le> n \<and> n \<le> 90 then Some (n - 65)
      else if 97 \<le> n \<and> n \<le> 122 then Some (n - 71)
      else if 48 \<le> n \<and> n \<le> 57 then Some (n + 4)
      else if c = CHR ''+'' then Some 62 else if c = CHR ''/'' then Some 63 else None)"

text \<open>Strict unpadded base64: whole quanta, then two or three characters with zero spare bits.\<close>

definition b64_raw :: "string \<Rightarrow> bool" where
  "b64_raw cs \<longleftrightarrow>
     list_all (\<lambda>c. b64_value c \<noteq> None) cs \<and> length cs mod 4 \<noteq> 1
     \<and> (length cs mod 4 = 2 \<longrightarrow> the (b64_value (last cs)) mod 16 = 0)
     \<and> (length cs mod 4 = 3 \<longrightarrow> the (b64_value (last cs)) mod 4 = 0)"

text \<open>The decoders skip line breaks; the padded one wants the missing characters as equals signs.\<close>

definition isValidAuthPayload :: "string \<Rightarrow> bool" where
  "isValidAuthPayload payload =
     (if payload = [] then False
      else let cs = filter (\<lambda>c. c \<noteq> CHR 0x0A \<and> c \<noteq> CHR 0x0D) payload;
               body = takeWhile (\<lambda>c. c \<noteq> CHR ''='') cs
        in if b64_raw body \<and> cs = body @ replicate ((4 - length body mod 4) mod 4) (CHR ''='') then True
           else b64_raw cs)"

definition getAuthPayload :: "Request \<Rightarrow> (string \<times> ntlmAuthMode) option" where
  "getAuthPayload r =
     (let a = Header_Get r ''Authorization'' in
      if HasPrefix a ''NTLM '' then
        (let payload = TrimSpace (drop 5 a) in if isValidAuthPayload payload then Some (payload, authNTLM) else None)
      else if HasPrefix a ''Negotiate '' then
        (let payload = TrimSpace (drop 10 a) in if isValidAuthPayload payload then Some (payload, authNegotiate) else None)
      else None)"

text \<open>
  The exchange with the service: a session id from the cookie or a fresh one, and a challenge to
  pass on, a refusal or a user name. The cookie written back is part of the result.
\<close>

record ntlm_answer =
  naMessage :: string
  naAuthenticated :: bool
  naUsername :: string

datatype cookie_action = KeepCookie | SetCookie string | ClearCookie

definition sessionIDFromRequest :: "string option \<Rightarrow> string \<Rightarrow> string" where
  "sessionIDFromRequest cookie uuid = (case cookie of Some v \<Rightarrow> if v \<noteq> [] then v else uuid | None \<Rightarrow> uuid)"

definition getAuthPrefix :: "ntlmAuthMode \<Rightarrow> string" where
  "getAuthPrefix m = (case m of authNTLM \<Rightarrow> ''NTLM '' | authNegotiate \<Rightarrow> ''Negotiate '' | authNone \<Rightarrow> [])"

text \<open>\<open>None\<close> for the status: nothing was written and the zero value was returned.\<close>

definition ntlm_authenticate ::
    "string \<Rightarrow> (string \<Rightarrow> string \<Rightarrow> ntlm_answer service) \<Rightarrow> string \<Rightarrow> string
      \<Rightarrow> string option \<times> nat option \<times> cookie_action" where
  "ntlm_authenticate socket svc sid payload =
     (if socket = [] then (None, None, KeepCookie)
      else (case svc sid payload of
              Unreachable \<Rightarrow> (None, Some StatusInternalServerError, KeepCookie)
            | CallFailed \<Rightarrow> (None, Some StatusInternalServerError, KeepCookie)
            | Answered a \<Rightarrow>
                if naMessage a \<noteq> [] then (None, Some StatusUnauthorized, SetCookie sid)
                else if \<not> naAuthenticated a then (None, Some StatusUnauthorized, ClearCookie)
                else (Some (naUsername a), None, ClearCookie)))"

definition NTLMAuth ::
    "string \<Rightarrow> (string \<Rightarrow> string \<Rightarrow> ntlm_answer service) \<Rightarrow> instant \<Rightarrow> string option \<Rightarrow> string \<Rightarrow> Request \<Rightarrow> User
      \<Rightarrow> User handled" where
  "NTLMAuth socket svc t cookie uuid r ident =
     (case getAuthPayload r of
        None \<Rightarrow> Reply StatusUnauthorized
      | Some (payload, mode) \<Rightarrow>
          (case ntlm_authenticate socket svc (sessionIDFromRequest cookie uuid) payload of
             (Some username, st, ck) \<Rightarrow> Next ((SetUserName username ident)\<lparr>authenticated := True, authTime := t\<rparr>)
           | (None, st, ck) \<Rightarrow> Reply (case st of Some code \<Rightarrow> code | None \<Rightarrow> StatusOK)))"

subsection \<open>The multiplexer of authentication headers\<close>

type_synonym auth_headers = "(string \<times> (Request \<Rightarrow> bool) option) list"

definition Register :: "string list \<Rightarrow> (Request \<Rightarrow> bool) option \<Rightarrow> auth_headers \<Rightarrow> auth_headers" where
  "Register headers condition a = foldl (\<lambda>a h. a @ [(h, condition)]) a headers"

fun SetAuthenticate :: "auth_headers \<Rightarrow> Request \<Rightarrow> string list" where
  "SetAuthenticate [] r = []"
| "SetAuthenticate ((h, condition) # hs) r =
     (case condition of
        None \<Rightarrow> h # SetAuthenticate hs r
      | Some f \<Rightarrow> if f r then h # SetAuthenticate hs r else SetAuthenticate hs r)"

definition NoAuthz :: "Request \<Rightarrow> bool" where
  "NoAuthz r \<longleftrightarrow> Header_Get r ''Authorization'' = []"

subsection \<open>Administrators\<close>

fun IsAdmin :: "User option \<Rightarrow> string list \<Rightarrow> bool" where
  "IsAdmin None groups = False"
| "IsAdmin (Some u) [] = False"
| "IsAdmin (Some u) (g # gs) =
     (let g = TrimSpace g
      in if g = [] then IsAdmin (Some u) gs
         else if InGroup g u then True else IsAdmin (Some u) gs)"

definition AdminOnly :: "string list \<Rightarrow> User option \<Rightarrow> User handled" where
  "AdminOnly adminGroups ident =
     (case ident of
        None \<Rightarrow> Reply StatusUnauthorized
      | Some u \<Rightarrow>
          if \<not> authenticated u then Reply StatusUnauthorized
          else if \<not> IsAdmin (Some u) adminGroups then Reply StatusForbidden
          else Next u)"

subsection \<open>What the middlewares guarantee\<close>

lemma ParseIP_Nil [simp]: "ParseIP [] = None"
  by (simp add: ParseIP_def)

lemma valid_forwarded_iff:
  "valid_forwarded ps = (if \<forall>p \<in> set ps. ParseIP (TrimSpace p) \<noteq> None
     then Some (map (\<lambda>p. IP_String (the (ParseIP (TrimSpace p)))) ps) else None)"
proof (induction ps)
  case (Cons p ps)
  then show ?case by (cases "TrimSpace p = []") (auto simp: Let_def split: option.splits)
qed simp

text \<open>
  The client address: a request that does not come from a trusted proxy is attributed to its own
  peer, whatever its headers say; one that does is attributed to the first address of its
  forwarding header when every element of that header is an address, and to the proxy itself
  otherwise.
\<close>

theorem ClientIPAndProxies_exact:
  "ClientIPAndProxies c r =
     (let own = (if remoteIPString (rRemoteAddr r) = [] then rRemoteAddr r else remoteIPString (rRemoteAddr r));
          header = Header_Get r ''X-Forwarded-For'';
          parts = map (\<lambda>p. ParseIP (TrimSpace p)) (Split header CHR '','')
      in if IsTrustedRemoteAddr c (rRemoteAddr r) \<and> header \<noteq> [] \<and> list_all (\<lambda>ip. ip \<noteq> None) parts
         then (IP_String (the (hd parts)), map (IP_String \<circ> the) (tl parts)) else (own, []))"
proof (cases "Split (Header_Get r ''X-Forwarded-For'') CHR '',''")
  case Nil
  then show ?thesis using Split_nonempty by blast
next
  case (Cons p ps)
  then show ?thesis
    by (auto simp: ClientIPAndProxies_def firstValidForwardedFor_def valid_forwarded_iff Let_def comp_def list_all_iff split: if_splits)
qed

lemma IsAdmin_iff: "IsAdmin (Some u) gs \<longleftrightarrow> (\<exists>g \<in> set gs. TrimSpace g \<noteq> [] \<and> InGroup g u)"
  by (induction gs) (auto simp: Let_def InGroup_def)

text \<open>
  Administration is reserved: the request goes on exactly for an authenticated user who is a
  member of one of the configured administrator groups; with no identity or none that is
  authenticated the answer is 401, otherwise 403.
\<close>

theorem AdminOnly_exact:
  "AdminOnly gs i =
     (case i of
        Some u \<Rightarrow> if \<not> authenticated u then Reply 401
                  else if \<exists>g \<in> set gs. TrimSpace g \<noteq> [] \<and> InGroup g u then Next u else Reply 403
      | None \<Rightarrow> Reply 401)"
  by (auto simp: AdminOnly_def IsAdmin_iff status_defs split: option.split)

lemma enrichContext_Next:
  assumes "enrichContext S c uuid r = Next u"
  shows "GetAttribute u AttrClientIp = Some (AString (fst (ClientIPAndProxies c r)))"
    "GetAttribute u AttrRemoteAddr = Some (AString (rRemoteAddr r))"
    "authenticated u \<and> GetAttribute u AttrAuthSource = Some (AString AuthSourceHeader) \<Longrightarrow> IsTrustedRemoteAddr c (rRemoteAddr r)"
  using assms
  by (auto simp: enrichContext_def Let_def attr_name_defs SetAttribute_def GetAttribute_def update_conv'
           split: option.splits if_splits prod.splits)


text \<open>
  C15: No middleware lets an unauthenticated request through: Basic and NTLM pass a request on only
  with the user name their service confirmed for the credentials presented.
\<close>

theorem authentication_sound:
  "(BasicAuth socket svc t creds u = Next v \<longrightarrow>
     (\<exists>name password. creds = Some (name, password) \<and> socket \<noteq> [] \<and> svc name password = Answered True
       \<and> authenticated v \<and> UserName v = name))
   \<and> (NTLMAuth socket nsvc t cookie uuid r u = Next v \<longrightarrow>
     (\<exists>payload mode a. getAuthPayload r = Some (payload, mode) \<and> socket \<noteq> []
       \<and> nsvc (sessionIDFromRequest cookie uuid) payload = Answered a \<and> naAuthenticated a \<and> naMessage a = []
       \<and> authenticated v \<and> UserName v = naUsername a))"
  by (auto simp: BasicAuth_def basic_authenticate_def NTLMAuth_def ntlm_authenticate_def UserName_def SetUserName_def
           split: option.splits if_splits service.splits handled.splits prod.splits)

subsection \<open>Witnesses\<close>

text \<open>A proxy at 10.0.0.1 that vouches for a user; the session holds nothing yet.\<close>

definition no_session :: "user_wire sessions" where
  "no_session = \<lparr>sess_get = (\<lambda>r. Some None), sess_save = (\<lambda>r b. True), sess_enc = Some, sess_dec = Some\<rparr>"

definition proxy_request :: Request where
  "proxy_request = \<lparr>rMethod = ''GET'', rHost = ''gw'', rRemoteAddr = ''10.0.0.1:5'',
     rHeader = (\<lambda>h. if h = ''X-User'' then [''bob''] else []), rQuery = (\<lambda>q. None)\<rparr>"

definition proxy_networks :: networks where
  "proxy_networks = [([10, 0, 0, 0], 8)]"

definition proxy_header :: Header where
  "proxy_header = \<lparr>userHeader = ''X-User'', userIdHeader = [], emailHeader = [], displayNameHeader = [],
     trustedProxies = Some proxy_networks\<rparr>"

lemma proxy_trusted: "IsTrustedRemoteAddr (Some proxy_networks) ''10.0.0.1:5''"
proof -
  have "SplitHostPort ''10.0.0.1:5'' = Some (''10.0.0.1'', ''5'')"
    using SplitHostPort_JoinHostPort [of "''10.0.0.1''" "''5''"] by (simp add: JoinHostPort_def)
  moreover have "ParseIP ''10.0.0.1'' = Some [0, 0, 0, 0, 0, 0, 0, 0, 0, 0, 255, 255, 10, 0, 0, 1]"
    by code_simp
  moreover have "Network_Contains ([10, 0, 0, 0], 8) [0, 0, 0, 0, 0, 0, 0, 0, 0, 0, 255, 255, 10, 0, 0, 1]"
    by code_simp
  ultimately show ?thesis
    by (simp add: IsTrustedRemoteAddr_def HasTrustedProxies_def proxy_networks_def parseRemoteIP_def remoteIPString_def)
qed


theorem authentication_sound_witness:
  "\<exists>v. BasicAuth ''sock'' (\<lambda>n p. Answered (p = ''pw'')) 1 (Some (''bob'', ''pw'')) (NewUser ''s'') = Next v
     \<and> authenticated v \<and> UserName v = ''bob''"
proof -
  let ?svc = "\<lambda>n p. Answered (p = ''pw'')"
  have "\<exists>v. BasicAuth ''sock'' ?svc 1 (Some (''bob'', ''pw'')) (NewUser ''s'') = Next v"
    by (simp add: BasicAuth_def basic_authenticate_def)
  then obtain v where v: "BasicAuth ''sock'' ?svc 1 (Some (''bob'', ''pw'')) (NewUser ''s'') = Next v" by blast
  from authentication_sound [THEN conjunct1, rule_format, OF v] v show ?thesis by auto
qed

end
