(* ===== verification/Web_OIDC.thy ===== *)
theory Web_OIDC
  imports Web_Auth
begin

text \<open>
  OpenID Connect login (\<open>web/oidc.go\<close>): the transaction kept in the browser's session, the
  cache of consumed states, the callback and the identity made from the claims.

  The identity provider (\<open>Exchange\<close>, \<open>Verify\<close> with the claims), the JSON coder of a
  transaction, the session store and \<open>url.ParseRequestURI\<close> are parameters. Instants count
  nanoseconds.
\<close>

subsection \<open>Transactions\<close>

definition CacheExpiration :: instant where "CacheExpiration = 120000000000"

record oidcTransaction =
  txState :: string
  txRedirectURL :: string
  txNonce :: string
  txCodeVerifier :: string
  txExpiresAt :: instant

definition b64url_digit :: "nat \<Rightarrow> char" where
  "b64url_digit k =
     (if k < 26 then char_of (65 + k) else if k < 52 then char_of (71 + k)
      else if k < 62 then char_of (k - 4) else if k = 62 then CHR ''-'' else CHR ''_'')"

fun RawURLEncode :: "nat list \<Rightarrow> string" where
  "RawURLEncode [] = []"
| "RawURLEncode [a] = map b64url_digit [a div 4, a mod 4 * 16]"
| "RawURLEncode [a, b] = map b64url_digit [a div 4, a mod 4 * 16 + b div 16, b mod 16 * 4]"
| "RawURLEncode (a # b # c # r) =
     map b64url_digit [a div 4, a mod 4 * 16 + b div 16, b mod 16 * 4 + c div 64, c mod 64] @ RawURLEncode r"

text \<open>\<open>seed\<close> is what \<open>rand.Read\<close> fills in, \<open>None\<close> when it fails.\<close>

definition randomURLSafeString :: "nat list option \<Rightarrow> string option" where
  "randomURLSafeString seed = map_option RawURLEncode seed"

definition newOIDCTransaction ::
    "nat list option \<Rightarrow> nat list option \<Rightarrow> instant \<Rightarrow> string \<Rightarrow> string \<Rightarrow> oidcTransaction option" where
  "newOIDCTransaction seed1 seed2 t state redirectURL =
     (case randomURLSafeString seed1 of
        None \<Rightarrow> None
      | Some nonce \<Rightarrow>
          (case randomURLSafeString seed2 of
             None \<Rightarrow> None
           | Some codeVerifier \<Rightarrow>
               Some \<lparr>txState = state, txRedirectURL = redirectURL, txNonce = nonce, txCodeVerifier = codeVerifier,
                     txExpiresAt = t + CacheExpiration\<rparr>))"

text \<open>The parsed form of a request URI, as far as it is used.\<close>

record request_uri =
  ruAbs :: bool
  ruHost :: string
  ruPath :: string
  ruRequestURI :: string

definition safeOIDCRedirectURL :: "(string \<Rightarrow> request_uri option) \<Rightarrow> string \<Rightarrow> string" where
  "safeOIDCRedirectURL parse redirectURL =
     (if redirectURL = [] \<or> \<not> HasPrefix redirectURL ''/'' \<or> HasPrefix redirectURL ''//'' then ''/''
      else (case parse redirectURL of
              None \<Rightarrow> ''/''
            | Some parsed \<Rightarrow>
                if ruAbs parsed \<or> ruHost parsed \<noteq> [] \<or> \<not> HasPrefix (ruPath parsed) ''/'' \<or> HasPrefix (ruPath parsed) ''//''
                then ''/'' else ruRequestURI parsed))"

subsection \<open>The session and the consumed states\<close>

text \<open>
  The value under the state key: a string, or something else that was put there. \<open>None\<close> for
  the session itself is an error of the session store.
\<close>

datatype session_value = SvString string | SvOther

type_synonym oidc_session = "session_value option option"

definition storeOIDCTransaction ::
    "(oidcTransaction \<Rightarrow> string option) \<Rightarrow> (session_value \<Rightarrow> bool) \<Rightarrow> oidc_session \<Rightarrow> oidcTransaction
      \<Rightarrow> session_value option" where
  "storeOIDCTransaction enc save sess tx =
     (case sess of
        None \<Rightarrow> None
      | Some old \<Rightarrow>
          (case enc tx of
             None \<Rightarrow> None
           | Some stateValue \<Rightarrow> if save (SvString stateValue) then Some (SvString stateValue) else None))"

definition readOIDCTransaction :: "(string \<Rightarrow> oidcTransaction option) \<Rightarrow> oidc_session \<Rightarrow> oidcTransaction option" where
  "readOIDCTransaction dec sess =
     (case sess of
        None \<Rightarrow> None
      | Some None \<Rightarrow> None
      | Some (Some SvOther) \<Rightarrow> None
      | Some (Some (SvString stateValue)) \<Rightarrow>
          (case dec stateValue of
             Some tx \<Rightarrow> Some tx
           | None \<Rightarrow>
               (case SplitN stateValue CHR ''|'' 2 of
                  [a, b] \<Rightarrow> Some \<lparr>txState = a, txRedirectURL = b, txNonce = [], txCodeVerifier = [], txExpiresAt = 0\<rparr>
                | _ \<Rightarrow> None)))"

definition getOIDCTransaction ::
    "(string \<Rightarrow> oidcTransaction option) \<Rightarrow> oidc_session \<Rightarrow> string \<Rightarrow> instant \<Rightarrow> oidcTransaction option" where
  "getOIDCTransaction dec sess state t =
     (case readOIDCTransaction dec sess of
        None \<Rightarrow> None
      | Some tx \<Rightarrow>
          if txState tx \<noteq> state then None
          else if \<not> txExpiresAt tx > t then None
          else Some tx)"

definition getOIDCState ::
    "(string \<Rightarrow> oidcTransaction option) \<Rightarrow> oidc_session \<Rightarrow> string \<Rightarrow> instant \<Rightarrow> string option" where
  "getOIDCState dec sess state t = map_option txRedirectURL (getOIDCTransaction dec sess state t)"

type_synonym consumed = "(string \<times> instant) list"

definition consumed_ttl :: "instant \<Rightarrow> instant" where
  "consumed_ttl ttl = (if ttl \<le> 0 then CacheExpiration else ttl)"

definition markConsumed :: "instant \<Rightarrow> string \<Rightarrow> instant \<Rightarrow> consumed \<Rightarrow> bool \<times> consumed" where
  "markConsumed ttl state t c =
     (if state = [] then (False, c)
      else let c = filter (\<lambda>(s, expiresAt). expiresAt > t) c
        in if map_of c state \<noteq> None then (False, c)
           else (True, AList.update state (t + ttl) c))"

text \<open>Consuming a transaction: the two clock readings, and whether the session can be saved.\<close>

datatype consume_result = ConsumeFailed | NotFound | Consumed oidcTransaction

definition consumeOIDCTransaction ::
    "(string \<Rightarrow> oidcTransaction option) \<Rightarrow> instant \<Rightarrow> bool \<Rightarrow> oidc_session \<Rightarrow> string \<Rightarrow> instant \<Rightarrow> instant \<Rightarrow> consumed
      \<Rightarrow> consume_result \<times> consumed" where
  "consumeOIDCTransaction dec ttl saved sess state t1 t2 c =
     (if sess = None then (ConsumeFailed, c)
      else (case getOIDCTransaction dec sess state t1 of
              None \<Rightarrow> (NotFound, c)
            | Some tx \<Rightarrow>
                (let (fresh, c) = markConsumed ttl state t2 c
                 in if \<not> fresh then (NotFound, c)
                    else if \<not> saved then (ConsumeFailed, c)
                    else (Consumed tx, c))))"

subsection \<open>Claims\<close>

datatype claim = CString string | CStringList "string list" | CList "string option list" | COther

type_synonym claims = "string \<Rightarrow> claim option"

definition claim_string :: "claims \<Rightarrow> string \<Rightarrow> string option" where
  "claim_string d k = (case d k of Some (CString s) \<Rightarrow> Some s | _ \<Rightarrow> None)"

fun first_claim :: "claims \<Rightarrow> string list \<Rightarrow> string" where
  "first_claim d [] = []"
| "first_claim d (k # ks) = (case claim_string d k of Some s \<Rightarrow> s | None \<Rightarrow> first_claim d ks)"

definition findUsernameInClaims :: "claims \<Rightarrow> string" where
  "findUsernameInClaims d = first_claim d [''preferred_username'', ''unique_name'', ''upn'', ''username'']"

definition extractGroups :: "claim option \<Rightarrow> string list" where
  "extractGroups raw =
     (case raw of
        Some (CStringList gs) \<Rightarrow> gs
      | Some (CList gs) \<Rightarrow> map the (filter (\<lambda>g. g \<noteq> None) gs)
      | Some (CString g) \<Rightarrow> [g]
      | _ \<Rightarrow> [])"

definition populateIdentityFromClaims :: "User \<Rightarrow> claims \<Rightarrow> string \<Rightarrow> User option" where
  "populateIdentityFromClaims ident d groupsClaim =
     (let name = findUsernameInClaims d in
      if name = [] then None
      else let ident = SetUserName name ident;
               ident = (case claim_string d ''email'' of Some e \<Rightarrow> ident\<lparr>email := e\<rparr> | None \<Rightarrow> ident);
               ident = (case claim_string d ''name'' of
                          Some n \<Rightarrow> ident\<lparr>displayName := n\<rparr>
                        | None \<Rightarrow> (case claim_string d ''display_name'' of
                                    Some n \<Rightarrow> ident\<lparr>displayName := n\<rparr> | None \<Rightarrow> ident));
               groupsClaim = (if groupsClaim = [] then ''groups'' else groupsClaim)
        in Some (SetGroups (extractGroups (d groupsClaim)) ident))"

subsection \<open>The callback and the middleware\<close>

text \<open>
  \<open>Exchange\<close> takes the code and the PKCE verifier and gives the access token and the id token,
  when there is one; \<open>Verify\<close> gives the claims of an id token whose signature holds.
\<close>

record provider =
  Exchange :: "string \<Rightarrow> string \<Rightarrow> (string \<times> string option) option"
  VerifyToken :: "string \<Rightarrow> claims option"

datatype oidc_answer = OidcReply nat | OidcRedirect User string

definition query_get :: "Request \<Rightarrow> string \<Rightarrow> string" where
  "query_get r k = (case rQuery r k of Some (v # vs) \<Rightarrow> v | _ \<Rightarrow> [])"

definition HandleCallback ::
    "provider \<Rightarrow> (string \<Rightarrow> oidcTransaction option) \<Rightarrow> (string \<Rightarrow> request_uri option) \<Rightarrow> 'b sessions \<Rightarrow> instant \<Rightarrow> string
      \<Rightarrow> instant \<Rightarrow> bool \<Rightarrow> oidc_session \<Rightarrow> Request \<Rightarrow> User \<Rightarrow> consumed \<Rightarrow> oidc_answer \<times> consumed" where
  "HandleCallback P dec parse S ttl groupsClaim t saved sess r ident c =
     (case consumeOIDCTransaction dec ttl saved sess (query_get r ''state'') t t c of
        (ConsumeFailed, c) \<Rightarrow> (OidcReply StatusInternalServerError, c)
      | (NotFound, c) \<Rightarrow> (OidcReply StatusBadRequest, c)
      | (Consumed tx, c) \<Rightarrow>
          (if txCodeVerifier tx = [] then OidcReply StatusInternalServerError
           else (case Exchange P (query_get r ''code'') (txCodeVerifier tx) of
             None \<Rightarrow> OidcReply StatusInternalServerError
           | Some (accessToken, None) \<Rightarrow> OidcReply StatusInternalServerError
           | Some (accessToken, Some rawIDToken) \<Rightarrow>
               (case VerifyToken P rawIDToken of
                  None \<Rightarrow> OidcReply StatusInternalServerError
                | Some d \<Rightarrow>
                    if claim_string d ''nonce'' \<noteq> Some (txNonce tx) then OidcReply StatusInternalServerError
                    else (case populateIdentityFromClaims ident d groupsClaim of
                      None \<Rightarrow> OidcReply StatusInternalServerError
                    | Some u \<Rightarrow>
                        let u = SetAttribute AttrAuthSource (AString AuthSourceOIDC)
                                  (SetAttribute AttrAccessToken (AString accessToken)
                                    (u\<lparr>authenticated := True, authTime := t\<rparr>))
                        in if \<not> SaveSessionIdentity S r u then OidcReply StatusInternalServerError
                           else OidcRedirect u (safeOIDCRedirectURL parse (txRedirectURL tx))))), c))"

text \<open>
  \<open>Authenticated\<close>: pass on, or start a transaction and send the browser to the provider, with
  the value stored in the session and the challenge's ingredients.
\<close>

datatype oidc_start = StartReply nat | StartLogin oidcTransaction

definition OIDC_Authenticated ::
    "(oidcTransaction \<Rightarrow> string option) \<Rightarrow> (string \<Rightarrow> request_uri option) \<Rightarrow> (session_value \<Rightarrow> bool) \<Rightarrow> oidc_session
      \<Rightarrow> (nat \<Rightarrow> nat list option) \<Rightarrow> instant \<Rightarrow> string \<Rightarrow> User \<Rightarrow> User + oidc_start" where
  "OIDC_Authenticated enc parse save sess rnd t requestURI ident =
     (if \<not> authenticated ident then
        (case randomURLSafeString (rnd 0) of
           None \<Rightarrow> Inr (StartReply StatusInternalServerError)
         | Some state \<Rightarrow>
             (case newOIDCTransaction (rnd 1) (rnd 2) t state (safeOIDCRedirectURL parse requestURI) of
                None \<Rightarrow> Inr (StartReply StatusInternalServerError)
              | Some tx \<Rightarrow>
                  if storeOIDCTransaction enc save sess tx = None then Inr (StartReply StatusInternalServerError)
                  else Inr (StartLogin tx)))
      else Inl ident)"

subsection \<open>A state is good for one login\<close>

record attempt =
  atState :: string
  atSession :: oidc_session
  atTime :: instant
  atSaved :: bool

fun consume_all ::
    "(string \<Rightarrow> oidcTransaction option) \<Rightarrow> instant \<Rightarrow> attempt list \<Rightarrow> consumed \<Rightarrow> (string \<times> consume_result) list" where
  "consume_all dec ttl [] c = []"
| "consume_all dec ttl (a # as) c =
     (let (res, c) = consumeOIDCTransaction dec ttl (atSaved a) (atSession a) (atState a) (atTime a) (atTime a) c
      in (atState a, res) # consume_all dec ttl as c)"

definition is_login :: "consume_result \<Rightarrow> bool" where
  "is_login res \<longleftrightarrow> (case res of Consumed tx \<Rightarrow> True | _ \<Rightarrow> False)"

lemma is_login_iff: "is_login res \<longleftrightarrow> (\<exists>tx. res = Consumed tx)"
  by (simp add: is_login_def split: consume_result.splits)

definition logins :: "string \<Rightarrow> (string \<times> consume_result) list \<Rightarrow> nat" where
  "logins s rs = length (filter (\<lambda>(st, res). st = s \<and> is_login res) rs)"

text \<open>Every transaction for the state \<open>s\<close> that the browser can present expires by \<open>e\<close>.\<close>

definition expires_by :: "(string \<Rightarrow> oidcTransaction option) \<Rightarrow> string \<Rightarrow> instant \<Rightarrow> attempt list \<Rightarrow> bool" where
  "expires_by dec s e as \<longleftrightarrow>
     (\<forall>a \<in> set as. \<forall>tx. readOIDCTransaction dec (atSession a) = Some tx \<and> txState tx = s \<longrightarrow> txExpiresAt tx \<le> e)"

lemma map_of_unexpired: "map_of c s = Some x \<Longrightarrow> x > t \<Longrightarrow> map_of (filter (\<lambda>(s, ex). ex > t) c) s = Some x"
  by (induction c) (auto split: if_splits)

lemma is_login_consume:
  "is_login (fst (consumeOIDCTransaction dec ttl sv ss st t t c)) \<longleftrightarrow>
     ss \<noteq> None \<and> (\<exists>tx. getOIDCTransaction dec ss st t = Some tx) \<and> fst (markConsumed ttl st t c) \<and> sv"
  by (auto simp: is_login_iff consumeOIDCTransaction_def split: option.splits prod.splits)

lemma getOIDCTransaction_Some:
  "getOIDCTransaction dec ss st t = Some tx \<longleftrightarrow> readOIDCTransaction dec ss = Some tx \<and> txState tx = st \<and> t < txExpiresAt tx"
  by (auto simp: getOIDCTransaction_def split: option.splits)

lemma consume_late:
  "expires_by dec s e [a] \<Longrightarrow> e \<le> atTime a \<Longrightarrow> atState a = s
     \<Longrightarrow> \<not> is_login (fst (consumeOIDCTransaction dec ttl sv (atSession a) (atState a) (atTime a) (atTime a) c))"
  by (auto simp: is_login_consume getOIDCTransaction_Some expires_by_def)

lemma consume_known:
  assumes "map_of c s = Some x" "e \<le> x" "expires_by dec s e [a]" "atState a = s"
  shows "\<not> is_login (fst (consumeOIDCTransaction dec ttl sv (atSession a) (atState a) (atTime a) (atTime a) c))"
proof (cases "e \<le> atTime a")
  case True
  then show ?thesis using consume_late assms by blast
next
  case False
  then have "map_of (filter (\<lambda>(s, ex). ex > atTime a) c) s = Some x"
    using assms(1,2) by (intro map_of_unexpired) simp_all
  then show ?thesis using assms(4) by (auto simp: is_login_consume markConsumed_def Let_def)
qed

text \<open>What an attempt leaves of a known state: the entry, unless it was purged after its expiry.\<close>

lemma markConsumed_keeps:
  assumes "map_of c s = Some x" "t < x"
  shows "map_of (snd (markConsumed ttl st t c)) s = Some x"
proof -
  have "map_of (filter (\<lambda>(s, ex). ex > t) c) s = Some x" using assms by (rule map_of_unexpired)
  then show ?thesis using assms by (auto simp: markConsumed_def Let_def update_conv')
qed

lemma consume_cache:
  assumes "map_of c s = Some x" "t < x"
  shows "map_of (snd (consumeOIDCTransaction dec ttl sv ss st t t c)) s = Some x"
  using markConsumed_keeps [OF assms, of ttl st] assms(1)
  by (auto simp: consumeOIDCTransaction_def split: option.splits prod.splits)

lemma logins_Cons:
  "consumeOIDCTransaction dec ttl (atSaved a) (atSession a) (atState a) (atTime a) (atTime a) c = (res, c')
     \<Longrightarrow> logins s (consume_all dec ttl (a # as) c) = (if atState a = s \<and> is_login res then 1 else 0) + logins s (consume_all dec ttl as c')"
  by (simp add: logins_def)

lemma logins_Nil [simp]: "logins s [] = 0"
  by (simp add: logins_def)

lemma expires_by_Cons: "expires_by dec s e (a # as) \<longleftrightarrow> expires_by dec s e [a] \<and> expires_by dec s e as"
  by (auto simp: expires_by_def)

lemma no_login_later:
  "expires_by dec s e as \<Longrightarrow> \<forall>a \<in> set as. e \<le> atTime a \<Longrightarrow> logins s (consume_all dec ttl as c) = 0"
proof (induction "as" arbitrary: c)
  case (Cons a "as")
  obtain res c' where r: "consumeOIDCTransaction dec ttl (atSaved a) (atSession a) (atState a) (atTime a) (atTime a) c = (res, c')"
    by (rule prod.exhaust)
  have ex: "expires_by dec s e [a]" "expires_by dec s e as" using Cons.prems(1) expires_by_Cons by blast+
  have "\<not> (atState a = s \<and> is_login res)"
    using consume_late [OF ex(1), of ttl "atSaved a" c] Cons.prems(2) r by auto
  then show ?case using Cons.IH [OF ex(2)] Cons.prems(2) unfolding logins_Cons [OF r] by simp
qed simp

lemma no_second_login:
  "sorted (map atTime as) \<Longrightarrow> expires_by dec s e as \<Longrightarrow> map_of c s = Some x \<Longrightarrow> e \<le> x
     \<Longrightarrow> logins s (consume_all dec ttl as c) = 0"
proof (induction "as" arbitrary: c)
  case (Cons a "as")
  obtain res c' where r: "consumeOIDCTransaction dec ttl (atSaved a) (atSession a) (atState a) (atTime a) (atTime a) c = (res, c')"
    by (rule prod.exhaust)
  have ex: "expires_by dec s e [a]" "expires_by dec s e as" using Cons.prems(2) expires_by_Cons by blast+
  have no: "\<not> (atState a = s \<and> is_login res)"
    using consume_known [OF Cons.prems(3,4) ex(1), of ttl "atSaved a"] r by auto
  have "logins s (consume_all dec ttl as c') = 0"
  proof (cases "atTime a < x")
    case True
    then have "map_of c' s = Some x"
      using consume_cache [OF Cons.prems(3) True, of dec ttl "atSaved a" "atSession a" "atState a"] r by simp
    then show ?thesis using Cons.IH ex(2) Cons.prems by simp
  next
    case False
    then have "\<forall>b \<in> set as. e \<le> atTime b" using Cons.prems(1,4) by fastforce
    then show ?thesis using no_login_later [OF ex(2)] by blast
  qed
  then show ?case using no unfolding logins_Cons [OF r] by simp
qed simp


lemma populateIdentity_facts:
  assumes "populateIdentityFromClaims ident d gc = Some u"
  shows "UserName u = findUsernameInClaims d" "UserName u \<noteq> []"
    "Groups u = sorted_list_of_set (TrimSpace ` set (extractGroups (d (if gc = [] then ''groups'' else gc))) - {[]})"
proof -
  obtain v where u: "u = SetGroups (extractGroups (d (if gc = [] then ''groups'' else gc))) v"
      "userName v = findUsernameInClaims d" "findUsernameInClaims d \<noteq> []"
    using assms by (auto simp: populateIdentityFromClaims_def Let_def SetUserName_def split: if_splits option.splits)
  then show "UserName u = findUsernameInClaims d" "UserName u \<noteq> []" by (simp_all add: SetGroups_def UserName_def)
  show "Groups u = sorted_list_of_set (TrimSpace ` set (extractGroups (d (if gc = [] then ''groups'' else gc))) - {[]})"
    unfolding u(1) by (rule Groups_SetGroups)
qed

text \<open>
  C17: What a login proves: the callback redirects only when the session holds an unexpired
  transaction for the state presented, the provider exchanged the code under the
  transaction's PKCE verifier, the id token verified and carries the transaction's nonce. The
  user saved is authenticated, has the name and the groups of the claims, and the access
  token of the exchange.
\<close>

theorem HandleCallback_sound:
  assumes "HandleCallback P dec parse S ttl gc t saved sess r ident c = (OidcRedirect u loc, c')"
  shows "\<exists>tx access raw d. getOIDCTransaction dec sess (query_get r ''state'') t = Some tx \<and> t < txExpiresAt tx
    \<and> Exchange P (query_get r ''code'') (txCodeVerifier tx) = Some (access, Some raw) \<and> txCodeVerifier tx \<noteq> []
    \<and> VerifyToken P raw = Some d \<and> claim_string d ''nonce'' = Some (txNonce tx)
    \<and> authenticated u \<and> UserName u = findUsernameInClaims d \<and> UserName u \<noteq> []
    \<and> Groups u = sorted_list_of_set (TrimSpace ` set (extractGroups (d (if gc = [] then ''groups'' else gc))) - {[]})
    \<and> GetAttribute u AttrAccessToken = Some (AString access) \<and> loc = safeOIDCRedirectURL parse (txRedirectURL tx)"
proof -
  obtain tx where con: "consumeOIDCTransaction dec ttl saved sess (query_get r ''state'') t t c = (Consumed tx, c')"
    using assms by (auto simp: HandleCallback_def split: prod.splits consume_result.splits)
  then have tx: "getOIDCTransaction dec sess (query_get r ''state'') t = Some tx"
    by (auto simp: consumeOIDCTransaction_def split: option.splits if_splits prod.splits)
  obtain access raw d v where steps: "txCodeVerifier tx \<noteq> []"
      "Exchange P (query_get r ''code'') (txCodeVerifier tx) = Some (access, Some raw)"
      "VerifyToken P raw = Some d" "claim_string d ''nonce'' = Some (txNonce tx)"
      "populateIdentityFromClaims ident d gc = Some v"
      "u = SetAttribute AttrAuthSource (AString AuthSourceOIDC)
         (SetAttribute AttrAccessToken (AString access) (v\<lparr>authenticated := True, authTime := t\<rparr>))"
      "loc = safeOIDCRedirectURL parse (txRedirectURL tx)"
    using assms con by (auto simp: HandleCallback_def Let_def split: option.splits prod.splits if_splits)
  note facts = populateIdentity_facts [OF steps(5)]
  have exp: "t < txExpiresAt tx" using tx by (simp add: getOIDCTransaction_Some)
  have eqs: "Groups u = Groups v" "UserName u = UserName v" "authenticated u"
      "GetAttribute u AttrAccessToken = Some (AString access)"
    using steps(6) by (simp_all add: Groups_def UserName_def SetAttribute_def GetAttribute_def update_conv' attr_name_defs)
  show ?thesis
    by (rule exI [of _ tx], rule exI [of _ access], rule exI [of _ raw], rule exI [of _ d])
       (simp only: tx exp steps(1-4,7) eqs facts facts(2) [unfolded facts(1)] simp_thms)
qed

text \<open>A transaction of state s, presented twice, with another login in between.\<close>

definition sample_tx :: "string \<Rightarrow> oidcTransaction" where
  "sample_tx s = \<lparr>txState = s, txRedirectURL = ''/'', txNonce = ''n'', txCodeVerifier = ''v'', txExpiresAt = 120\<rparr>"

definition sample_attempts :: "attempt list" where
  "sample_attempts =
     [\<lparr>atState = ''s'', atSession = Some (Some (SvString ''s'')), atTime = 10, atSaved = True\<rparr>,
      \<lparr>atState = ''r'', atSession = Some (Some (SvString ''r'')), atTime = 20, atSaved = True\<rparr>,
      \<lparr>atState = ''s'', atSession = Some (Some (SvString ''s'')), atTime = 30, atSaved = True\<rparr>]"


subsection \<open>Where a login may lead\<close>

text \<open>
  What \<open>URL.RequestURI\<close> promises of a URL without scheme and host: it is the encoded path and
  then the query, and encoding leaves the leading slashes of a path as they are.
\<close>

definition uri_law :: "(string \<Rightarrow> request_uri option) \<Rightarrow> bool" where
  "uri_law parse \<longleftrightarrow>
     (\<forall>s p. parse s = Some p \<and> \<not> ruAbs p \<and> ruHost p = [] \<longrightarrow>
        HasPrefix (ruRequestURI p) ''/'' = HasPrefix (ruPath p) ''/'' \<and> HasPrefix (ruRequestURI p) ''//'' = HasPrefix (ruPath p) ''//'')"


subsection \<open>A login\<close>

definition sample_provider :: provider where
  "sample_provider = \<lparr>Exchange = (\<lambda>code v. if code = ''c'' \<and> v = ''v'' then Some (''access'', Some ''raw'') else None),
     VerifyToken = (\<lambda>raw. if raw = ''raw'' then Some [''nonce'' \<mapsto> CString ''n'', ''upn'' \<mapsto> CString ''bob''] else None)\<rparr>"

definition callback_request :: Request where
  "callback_request = \<lparr>rMethod = ''GET'', rHost = ''gw'', rRemoteAddr = ''10.0.0.1:1'', rHeader = (\<lambda>k. []),
     rQuery = [''state'' \<mapsto> [''s''], ''code'' \<mapsto> [''c'']]\<rparr>"

definition parse_plain :: "string \<Rightarrow> request_uri option" where
  "parse_plain s = Some \<lparr>ruAbs = False, ruHost = [], ruPath = s, ruRequestURI = s\<rparr>"

definition sample_callback :: "oidc_answer \<times> consumed" where
  "sample_callback = HandleCallback sample_provider (\<lambda>v. Some (sample_tx v)) parse_plain no_session 120 [] 10 True
     (Some (Some (SvString ''s''))) callback_request (NewUser ''i'') []"

lemma sample_callback_redirects: "\<exists>u. sample_callback = (OidcRedirect u ''/'', [(''s'', 130)])"
proof -
  have "\<exists>u. fst sample_callback = OidcRedirect u ''/''"
    by (simp add: sample_callback_def HandleCallback_def consumeOIDCTransaction_def getOIDCTransaction_def
        readOIDCTransaction_def markConsumed_def query_get_def callback_request_def sample_tx_def sample_provider_def
        claim_string_def populateIdentityFromClaims_def findUsernameInClaims_def Let_def SaveSessionIdentity_def
        no_session_def Marshal_def extractGroups_def safeOIDCRedirectURL_def parse_plain_def HasPrefix_def)
  moreover have "snd sample_callback = [(''s'', 130)]"
    by (simp add: sample_callback_def HandleCallback_def consumeOIDCTransaction_def getOIDCTransaction_def
        readOIDCTransaction_def markConsumed_def query_get_def callback_request_def sample_tx_def)
  ultimately show ?thesis by (simp add: prod_eq_iff)
qed

lemma HandleCallback_sound_witness:
  "\<exists>u. sample_callback = (OidcRedirect u ''/'', [(''s'', 130)]) \<and> authenticated u \<and> UserName u \<noteq> []
     \<and> GetAttribute u AttrAccessToken = Some (AString ''access'')"
proof -
  obtain u where u: "sample_callback = (OidcRedirect u ''/'', [(''s'', 130)])" using sample_callback_redirects by blast
  show ?thesis
    using HandleCallback_sound [OF u [unfolded sample_callback_def]] u
    by (auto simp: query_get_def callback_request_def getOIDCTransaction_Some readOIDCTransaction_def sample_tx_def
        sample_provider_def)
qed


end
