(* ===== verification/Rdp_Settings.thy ===== *)
theory Rdp_Settings
  imports Go_Net
begin

text \<open>
  Connection files: the table of settings and the builder that writes them out
  (\<open>rdp/rdp.go\<close>).

  The code walks over the fields of a structure by reflection and reads their tags; here the
  structure is the table \<open>RdpSettings\<close> of its fields, and its value gives each field its value.
  \<open>log.Fatal\<close> is \<open>Panic\<close>.
\<close>

subsection \<open>Settings\<close>

datatype field_kind = KString | KInt | KBool

datatype field_value = FString string | FInt int | FBool bool

record rdp_field =
  fName :: string
  fKind :: field_kind
  fTag :: string
  fDefault :: string

definition fld :: "string \<Rightarrow> field_kind \<Rightarrow> string \<Rightarrow> string \<Rightarrow> rdp_field" where
  "fld n k t d = \<lparr>fName = n, fKind = k, fTag = t, fDefault = d\<rparr>"

definition RdpSettings :: "rdp_field list" where
  "RdpSettings = [
   fld ''AllowFontSmoothing'' KBool ''allow font smoothing'' ''0'',
   fld ''AllowDesktopComposition'' KBool ''allow desktop composition'' ''0'',
   fld ''DisableFullWindowDrag'' KBool ''disable full window drag'' ''0'',
   fld ''DisableMenuAnims'' KBool ''disable menu anims'' ''0'',
   fld ''DisableThemes'' KBool ''disable themes'' ''0'',
   fld ''DisableCursorSetting'' KBool ''disable cursor setting'' ''0'',
   fld ''GatewayHostname'' KString ''gatewayhostname'' [],
   fld ''FullAddress'' KString ''full address'' [],
   fld ''AlternateFullAddress'' KString ''alternate full address'' [],
   fld ''Username'' KString ''username'' [],
   fld ''Domain'' KString ''domain'' [],
   fld ''GatewayCredentialsSource'' KInt ''gatewaycredentialssource'' ''0'',
   fld ''GatewayCredentialMethod'' KInt ''gatewayprofileusagemethod'' ''0'',
   fld ''GatewayUsageMethod'' KInt ''gatewayusagemethod'' ''0'',
   fld ''GatewayAccessToken'' KString ''gatewayaccesstoken'' [],
   fld ''PromptCredentialsOnce'' KBool ''promptcredentialonce'' ''true'',
   fld ''AuthenticationLevel'' KInt ''authentication level'' ''3'',
   fld ''EnableCredSSPSupport'' KBool ''enablecredsspsupport'' ''true'',
   fld ''EnableRdsAasAuth'' KBool ''enablerdsaadauth'' ''false'',
   fld ''DisableConnectionSharing'' KBool ''disableconnectionsharing'' ''false'',
   fld ''AlternateShell'' KString ''alternate shell'' [],
   fld ''AutoReconnectionEnabled'' KBool ''autoreconnection enabled'' ''true'',
   fld ''BandwidthAutodetect'' KBool ''bandwidthautodetect'' ''true'',
   fld ''NetworkAutodetect'' KBool ''networkautodetect'' ''true'',
   fld ''Compression'' KBool ''compression'' ''true'',
   fld ''VideoPlaybackMode'' KBool ''videoplaybackmode'' ''true'',
   fld ''ConnectionType'' KInt ''connection type'' ''2'',
   fld ''AudioCaptureMode'' KBool ''audiocapturemode'' ''false'',
   fld ''EncodeRedirectedVideoCapture'' KBool ''encode redirected video capture'' ''true'',
   fld ''RedirectedVideoCaptureEncodingQuality'' KInt ''redirected video capture encoding quality'' ''0'',
   fld ''AudioMode'' KInt ''audiomode'' ''0'',
   fld ''CameraStoreRedirect'' KString ''camerastoredirect'' ''false'',
   fld ''DeviceStoreRedirect'' KString ''devicestoredirect'' ''false'',
   fld ''DriveStoreRedirect'' KString ''drivestoredirect'' ''false'',
   fld ''KeyboardHook'' KInt ''keyboardhook'' ''2'',
   fld ''RedirectClipboard'' KBool ''redirectclipboard'' ''true'',
   fld ''RedirectComPorts'' KBool ''redirectcomports'' ''false'',
   fld ''RedirectLocation'' KBool ''redirectlocation'' ''false'',
   fld ''RedirectPrinters'' KBool ''redirectprinters'' ''true'',
   fld ''RedirectSmartcards'' KBool ''redirectsmartcards'' ''true'',
   fld ''RedirectWebAuthn'' KBool ''redirectwebauthn'' ''true'',
   fld ''UsbDeviceStoRedirect'' KString ''usbdevicestoredirect'' [],
   fld ''UseMultimon'' KBool ''use multimon'' ''false'',
   fld ''SelectedMonitors'' KString ''selectedmonitors'' [],
   fld ''MaximizeToCurrentDisplays'' KBool ''maximizetocurrentdisplays'' ''false'',
   fld ''SingleMonInWindowedMode'' KBool ''singlemoninwindowedmode'' ''0'',
   fld ''ScreenModeId'' KInt ''screen mode id'' ''2'',
   fld ''SmartSizing'' KBool ''smart sizing'' ''false'',
   fld ''DynamicResolution'' KBool ''dynamic resolution'' ''true'',
   fld ''DesktopSizeId'' KInt ''desktop size id'' [],
   fld ''DesktopHeight'' KInt ''desktopheight'' [],
   fld ''DesktopWidth'' KInt ''desktopwidth'' [],
   fld ''DesktopScaleFactor'' KInt ''desktopscalefactor'' [],
   fld ''BitmapCacheSize'' KInt ''bitmapcachesize'' ''1500'',
   fld ''BitmapCachePersistEnable'' KBool ''bitmapcachepersistenable'' ''true'',
   fld ''RemoteApplicationCmdLine'' KString ''remoteapplicationcmdline'' [],
   fld ''RemoteAppExpandWorkingDir'' KBool ''remoteapplicationexpandworkingdir'' ''true'',
   fld ''RemoteApplicationFile'' KString ''remoteapplicationfile'' ''true'',
   fld ''RemoteApplicationIcon'' KString ''remoteapplicationicon'' [],
   fld ''RemoteApplicationMode'' KBool ''remoteapplicationmode'' ''false'',
   fld ''RemoteApplicationName'' KString ''remoteapplicationname'' [],
   fld ''RemoteApplicationProgram'' KString ''remoteapplicationprogram'' []]"

type_synonym settings = "string \<Rightarrow> field_value"

record Builder =
  Settings :: settings
  Unset :: "string list"

text \<open>The sources of gateway credentials.\<close>

definition SourceNTLM :: int where "SourceNTLM = 0"
definition SourceSmartCard :: int where "SourceSmartCard = 1"
definition SourceCurrent :: int where "SourceCurrent = 2"
definition SourceBasic :: int where "SourceBasic = 3"
definition SourceUserSelect :: int where "SourceUserSelect = 4"
definition SourceCookie :: int where "SourceCookie = 5"

definition zero_of :: "field_kind \<Rightarrow> field_value" where
  "zero_of k = (case k of KString \<Rightarrow> FString [] | KInt \<Rightarrow> FInt 0 | KBool \<Rightarrow> FBool False)"

definition true_text :: "string \<Rightarrow> bool" where
  "true_text v \<longleftrightarrow> v = ''true'' \<or> v = ''1''"

definition setVariable :: "rdp_field \<Rightarrow> string \<Rightarrow> settings \<Rightarrow> settings option" where
  "setVariable f v S =
     (case fKind f of
        KString \<Rightarrow> Some (S(fName f := FString v))
      | KInt \<Rightarrow> (case Atoi v of None \<Rightarrow> None | Some i \<Rightarrow> Some (S(fName f := FInt i)))
      | KBool \<Rightarrow> Some (S(fName f := FBool (true_text v))))"

primrec initStruct :: "rdp_field list \<Rightarrow> settings \<Rightarrow> settings go" where
  "initStruct [] S = Ret S"
| "initStruct (f # fs) S =
     (if fDefault f = [] then initStruct fs S
      else (case setVariable f (fDefault f) S of
              None \<Rightarrow> Panic
            | Some S \<Rightarrow> initStruct fs S))"

definition zero_settings :: settings where
  "zero_settings n = (case find (\<lambda>f. fName f = n) RdpSettings of None \<Rightarrow> FString [] | Some f \<Rightarrow> zero_of (fKind f))"

definition NewBuilder :: "Builder go" where
  "NewBuilder = go_bind (initStruct RdpSettings zero_settings) (\<lambda>c. Ret \<lparr>Settings = c, Unset = []\<rparr>)"

subsection \<open>Writing a file\<close>

definition CRLF :: string where "CRLF = [CHR 0x0D, CHR 0x0A]"

definition fmt_int :: "int \<Rightarrow> string" where
  "fmt_int n = (if n < 0 then CHR ''-'' # Itoa (nat (- n)) else Itoa (nat n))"

definition IsZero :: "field_value \<Rightarrow> bool" where
  "IsZero v \<longleftrightarrow> (case v of FString s \<Rightarrow> s = [] | FInt n \<Rightarrow> n = 0 | FBool b \<Rightarrow> \<not> b)"

definition isZero :: "rdp_field \<Rightarrow> field_value \<Rightarrow> bool go" where
  "isZero f v =
     (let t = fDefault f in
      if t = [] then Ret (IsZero v)
      else (case v of
              FString s \<Rightarrow> Ret (s = t)
            | FInt n \<Rightarrow> (case Atoi t of None \<Rightarrow> Panic | Some i \<Rightarrow> Ret (n = i))
            | FBool b \<Rightarrow> Ret (b = true_text t)))"

definition isSet :: "rdp_field \<Rightarrow> string list \<Rightarrow> bool" where
  "isSet f unset \<longleftrightarrow> list_ex (\<lambda>v. v = fName f) unset"

definition field_text :: "field_value \<Rightarrow> string" where
  "field_text v =
     (case v of
        FString s \<Rightarrow> ''s:'' @ s
      | FInt n \<Rightarrow> ''i:'' @ fmt_int n
      | FBool b \<Rightarrow> ''i:'' @ (if b then ''1'' else ''0''))"

primrec addStructToString :: "rdp_field list \<Rightarrow> settings \<Rightarrow> string list \<Rightarrow> string \<Rightarrow> string go" where
  "addStructToString [] S unset sb = Ret sb"
| "addStructToString (f # fs) S unset sb =
     go_bind (isZero f (S (fName f))) (\<lambda>zero.
       if zero \<and> \<not> isSet f unset then addStructToString fs S unset sb
       else addStructToString fs S unset (sb @ fTag f @ '':'' @ field_text (S (fName f)) @ CRLF))"

definition Builder_String :: "Builder \<Rightarrow> string go" where
  "Builder_String b = addStructToString RdpSettings (Settings b) (Unset b) []"

subsection \<open>The table\<close>

lemma tags_distinct: "distinct (map fTag RdpSettings)" by code_simp

lemma names_distinct: "distinct (map fName RdpSettings)" by code_simp

definition default_ok :: "rdp_field \<Rightarrow> bool" where
  "default_ok f \<longleftrightarrow> (fKind f = KInt \<and> fDefault f \<noteq> [] \<longrightarrow> Atoi (fDefault f) \<noteq> None)"

definition tag_ok :: "string \<Rightarrow> bool" where
  "tag_ok t \<longleftrightarrow> is_ascii t \<and> t \<noteq> [] \<and> \<not> ascii_space (hd t) \<and> \<not> ascii_space (last t)
     \<and> CHR 0x0A \<notin> set t \<and> CHR '':'' \<notin> set t \<and> \<not> HasPrefix t ''#'' \<and> length t < 100"

lemma table_ok: "list_all (\<lambda>f. default_ok f \<and> tag_ok (fTag f)) RdpSettings" by code_simp

lemma field_ok: "f \<in> set RdpSettings \<Longrightarrow> default_ok f \<and> tag_ok (fTag f)"
  using table_ok by (simp only: list_all_iff)

definition kind_of :: "field_value \<Rightarrow> field_kind" where
  "kind_of v = (case v of FString s \<Rightarrow> KString | FInt n \<Rightarrow> KInt | FBool b \<Rightarrow> KBool)"

text \<open>The settings have the types of the structure.\<close>

definition kinded :: "settings \<Rightarrow> bool" where
  "kinded S \<longleftrightarrow> (\<forall>f \<in> set RdpSettings. kind_of (S (fName f)) = fKind f)"

lemma same_name: "f \<in> set RdpSettings \<Longrightarrow> g \<in> set RdpSettings \<Longrightarrow> fName f = fName g \<Longrightarrow> f = g"
  using names_distinct by (simp add: distinct_map inj_on_def)

lemma setVariable_kinded:
  assumes "f \<in> set RdpSettings" "kinded S" "setVariable f v S = Some S'"
  shows "kinded S'"
  unfolding kinded_def
proof
  fix g assume g: "g \<in> set RdpSettings"
  have "kind_of (S' (fName f)) = fKind f"
    using assms(3) by (auto simp: setVariable_def kind_of_def split: field_kind.splits option.splits)
  moreover have "fName g \<noteq> fName f \<Longrightarrow> S' (fName g) = S (fName g)"
    using assms(3) by (auto simp: setVariable_def split: field_kind.splits option.splits)
  ultimately show "kind_of (S' (fName g)) = fKind g"
    using same_name [OF g assms(1)] assms(2) g by (cases "fName g = fName f") (auto simp: kinded_def)
qed

lemma initStruct_kinded:
  "set fs \<subseteq> set RdpSettings \<Longrightarrow> kinded S \<Longrightarrow> \<exists>S'. initStruct fs S = Ret S' \<and> kinded S'"
proof (induction fs arbitrary: S)
  case (Cons f fs)
  then have f: "f \<in> set RdpSettings" and fs: "set fs \<subseteq> set RdpSettings" by simp_all
  show ?case
  proof (cases "fDefault f = []")
    case False
    then obtain S1 where S1: "setVariable f (fDefault f) S = Some S1"
      using field_ok [OF f] by (cases "fKind f") (auto simp: setVariable_def default_ok_def)
    then have "kinded S1" using setVariable_kinded [OF f] Cons.prems by blast
    then show ?thesis using Cons.IH [OF fs] False S1 by simp
  qed (use Cons.IH [OF fs] Cons.prems in simp)
qed simp

lemma find_distinct: "distinct (map g xs) \<Longrightarrow> x \<in> set xs \<Longrightarrow> find (\<lambda>y. g y = g x) xs = Some x"
  by (induction xs) auto

lemma zero_kinded: "kinded zero_settings"
  unfolding kinded_def
proof
  fix f assume "f \<in> set RdpSettings"
  then have "zero_settings (fName f) = zero_of (fKind f)"
    by (simp only: zero_settings_def find_distinct [OF names_distinct] option.case)
  then show "kind_of (zero_settings (fName f)) = fKind f"
    by (simp add: zero_of_def kind_of_def split: field_kind.splits)
qed

lemma initial_settings: "\<exists>c. initStruct RdpSettings zero_settings = Ret c \<and> kinded c"
  by (rule initStruct_kinded [OF _ zero_kinded]) simp

lemma NewBuilder_kinded: "\<exists>b. NewBuilder = Ret b \<and> kinded (Settings b) \<and> Unset b = []"
  using initial_settings by (auto simp: NewBuilder_def)

end
