(* ===== verification/Rdp_File.thy ===== *)
theory Rdp_File
  imports Rdp_Settings "HOL-Library.Char_ord" "HOL-Library.List_Lexorder" "HOL-Library.AList"
begin

text \<open>
  The parser and writer of connection files (\<open>rdp/koanf/parsers/rdp/rdp.go\<close>), builders from a
  template file, and what a parser reads back from a file the builder wrote. Reading the file and
  \<open>mapstructure\<close>, which fills the structure from a parsed file and lists the fields left
  unset, are parameters.
\<close>

subsection \<open>Reading a file\<close>

text \<open>
  \<open>bufio.Scanner\<close> with its default limits: lines end at a line feed, a carriage return before it
  is dropped, an empty rest is no line. A line that does not fit the buffer of 64 KiB stops the
  scanner; the code does not ask it for the error.
\<close>

definition dropCR :: "string \<Rightarrow> string" where
  "dropCR l = (if l \<noteq> [] \<and> last l = CHR 0x0D then butlast l else l)"

definition MaxScanTokenSize :: nat where "MaxScanTokenSize = 65536"

lemma shorter_rest: "s \<noteq> [] \<Longrightarrow> length (tl (dropWhile P s)) < length s"
  using length_dropWhile_le [of P s] by (cases s) (simp_all add: le_less_trans [OF diff_le_self] less_Suc_eq_le)

function scan_lines :: "string \<Rightarrow> string list" where
  "scan_lines s =
     (if s = [] then []
      else let l = takeWhile (\<lambda>c. c \<noteq> CHR 0x0A) s
        in if length l \<ge> MaxScanTokenSize then []
           else dropCR l # scan_lines (tl (dropWhile (\<lambda>c. c \<noteq> CHR 0x0A) s)))"
  by pat_completeness auto
termination
  by (relation "measure length") (simp_all add: shorter_rest del: length_tl)

declare scan_lines.simps [simp del]

datatype rdp_value = RBool bool | RInt int | RString string | ROther

type_synonym rdp_map = "(string \<times> rdp_value) list"

datatype rdp_error = Malformed nat string | BadInteger nat string | CannotMarshal

primrec unmarshal_lines :: "nat \<Rightarrow> rdp_map \<Rightarrow> string list \<Rightarrow> rdp_error + rdp_map" where
  "unmarshal_lines c mp [] = Inr mp"
| "unmarshal_lines c mp (l # ls) =
     (let c = c + 1; line = TrimSpace l in
      if line = [] \<or> HasPrefix line ''#'' then unmarshal_lines c mp ls
      else (case SplitN line CHR '':'' 3 of
              [a, b, d] \<Rightarrow>
                (let key = TrimSpace a; t = TrimSpace b; val = TrimSpace d in
                 if t = ''i'' then
                   (case Atoi val of
                      None \<Rightarrow> Inl (BadInteger c line)
                    | Some intValue \<Rightarrow> unmarshal_lines c (AList.update key (RInt intValue) mp) ls)
                 else if t = ''s'' then unmarshal_lines c (AList.update key (RString val) mp) ls
                 else if t = ''b'' then unmarshal_lines c (AList.update key (RString val) mp) ls
                 else Inl (Malformed c line))
            | _ \<Rightarrow> Inl (Malformed c line)))"

definition rdp_Unmarshal :: "string \<Rightarrow> rdp_error + rdp_map" where
  "rdp_Unmarshal b = unmarshal_lines 0 [] (scan_lines b)"

text \<open>\<open>Marshal\<close>: the keys in order, one line each.\<close>

primrec marshal_keys :: "rdp_map \<Rightarrow> string \<Rightarrow> string list \<Rightarrow> rdp_error + string" where
  "marshal_keys mp b [] = Inr b"
| "marshal_keys mp b (key # keys) =
     (case map_of mp key of
        Some (RBool v) \<Rightarrow> marshal_keys mp (b @ key @ (if v then '':i:1'' else '':i:0'') @ CRLF) keys
      | Some (RInt v) \<Rightarrow> marshal_keys mp (b @ key @ '':i:'' @ fmt_int v @ CRLF) keys
      | Some (RString v) \<Rightarrow> marshal_keys mp (b @ key @ '':s:'' @ v @ CRLF) keys
      | _ \<Rightarrow> Inl CannotMarshal)"

definition rdp_Marshal :: "rdp_map \<Rightarrow> rdp_error + string" where
  "rdp_Marshal mp = marshal_keys mp [] (sort (map fst mp))"

text \<open>A builder from a template: the file, the parser, and \<open>decode\<close> over the defaults.\<close>

definition NewBuilderFromFile ::
    "(string \<Rightarrow> string option) \<Rightarrow> (rdp_map \<Rightarrow> settings \<Rightarrow> (settings \<times> string list) option) \<Rightarrow> string
      \<Rightarrow> Builder option go" where
  "NewBuilderFromFile read decode filename =
     go_bind (initStruct RdpSettings zero_settings) (\<lambda>c.
       case read filename of
         None \<Rightarrow> Ret None
       | Some b \<Rightarrow>
           (case rdp_Unmarshal b of
              Inl e \<Rightarrow> Ret None
            | Inr mp \<Rightarrow>
                (case decode mp c of
                   None \<Rightarrow> Ret None
                 | Some (c, unset) \<Rightarrow> Ret (Some \<lparr>Settings = c, Unset = unset\<rparr>))))"

subsection \<open>Lines read back\<close>

text \<open>A line of a file, and what the parser makes of its value.\<close>

definition line_of :: "string \<times> rdp_value \<Rightarrow> string" where
  "line_of e = fst e @ (case snd e of
     RBool v \<Rightarrow> if v then '':i:1'' else '':i:0'' | RInt n \<Rightarrow> '':i:'' @ fmt_int n | RString s \<Rightarrow> '':s:'' @ s | ROther \<Rightarrow> [])"

definition normal :: "rdp_value \<Rightarrow> rdp_value" where
  "normal v = (case v of RBool b \<Rightarrow> RInt (if b then 1 else 0) | _ \<Rightarrow> v)"

text \<open>
  What survives: keys without colon and line feed that are no comment, trimmed strings without
  line feed, numbers of 64 bits, lines that fit the scanner.
\<close>

definition value_ok :: "rdp_value \<Rightarrow> bool" where
  "value_ok v \<longleftrightarrow> (case v of
     RBool b \<Rightarrow> True | RInt n \<Rightarrow> - (2 ^ 63) \<le> n \<and> n < 2 ^ 63
   | RString s \<Rightarrow> TrimSpace s = s \<and> CHR 0x0A \<notin> set s | ROther \<Rightarrow> False)"

definition line_ok :: "string \<times> rdp_value \<Rightarrow> bool" where
  "line_ok e \<longleftrightarrow> TrimSpace (fst e) = fst e \<and> CHR 0x0A \<notin> set (fst e) \<and> CHR '':'' \<notin> set (fst e) \<and> \<not> HasPrefix (fst e) ''#''
     \<and> value_ok (snd e) \<and> length (line_of e) < 65535"

text \<open>The third field of a line, and its type letter.\<close>

definition val_text :: "rdp_value \<Rightarrow> string" where
  "val_text v = (case v of RBool b \<Rightarrow> if b then ''1'' else ''0'' | RInt n \<Rightarrow> fmt_int n | RString s \<Rightarrow> s | ROther \<Rightarrow> [])"

definition letter :: "rdp_value \<Rightarrow> string" where
  "letter v = (case v of RString s \<Rightarrow> ''s'' | _ \<Rightarrow> ''i'')"

lemma line_of_parts: "snd e \<noteq> ROther \<Longrightarrow> line_of e = fst e @ CHR '':'' # letter (snd e) @ CHR '':'' # val_text (snd e)"
  by (cases "snd e") (simp_all add: line_of_def letter_def val_text_def)

lemma takeWhile_at: "c \<notin> set a \<Longrightarrow> takeWhile (\<lambda>x. x \<noteq> c) (a @ c # b) = a"
  by (induction a) auto

lemma dropWhile_at: "c \<notin> set a \<Longrightarrow> dropWhile (\<lambda>x. x \<noteq> c) (a @ c # b) = c # b"
  by (induction a) auto

lemma Atoi_fmt_int: "- (2 ^ 63) \<le> n \<Longrightarrow> n < 2 ^ 63 \<Longrightarrow> Atoi (fmt_int n) = Some n"
proof (cases "n < 0")
  case True
  assume "- (2 ^ 63) \<le> n"
  then show ?thesis using True ParseDigits_Itoa [of "nat (- n)"] by (simp add: fmt_int_def Atoi_def)
next
  case False
  assume "n < 2 ^ 63"
  then show ?thesis using False Atoi_Itoa [of "nat n"] by (simp add: fmt_int_def)
qed

lemma fmt_int_chars: "set (fmt_int n) \<subseteq> {c. is_digit c} \<union> {CHR ''-''}"
  using Itoa_digits [of "nat n"] Itoa_digits [of "nat (- n)"] by (auto simp: fmt_int_def list_all_iff)

lemma no_LF_digit: "\<not> is_digit (CHR 0x0A)"
  by (simp add: is_digit_def)

lemma fmt_int_clean: "TrimSpace (fmt_int n) = fmt_int n" "CHR 0x0A \<notin> set (fmt_int n)"
proof -
  have c: "(of_char c :: nat) < 0x80 \<and> \<not> ascii_space c" if "c \<in> set (fmt_int n)" for c
    using fmt_int_chars [of n] that by (auto simp: is_digit_def ascii_space_def)
  then have a: "is_ascii (fmt_int n)" by (simp add: is_ascii_def)
  have "fmt_int n \<noteq> []" using Itoa_digits by (simp add: fmt_int_def)
  then show "TrimSpace (fmt_int n) = fmt_int n"
    using c by (simp add: TrimSpace_ascii [OF a])
  show "CHR 0x0A \<notin> set (fmt_int n)" using c [of "CHR 0x0A"] by (auto simp: ascii_space_def)
qed

lemma one_char_clean: "(of_char c :: nat) < 0x80 \<Longrightarrow> \<not> ascii_space c \<Longrightarrow> TrimSpace [c] = [c]"
  by (subst TrimSpace_ascii) (simp_all add: is_ascii_def)

lemma letter_clean: "TrimSpace (letter v) = letter v" "CHR '':'' \<notin> set (letter v)" "CHR 0x0A \<notin> set (letter v)"
  by (cases v; simp add: letter_def one_char_clean ascii_space_def)+

lemma val_clean:
  assumes "value_ok v" shows "TrimSpace (val_text v) = val_text v" "CHR 0x0A \<notin> set (val_text v)"
  using assms by (cases v; simp add: val_text_def value_ok_def fmt_int_clean one_char_clean ascii_space_def)+

lemma line_clean:
  assumes "line_ok e"
  shows "TrimSpace (line_of e) = line_of e" "CHR 0x0A \<notin> set (line_of e)" "line_of e \<noteq> []" "\<not> HasPrefix (line_of e) ''#''"
proof -
  have v: "value_ok (snd e)" and r: "snd e \<noteq> ROther" using assms by (auto simp: line_ok_def value_ok_def)
  note parts = line_of_parts [OF r]
  show "TrimSpace (line_of e) = line_of e"
    unfolding parts using assms v
    by (intro TrimSpace_around colon_no_space) (simp_all add: line_ok_def letter_clean val_clean)
  show "CHR 0x0A \<notin> set (line_of e)"
    unfolding parts using assms v by (simp add: line_ok_def letter_clean val_clean)
  show "line_of e \<noteq> []" unfolding parts by simp
  show "\<not> HasPrefix (line_of e) ''#''"
    unfolding parts using assms by (cases "fst e") (auto simp: line_ok_def HasPrefix_def)
qed

lemma scan_line:
  assumes "line_ok e" shows "scan_lines (line_of e @ CRLF @ r) = line_of e # scan_lines r"
proof -
  let ?t = "line_of e @ CRLF @ r"
  have l: "CHR 0x0A \<notin> set (line_of e @ [CHR 0x0D])" using line_clean(2) [OF assms] by simp
  have t: "?t = (line_of e @ [CHR 0x0D]) @ CHR 0x0A # r" by (simp add: CRLF_def)
  have tk: "takeWhile (\<lambda>c. c \<noteq> CHR 0x0A) ?t = line_of e @ [CHR 0x0D]"
    and dr: "dropWhile (\<lambda>c. c \<noteq> CHR 0x0A) ?t = CHR 0x0A # r"
    unfolding t using l by (simp_all only: takeWhile_at dropWhile_at not_False_eq_True)
  have "\<not> MaxScanTokenSize \<le> length (line_of e @ [CHR 0x0D])"
    using assms by (simp add: line_ok_def MaxScanTokenSize_def)
  moreover have "?t \<noteq> []" by (simp add: CRLF_def)
  moreover have "dropCR (line_of e @ [CHR 0x0D]) = line_of e" by (simp add: dropCR_def)
  ultimately show ?thesis
    by (subst scan_lines.simps) (simp only: tk dr Let_def if_False list.sel)
qed

lemma scan_file: "\<forall>e \<in> set es. line_ok e \<Longrightarrow> scan_lines (concat (map (\<lambda>e. line_of e @ CRLF) es)) = map line_of es"
  by (induction es) (simp_all add: scan_line, simp add: scan_lines.simps)

lemma Atoi_bits: "Atoi ''0'' = Some 0" "Atoi ''1'' = Some 1"
  by code_simp+

lemma Atoi_val: "value_ok v \<Longrightarrow> normal v = RInt n \<Longrightarrow> Atoi (val_text v) = Some n"
  by (cases v) (auto simp: value_ok_def normal_def val_text_def Atoi_fmt_int Atoi_bits split: if_splits)

lemma normal_cases:
  assumes "value_ok v"
  obtains n where "normal v = RInt n" "letter v = ''i''" | "normal v = RString (val_text v)" "letter v = ''s''"
  using assms by (cases v) (auto simp: value_ok_def normal_def letter_def val_text_def)

lemma parse_line:
  assumes "line_ok e"
  shows "unmarshal_lines c mp (line_of e # ls) = unmarshal_lines (c + 1) (AList.update (fst e) (normal (snd e)) mp) ls"
proof -
  have v: "value_ok (snd e)" and r: "snd e \<noteq> ROther" using assms by (auto simp: line_ok_def value_ok_def)
  have parts: "SplitN (line_of e) CHR '':'' 3 = [fst e, letter (snd e), val_text (snd e)]"
    unfolding line_of_parts [OF r] using assms letter_clean(2) [of "snd e"]
    by (simp add: numeral_3_eq_3 Cut_at line_ok_def)
  have "TrimSpace (fst e) = fst e" using assms by (simp add: line_ok_def)
  note clean = this line_clean [OF assms] letter_clean(1) [of "snd e"] val_clean(1) [OF v] parts
  from v show ?thesis
  proof (cases rule: normal_cases)
    case (1 n)
    then show ?thesis using clean Atoi_val [OF v] by simp
  next
    case 2
    then show ?thesis using clean by simp
  qed
qed

text \<open>Lines with distinct keys come back one by one, in order.\<close>

lemma update_fresh: "k \<notin> fst ` set m \<Longrightarrow> AList.update k v m = m @ [(k, v)]"
  by (induction m) auto

lemma parse_lines:
  "\<forall>e \<in> set es. line_ok e \<Longrightarrow> distinct (map fst (mp @ es))
     \<Longrightarrow> unmarshal_lines c mp (map line_of es) = Inr (mp @ map (\<lambda>e. (fst e, normal (snd e))) es)"
proof (induction es arbitrary: c mp)
  case (Cons e es)
  have "fst e \<notin> fst ` set mp" using Cons.prems(2) by auto
  then show ?case
    using Cons.IH [of "mp @ [(fst e, normal (snd e))]" "c + 1"] Cons.prems
    by (simp add: parse_line update_fresh del: unmarshal_lines.simps)
qed simp

lemma file_reads_back:
  assumes "\<forall>e \<in> set es. line_ok e" "distinct (map fst es)"
  shows "rdp_Unmarshal (concat (map (\<lambda>e. line_of e @ CRLF) es)) = Inr (map (\<lambda>e. (fst e, normal (snd e))) es)"
  using parse_lines [of es "[]" 0] assms by (simp add: rdp_Unmarshal_def scan_file)

lemma marshal_keys_lines:
  "\<forall>k \<in> set keys. \<exists>v. map_of mp k = Some v \<and> v \<noteq> ROther
     \<Longrightarrow> marshal_keys mp b keys = Inr (b @ concat (map (\<lambda>k. line_of (k, the (map_of mp k)) @ CRLF) keys))"
proof (induction keys arbitrary: b)
  case (Cons key keys)
  obtain v where v: "map_of mp key = Some v" "v \<noteq> ROther" using Cons.prems by auto
  show ?case using Cons.IH Cons.prems v by (cases v) (simp_all add: line_of_def)
qed simp

lemma map_of_over: "map_of (map (\<lambda>x. (x, h x)) xs) k = (if k \<in> set xs then Some (h k) else None)"
  by (induction xs) auto

text \<open>
  C39: Connection files survive writing and parsing: a map whose keys and values fit a line each is
  written in the order of its keys, and the parser reads every entry back, truth values as 1 and 0.
\<close>

theorem rdp_Unmarshal_Marshal:
  assumes d: "distinct (map fst mp)" and ok: "\<forall>e \<in> set mp. line_ok e"
  shows "\<exists>b es. rdp_Marshal mp = Inr b \<and> rdp_Unmarshal b = Inr es \<and> sorted (map fst es)
    \<and> (\<forall>k. map_of es k = map_option normal (map_of mp k))"
proof -
  let ?ks = "sort (map fst mp)" and ?e = "\<lambda>k. (k, the (map_of mp k))"
  have known: "map_of mp k \<noteq> None" if "k \<in> set ?ks" for k
    using that by (simp add: map_of_eq_None_iff)
  then have mem: "?e k \<in> set mp" if "k \<in> set ?ks" for k
    using that by (metis map_of_SomeD option.exhaust_sel)
  then have fits: "line_ok (?e k)" if "k \<in> set ?ks" for k using ok that by blast
  have "\<forall>k \<in> set ?ks. \<exists>v. map_of mp k = Some v \<and> v \<noteq> ROther"
  proof
    fix k assume k: "k \<in> set ?ks"
    then obtain v where "map_of mp k = Some v" using known by blast
    then show "\<exists>v. map_of mp k = Some v \<and> v \<noteq> ROther" using fits [OF k] by (auto simp: line_ok_def value_ok_def)
  qed
  then have m: "rdp_Marshal mp = Inr (concat (map (\<lambda>e. line_of e @ CRLF) (map ?e ?ks)))"
    unfolding rdp_Marshal_def by (simp only: marshal_keys_lines append.left_neutral map_map comp_def)
  have u: "rdp_Unmarshal (concat (map (\<lambda>e. line_of e @ CRLF) (map ?e ?ks)))
      = Inr (map (\<lambda>e. (fst e, normal (snd e))) (map ?e ?ks))"
    using fits d by (intro file_reads_back) (simp_all add: comp_def)
  have es: "map (\<lambda>e. (fst e, normal (snd e))) (map ?e ?ks) = map (\<lambda>k. (k, normal (the (map_of mp k)))) ?ks"
    by simp
  have l: "map_of (map (\<lambda>k. (k, normal (the (map_of mp k)))) ?ks) k = map_option normal (map_of mp k)" for k
    unfolding map_of_over by (cases "map_of mp k") (simp_all add: map_of_eq_None_iff weak_map_of_SomeI domI dom_map_of_conv_image_fst [symmetric])
  have "sorted (map fst (map (\<lambda>k. (k, normal (the (map_of mp k)))) ?ks))" by (simp add: comp_def)
  then show ?thesis using m u l unfolding es by blast
qed

subsection \<open>What a built file says\<close>

definition entry_of :: "settings \<Rightarrow> rdp_field \<Rightarrow> string \<times> rdp_value" where
  "entry_of S f = (fTag f, case S (fName f) of FString s \<Rightarrow> RString s | FInt n \<Rightarrow> RInt n | FBool b \<Rightarrow> RBool b)"

text \<open>A field is written unless it has its default and was not forced.\<close>

definition shown :: "Builder \<Rightarrow> rdp_field \<Rightarrow> bool" where
  "shown b f \<longleftrightarrow> isZero f (Settings b (fName f)) \<noteq> Ret True \<or> isSet f (Unset b)"

text \<open>Numbers of 64 bits, and trimmed strings without line feed that fit a line.\<close>

definition text_ok :: "settings \<Rightarrow> bool" where
  "text_ok S \<longleftrightarrow> (\<forall>f \<in> set RdpSettings. value_ok (snd (entry_of S f))
     \<and> (case S (fName f) of FString s \<Rightarrow> length s < 65000 | _ \<Rightarrow> True))"

lemma isZero_kinded:
  "f \<in> set RdpSettings \<Longrightarrow> kind_of v = fKind f \<Longrightarrow> \<exists>z. isZero f v = Ret z"
  using field_ok [of f] by (cases v) (auto simp: isZero_def kind_of_def default_ok_def Let_def)

lemma line_of_entry: "line_of (entry_of S f) = fTag f @ '':'' @ field_text (S (fName f))"
  by (cases "S (fName f)") (simp_all add: line_of_def entry_of_def field_text_def)

lemma addStructToString_lines:
  "set fs \<subseteq> set RdpSettings \<Longrightarrow> kinded S
     \<Longrightarrow> addStructToString fs S u sb = Ret (sb @ concat (map (\<lambda>f. line_of (entry_of S f) @ CRLF)
           (filter (shown \<lparr>Settings = S, Unset = u\<rparr>) fs)))"
proof (induction fs arbitrary: sb)
  case (Cons f fs)
  obtain z where z: "isZero f (S (fName f)) = Ret z"
    using isZero_kinded [of f "S (fName f)"] Cons.prems by (auto simp: kinded_def)
  show ?case using Cons z by (simp add: shown_def line_of_entry)
qed simp

lemma Builder_String_lines:
  "kinded (Settings b) \<Longrightarrow> Builder_String b
     = Ret (concat (map (\<lambda>e. line_of e @ CRLF) (map (entry_of (Settings b)) (filter (shown b) RdpSettings))))"
  using addStructToString_lines [of RdpSettings "Settings b" "Unset b" "[]"]
  by (cases b) (simp add: Builder_String_def comp_def)

lemma length_Itoa: "n < 10 ^ k \<Longrightarrow> 0 < k \<Longrightarrow> length (Itoa n) \<le> k"
proof (induction k arbitrary: n)
  case (Suc k)
  show ?case
  proof (cases "n < 10")
    case True
    then show ?thesis by (simp add: Itoa.simps)
  next
    case False
    then have "n div 10 < 10 ^ k" "0 < k" using Suc.prems by (auto intro: gr0I simp: less_mult_imp_div_less mult.commute)
    then have "length (Itoa (n div 10)) \<le> k" by (rule Suc.IH)
    then show ?thesis using False by (subst Itoa.simps) simp
  qed
qed simp

lemma length_fmt_int:
  assumes "- (2 ^ 63) \<le> n" "n < 2 ^ 63" shows "length (fmt_int n) \<le> 20"
proof -
  have "nat n < 10 ^ 19" "nat (- n) < 10 ^ 19" using assms by (simp_all add: nat_less_iff)
  then have "length (Itoa (nat n)) \<le> 19" "length (Itoa (nat (- n))) \<le> 19" by (intro length_Itoa; simp)+
  then show ?thesis by (simp add: fmt_int_def)
qed

lemma entry_line_ok: "f \<in> set RdpSettings \<Longrightarrow> text_ok S \<Longrightarrow> line_ok (entry_of S f)"
proof -
  assume f: "f \<in> set RdpSettings" and ok: "text_ok S"
  have t: "tag_ok (fTag f)" using field_ok [OF f] by blast
  have v: "value_ok (snd (entry_of S f))"
    and s: "case S (fName f) of FString s \<Rightarrow> length s < 65000 | _ \<Rightarrow> True"
    using ok f by (auto simp: text_ok_def)
  have "length (field_text (S (fName f))) < 65010"
    using v s length_fmt_int by (cases "S (fName f)") (fastforce simp: field_text_def value_ok_def entry_of_def)+
  then show ?thesis
    using t v unfolding line_ok_def line_of_entry
    by (simp add: TrimSpace_ascii tag_ok_def) (simp add: entry_of_def TrimSpace_ascii)
qed

lemma map_of_selected:
  "distinct (map g xs) \<Longrightarrow> x \<in> set xs
     \<Longrightarrow> map_of (map (\<lambda>x. (g x, h x)) (filter P xs)) (g x) = (if P x then Some (h x) else None)"
  by (induction xs) (auto simp: map_of_eq_None_iff image_iff)

text \<open>The parser's view of a built file, for other theories.\<close>

lemma built_file:
  assumes k: "kinded (Settings b)" and ok: "text_ok (Settings b)"
  shows "\<exists>content es. Builder_String b = Ret content \<and> rdp_Unmarshal content = Inr es
    \<and> (\<forall>f \<in> set RdpSettings. map_of es (fTag f) = (if shown b f then Some (normal (snd (entry_of (Settings b) f))) else None))"
proof -
  let ?fs = "filter (shown b) RdpSettings" and ?S = "Settings b"
  let ?es = "map (\<lambda>f. (fTag f, normal (snd (entry_of ?S f)))) ?fs"
  have "distinct (map fst (map (entry_of ?S) ?fs))"
    using tags_distinct by (simp add: comp_def entry_of_def distinct_map_filter)
  then have "rdp_Unmarshal (concat (map (\<lambda>e. line_of e @ CRLF) (map (entry_of ?S) ?fs)))
      = Inr (map (\<lambda>e. (fst e, normal (snd e))) (map (entry_of ?S) ?fs))"
    using entry_line_ok [OF _ ok] by (intro file_reads_back) auto
  moreover have "map (\<lambda>e. (fst e, normal (snd e))) (map (entry_of ?S) ?fs) = ?es" by (simp add: entry_of_def)
  ultimately have u: "rdp_Unmarshal (concat (map (\<lambda>e. line_of e @ CRLF) (map (entry_of ?S) ?fs))) = Inr ?es"
    by (simp only:)
  show ?thesis
    by (intro exI conjI ballI, rule Builder_String_lines [OF k], rule u, rule map_of_selected [OF tags_distinct])
qed

text \<open>
  C38: The file of a builder says what its settings are: parsed, it gives every field that is
  written its value under its tag, and no line for a field that is left out. This covers files
  whose strings are trimmed and free of line feeds.
\<close>

theorem rdp_file_says_settings:
  assumes "kinded (Settings b)" and "text_ok (Settings b)"
  shows "\<exists>content es. Builder_String b = Ret content \<and> rdp_Unmarshal content = Inr es
    \<and> (\<forall>f \<in> set RdpSettings. map_of es (fTag f) = (if shown b f then Some (normal (snd (entry_of (Settings b) f))) else None))"
  using built_file [OF assms] .

subsection \<open>Settings that are changed\<close>

lemma kinded_put: "kinded S \<Longrightarrow> g \<in> set RdpSettings \<Longrightarrow> kind_of v = fKind g \<Longrightarrow> kinded (S(fName g := v))"
  using same_name by (auto simp: kinded_def)

lemma text_ok_put:
  assumes "text_ok S" "value_ok (snd (entry_of (S(fName g := v)) g))" "\<And>s. v = FString s \<Longrightarrow> length s < 65000" "g \<in> set RdpSettings"
  shows "text_ok (S(fName g := v))"
  unfolding text_ok_def
proof
  fix f assume f: "f \<in> set RdpSettings"
  show "value_ok (snd (entry_of (S(fName g := v)) f))
      \<and> (case (S(fName g := v)) (fName f) of FString s \<Rightarrow> length s < 65000 | _ \<Rightarrow> True)"
  proof (cases "fName f = fName g")
    case True
    then have "f = g" using same_name [OF f assms(4)] by blast
    then show ?thesis using assms(2,3) by (auto split: field_value.split)
  next
    case False
    then show ?thesis using assms(1) f by (simp add: text_ok_def entry_of_def)
  qed
qed

lemma zero_text_ok: "text_ok zero_settings"
proof -
  have "snd (entry_of zero_settings f) = (case fKind f of KString \<Rightarrow> RString [] | KInt \<Rightarrow> RInt 0 | KBool \<Rightarrow> RBool False)
      \<and> zero_settings (fName f) = zero_of (fKind f)" if "f \<in> set RdpSettings" for f
    using find_distinct [OF names_distinct that]
    by (auto simp: entry_of_def zero_settings_def zero_of_def split: field_kind.split)
  then show ?thesis
    by (auto simp: text_ok_def value_ok_def zero_of_def split: field_kind.split)
qed

subsection \<open>Sample files\<close>

definition sample_map :: rdp_map where
  "sample_map = [(''username'', RString ''bob''), (''compression'', RBool True), (''session bpp'', RInt 32)]"

lemma sample_map_ok: "\<forall>e \<in> set sample_map. line_ok e"
  by (simp add: sample_map_def line_ok_def value_ok_def HasPrefix_def line_of_def TrimSpace_ascii is_ascii_def ascii_space_def
      less_eq_Suc_le [symmetric]) (use length_fmt_int [of 32] in simp)

lemma rdp_Unmarshal_Marshal_witness:
  "\<exists>b es. rdp_Marshal sample_map = Inr b \<and> rdp_Unmarshal b = Inr es \<and> map_of es ''compression'' = Some (RInt 1)
     \<and> map_of es ''username'' = Some (RString ''bob'')"
proof -
  obtain b es where r: "rdp_Marshal sample_map = Inr b" "rdp_Unmarshal b = Inr es"
      "\<And>k. map_of es k = map_option normal (map_of sample_map k)"
    using rdp_Unmarshal_Marshal [OF _ sample_map_ok] by (auto simp: sample_map_def)
  then have "map_of es ''compression'' = Some (RInt 1)" "map_of es ''username'' = Some (RString ''bob'')"
    by (simp_all add: sample_map_def normal_def)
  then show ?thesis using r by blast
qed

definition sample_builder :: Builder where
  "sample_builder = \<lparr>Settings = zero_settings(''FullAddress'' := FString ''pc1:3389''), Unset = [''RedirectClipboard'']\<rparr>"

lemma address_field: "fld ''FullAddress'' KString ''full address'' [] \<in> set RdpSettings"
  by (simp add: RdpSettings_def)

lemma clipboard_field: "fld ''RedirectClipboard'' KBool ''redirectclipboard'' ''true'' \<in> set RdpSettings"
  by (simp add: RdpSettings_def)

lemma rdp_file_says_settings_witness:
  "\<exists>content es. Builder_String sample_builder = Ret content \<and> rdp_Unmarshal content = Inr es
     \<and> map_of es ''full address'' = Some (RString ''pc1:3389'') \<and> map_of es ''redirectclipboard'' = Some (RInt 0)"
proof -
  let ?S = "zero_settings(''FullAddress'' := FString ''pc1:3389'')"
  have S: "Settings sample_builder = ?S" by (simp add: sample_builder_def)
  have k: "kinded ?S" using kinded_put [OF zero_kinded address_field] by (simp add: kind_of_def fld_def)
  have t: "text_ok ?S"
    using text_ok_put [OF zero_text_ok _ _ address_field, of "FString ''pc1:3389''"]
    by (simp add: fld_def entry_of_def value_ok_def TrimSpace_ascii is_ascii_def ascii_space_def)
  obtain content es where r: "Builder_String sample_builder = Ret content" "rdp_Unmarshal content = Inr es"
      "\<And>f. f \<in> set RdpSettings \<Longrightarrow>
         map_of es (fTag f) = (if shown sample_builder f then Some (normal (snd (entry_of ?S f))) else None)"
    using rdp_file_says_settings [of sample_builder] k t unfolding S by blast
  have z: "zero_settings ''RedirectClipboard'' = FBool False"
    using find_distinct [OF names_distinct clipboard_field] by (simp add: zero_settings_def zero_of_def fld_def)
  have "map_of es ''full address'' = Some (RString ''pc1:3389'')"
    using r(3) [OF address_field] by (simp add: fld_def shown_def isZero_def S entry_of_def normal_def IsZero_def)
  moreover have "map_of es ''redirectclipboard'' = Some (RInt 0)"
    using r(3) [OF clipboard_field] z by (simp add: fld_def shown_def isSet_def sample_builder_def entry_of_def normal_def)
  ultimately show ?thesis using r by blast
qed

end
