(* ===== verification/Go_Files.thy ===== *)
theory Go_Files
  imports Identity Go_Net
begin

text \<open>
  Files as the stores of the gateway use them: \<open>path/filepath\<close> on Unix, a disk whose system
  calls may fail, and the atomic writer of \<open>dashboard/fileutil.go\<close>.

  A path names the location that its cleaned components spell. The disk maps locations to
  files and directories; every system call advances a counter, and the parameter \<open>os\<close> says
  for each call whether it fails, how much of a failing write reached the disk, what random
  bytes and temporary names it yields and what the clock shows.
\<close>

subsection \<open>Paths\<close>

type_synonym location = "bool \<times> string list"

definition path_step :: "bool \<Rightarrow> string list \<Rightarrow> string \<Rightarrow> string list" where
  "path_step rooted st c =
     (if c = [] \<or> c = ''.'' then st
      else if c = ''..'' then
        (case st of
           [] \<Rightarrow> if rooted then [] else [''..'']
         | t # ts \<Rightarrow> if t = ''..'' then ''..'' # st else ts)
      else c # st)"

definition locate :: "string \<Rightarrow> location" where
  "locate p =
     (let rooted = HasPrefix p ''/''
      in (rooted, rev (foldl (path_step rooted) [] (Split p CHR ''/''))))"

fun render :: "location \<Rightarrow> string" where
  "render (rooted, ps) =
     (if rooted then CHR ''/'' # join_strings ''/'' ps
      else if ps = [] then ''.'' else join_strings ''/'' ps)"

definition Clean :: "string \<Rightarrow> string" where
  "Clean p = render (locate p)"

definition last_element :: "string \<Rightarrow> string" where
  "last_element p = rev (takeWhile (\<lambda>c. c \<noteq> CHR ''/'') (rev p))"

definition Base :: "string \<Rightarrow> string" where
  "Base p =
     (if p = [] then ''.''
      else let q = rev (dropWhile (\<lambda>c. c = CHR ''/'') (rev p))
           in if q = [] then ''/'' else last_element q)"

definition Dir_of :: "string \<Rightarrow> string" where
  "Dir_of p = Clean (rev (dropWhile (\<lambda>c. c \<noteq> CHR ''/'') (rev p)))"

definition Ext :: "string \<Rightarrow> string" where
  "Ext p =
     (let name = rev (last_element p); e = takeWhile (\<lambda>c. c \<noteq> CHR ''.'') name
      in if CHR ''.'' \<in> set name then CHR ''.'' # rev e else [])"

definition Join :: "string list \<Rightarrow> string" where
  "Join es = (let es = filter (\<lambda>e. e \<noteq> []) es
              in if es = [] then [] else Clean (join_strings ''/'' es))"

definition plain :: "string \<Rightarrow> bool" where
  "plain n \<longleftrightarrow> n \<noteq> [] \<and> n \<noteq> ''.'' \<and> n \<noteq> ''..'' \<and> CHR ''/'' \<notin> set n"

lemma Split_append: "Split (p @ sep # q) sep = Split p sep @ Split q sep"
  by (induction p) (auto simp: Split_nonempty split: list.splits)

lemma Split_single: "sep \<notin> set n \<Longrightarrow> Split n sep = [n]"
  by (induction n) auto

lemma Split_join: "ps \<noteq> [] \<Longrightarrow> \<forall>p \<in> set ps. sep \<notin> set p \<Longrightarrow> Split (join_strings [sep] ps) sep = ps"
  by (induction "[sep]" ps rule: join_strings.induct) (auto simp: Split_single Split_append)

lemma path_step_plain: "plain n \<Longrightarrow> path_step r st n = n # st"
  by (auto simp: plain_def path_step_def)

lemma path_steps_plain: "\<forall>n \<in> set ns. plain n \<Longrightarrow> foldl (path_step r) st ns = rev ns @ st"
  by (induction ns arbitrary: st) (auto simp: path_step_plain)

lemma path_steps_up: "foldl (path_step False) (replicate j ''..'') (replicate k ''..'') = replicate (k + j) ''..''"
proof (induction k arbitrary: j)
  case (Suc k)
  have "path_step False (replicate j ''..'') ''..'' = replicate (Suc j) ''..''"
    by (cases j) (auto simp: path_step_def)
  with Suc [of "Suc j"] show ?case by simp
qed simp

text \<open>Cleaned components: some \<open>..\<close> at the front of a relative path, then plain names.\<close>

definition clean_stack :: "bool \<Rightarrow> string list \<Rightarrow> bool" where
  "clean_stack r st \<longleftrightarrow> (\<exists>k ns. st = ns @ replicate k ''..'' \<and> (\<forall>n \<in> set ns. plain n) \<and> (r \<longrightarrow> k = 0))"

lemma clean_stack_step: "clean_stack r st \<Longrightarrow> CHR ''/'' \<notin> set c \<Longrightarrow> clean_stack r (path_step r st c)"
proof -
  assume "clean_stack r st" and c: "CHR ''/'' \<notin> set c"
  then obtain k ns where st: "st = ns @ replicate k ''..''" "\<forall>n \<in> set ns. plain n" "r \<longrightarrow> k = 0"
    by (auto simp: clean_stack_def)
  consider "c = [] \<or> c = ''.''" | "c = ''..''" "ns = []" | m ms where "c = ''..''" "ns = m # ms" | "plain c"
    using c by (cases ns) (auto simp: plain_def)
  then show "clean_stack r (path_step r st c)"
  proof cases
    case 1
    then show ?thesis using \<open>clean_stack r st\<close> by (auto simp: path_step_def)
  next
    case 2
    then have "path_step r st c = replicate (if r then 0 else Suc k) ''..''"
      using st by (cases k) (auto simp: path_step_def)
    then show ?thesis
      unfolding clean_stack_def by (intro exI [of _ "if r then 0 else Suc k"] exI [of _ "[]"]) simp
  next
    case 3
    then have "m \<noteq> ''..''" using st by (auto simp: plain_def)
    then have "path_step r st c = ms @ replicate k ''..''"
      using 3 st by (simp add: path_step_def)
    moreover have "\<forall>n \<in> set ms. plain n" using 3 st by simp
    ultimately show ?thesis using st(3) unfolding clean_stack_def by blast
  next
    case 4
    then have "path_step r st c = (c # ns) @ replicate k ''..''" by (simp add: path_step_plain st)
    moreover have "\<forall>n \<in> set (c # ns). plain n" using 4 st by simp
    ultimately show ?thesis using st(3) unfolding clean_stack_def by blast
  qed
qed

lemma clean_stack_steps:
  "clean_stack r st \<Longrightarrow> \<forall>c \<in> set cs. CHR ''/'' \<notin> set c \<Longrightarrow> clean_stack r (foldl (path_step r) st cs)"
  by (induction cs arbitrary: st) (auto simp: clean_stack_step)

lemma clean_stack_fixed: "clean_stack r st \<Longrightarrow> foldl (path_step r) [] (rev st) = st"
proof -
  assume "clean_stack r st"
  then obtain k ns where st: "st = ns @ replicate k ''..''" "\<forall>n \<in> set ns. plain n" "r \<longrightarrow> k = 0"
    by (auto simp: clean_stack_def)
  have "foldl (path_step r) [] (replicate k ''..'') = replicate k ''..''"
    using st(3) path_steps_up [of 0 k] by (cases r) auto
  then show ?thesis using st(2) by (simp add: st(1) path_steps_plain)
qed

lemma clean_stack_names: "clean_stack r st \<Longrightarrow> p \<in> set st \<Longrightarrow> p \<noteq> [] \<and> CHR ''/'' \<notin> set p"
proof -
  assume "clean_stack r st" "p \<in> set st"
  then have "p = ''..'' \<or> plain p" by (fastforce simp: clean_stack_def)
  then show ?thesis by (elim disjE) (simp_all add: plain_def)
qed

lemma clean_stack_locate: "clean_stack (fst (locate p)) (rev (snd (locate p)))"
proof -
  have "clean_stack r []" for r by (auto simp: clean_stack_def)
  then show ?thesis
    using clean_stack_steps Split_no_sep by (fastforce simp: locate_def Let_def)
qed

lemma join_Cons_char: "ps \<noteq> [] \<Longrightarrow> p \<noteq> [] \<Longrightarrow> join_strings sep (p # ps) = p @ sep @ join_strings sep ps"
  by (cases ps) simp_all

lemma locate_render:
  assumes "clean_stack r (rev ps)" shows "locate (render (r, ps)) = (r, ps)"
proof -
  have names: "\<forall>p \<in> set ps. p \<noteq> [] \<and> CHR ''/'' \<notin> set p" using clean_stack_names [OF assms] by simp
  have fixed: "foldl (path_step r) [] ps = rev ps" using clean_stack_fixed [OF assms] by simp
  show ?thesis
  proof (cases "ps = []")
    case True
    then show ?thesis by (cases r) (simp_all add: locate_def HasPrefix_def path_step_def)
  next
    case False
    then have split: "Split (join_strings ''/'' ps) CHR ''/'' = ps" using names by (intro Split_join) auto
    obtain p qs where ps: "ps = p # qs" using False by (cases ps) auto
    have "hd (join_strings ''/'' ps) \<noteq> CHR ''/''" "join_strings ''/'' ps \<noteq> []"
      using names ps by (cases qs; cases p; auto)+
    then have "HasPrefix (join_strings ''/'' ps) ''/'' = False"
      by (cases "join_strings ''/'' ps") (auto simp: HasPrefix_def)
    then show ?thesis
      using False split fixed by (cases r) (simp_all add: locate_def HasPrefix_def path_step_def)
  qed
qed

lemma locate_Clean [simp]: "locate (Clean p) = locate p"
  using clean_stack_locate [of p] locate_render [of "fst (locate p)" "snd (locate p)"] by (simp add: Clean_def)

lemma locate_child:
  assumes "p \<noteq> []" "plain n"
  shows "locate (p @ CHR ''/'' # n) = (fst (locate p), snd (locate p) @ [n])"
proof -
  have "HasPrefix (p @ CHR ''/'' # n) ''/'' = HasPrefix p ''/''"
    using assms(1) by (cases p) (auto simp: HasPrefix_def)
  moreover have "Split (p @ CHR ''/'' # n) CHR ''/'' = Split p CHR ''/'' @ [n]"
    using assms(2) by (simp add: Split_append Split_single plain_def)
  ultimately show ?thesis using assms(2) by (simp add: locate_def Let_def path_step_plain)
qed

lemma locate_plain: "plain n \<Longrightarrow> locate n = (False, [n])"
  by (cases n) (auto simp: locate_def Let_def HasPrefix_def Split_single path_step_plain plain_def)

lemma locate_Join: "plain n \<Longrightarrow> locate (Join [p, n]) = (fst (locate p), snd (locate p) @ [n])"
proof -
  assume n: "plain n"
  then have "n \<noteq> []" by (simp add: plain_def)
  moreover have "locate ([] :: string) = (False, [])" by (simp add: locate_def HasPrefix_def path_step_def)
  ultimately show ?thesis
    using n by (cases "p = []") (simp_all add: Join_def Let_def locate_child locate_plain)
qed

lemma Base_cases: "Base p = ''.'' \<or> Base p = ''/'' \<or> Base p = ''..'' \<or> plain (Base p)"
proof -
  let ?q = "rev (dropWhile (\<lambda>c. c = CHR ''/'') (rev p))"
  have "last_element ?q \<noteq> []" if "?q \<noteq> []"
  proof -
    have "hd (rev ?q) \<noteq> CHR ''/''" 
      using hd_dropWhile [of "\<lambda>c. c = CHR ''/''" "rev p"] that by simp
    then show ?thesis using that by (cases "rev ?q") (auto simp: last_element_def)
  qed
  moreover have "CHR ''/'' \<notin> set (last_element ?q)"
    by (auto simp: last_element_def dest: set_takeWhileD)
  ultimately have "Base p = ''.'' \<or> Base p = ''/'' \<or> (Base p \<noteq> [] \<and> CHR ''/'' \<notin> set (Base p))"
    by (simp add: Base_def Let_def)
  then show ?thesis unfolding plain_def by blast
qed

subsection \<open>The disk\<close>

datatype node = File string | Dir

record disk =
  nodes :: "(location \<times> node) list"
  ticks :: nat

record os =
  os_fault :: "nat \<Rightarrow> bool"
  os_partial :: "nat \<Rightarrow> nat"
  os_rand :: "nat \<Rightarrow> string"
  os_temp :: "nat \<Rightarrow> string"
  os_clock :: "nat \<Rightarrow> instant"

datatype io_error = NotExist | IOFailed

datatype store_error =
    Validation string
  | EntryNotFound
  | AuthUserNotFound
  | IconNotFound
  | Failed string

type_synonym ('e, 'a) io = "disk \<Rightarrow> ('e + 'a) \<times> disk"

definition io_return :: "'a \<Rightarrow> ('e, 'a) io" where "io_return x d = (Inr x, d)"
definition io_fail :: "'e \<Rightarrow> ('e, 'a) io" where "io_fail e d = (Inl e, d)"

definition io_bind :: "('e, 'a) io \<Rightarrow> ('a \<Rightarrow> ('e, 'b) io) \<Rightarrow> ('e, 'b) io" where
  "io_bind m f d = (case m d of (Inl e, d') \<Rightarrow> (Inl e, d') | (Inr x, d') \<Rightarrow> f x d')"

text \<open>\<open>if err != nil { clean; return fmt.Errorf(context, err) }\<close>, and \<open>_ = f()\<close>.\<close>

definition io_check :: "string \<Rightarrow> (disk \<Rightarrow> disk) \<Rightarrow> (io_error, 'a) io \<Rightarrow> (store_error, 'a) io" where
  "io_check context clean m d =
     (case m d of (Inl e, d') \<Rightarrow> (Inl (Failed context), clean d') | (Inr x, d') \<Rightarrow> (Inr x, d'))"

definition io_ignore :: "('e, 'a) io \<Rightarrow> disk \<Rightarrow> disk" where
  "io_ignore m d = snd (m d)"

definition lookup :: "disk \<Rightarrow> string \<Rightarrow> node option" where
  "lookup d p = map_of (nodes d) (locate p)"

definition put_node :: "string \<Rightarrow> node \<Rightarrow> disk \<Rightarrow> disk" where
  "put_node p n d = d\<lparr>nodes := AList.update (locate p) n (nodes d)\<rparr>"

definition drop_node :: "string \<Rightarrow> disk \<Rightarrow> disk" where
  "drop_node p d = d\<lparr>nodes := AList.delete (locate p) (nodes d)\<rparr>"

definition sys :: "os \<Rightarrow> (io_error, 'a) io \<Rightarrow> (io_error, 'a) io" where
  "sys Q f d =
     (let d' = d\<lparr>ticks := Suc (ticks d)\<rparr> in if os_fault Q (ticks d) then (Inl IOFailed, d') else f d')"

definition os_ReadFile :: "os \<Rightarrow> string \<Rightarrow> (io_error, string) io" where
  "os_ReadFile Q p =
     sys Q (\<lambda>d. case lookup d p of
                  None \<Rightarrow> (Inl NotExist, d)
                | Some (File s) \<Rightarrow> (Inr s, d)
                | Some Dir \<Rightarrow> (Inl IOFailed, d))"

definition os_Stat :: "os \<Rightarrow> string \<Rightarrow> (io_error, unit) io" where
  "os_Stat Q p = sys Q (\<lambda>d. if lookup d p = None then (Inl NotExist, d) else (Inr (), d))"

text \<open>
  The disk holds regular files and marks the directories that lie beside them; whatever makes
  a call fail, a missing parent or a file in its place included, is the oracle's choice.
\<close>

definition os_MkdirAll :: "os \<Rightarrow> string \<Rightarrow> (io_error, unit) io" where
  "os_MkdirAll Q p = sys Q (io_return ())"

text \<open>Creating a file that must not exist: \<open>O_EXCL\<close>, and \<open>CreateTemp\<close> with its random name.\<close>

definition os_Create :: "os \<Rightarrow> string \<Rightarrow> (io_error, string) io" where
  "os_Create Q p =
     sys Q (\<lambda>d. if lookup d p = None then (Inr p, put_node p (File []) d) else (Inl IOFailed, d))"

definition os_CreateTemp :: "os \<Rightarrow> string \<Rightarrow> string \<Rightarrow> string \<Rightarrow> (io_error, string) io" where
  "os_CreateTemp Q dir pre suf d = os_Create Q (dir @ ''/'' @ pre @ os_temp Q (ticks d) @ suf) d"

definition append_node :: "string \<Rightarrow> string \<Rightarrow> disk \<Rightarrow> disk" where
  "append_node p data d =
     put_node p (File ((case lookup d p of Some (File s) \<Rightarrow> s | _ \<Rightarrow> []) @ data)) d"

text \<open>A failing write may leave a part of the data.\<close>

definition file_Write :: "os \<Rightarrow> string \<Rightarrow> string \<Rightarrow> (io_error, unit) io" where
  "file_Write Q p data d =
     (let d' = d\<lparr>ticks := Suc (ticks d)\<rparr>
      in if os_fault Q (ticks d) then (Inl IOFailed, append_node p (take (os_partial Q (ticks d)) data) d')
         else (Inr (), append_node p data d'))"

definition file_Chmod :: "os \<Rightarrow> (io_error, unit) io" where "file_Chmod Q = sys Q (io_return ())"
definition file_Close :: "os \<Rightarrow> (io_error, unit) io" where "file_Close Q = sys Q (io_return ())"

definition os_Remove :: "os \<Rightarrow> string \<Rightarrow> (io_error, unit) io" where
  "os_Remove Q p =
     sys Q (\<lambda>d. if lookup d p = None then (Inl NotExist, d) else (Inr (), drop_node p d))"

definition os_Rename :: "os \<Rightarrow> string \<Rightarrow> string \<Rightarrow> (io_error, unit) io" where
  "os_Rename Q old new =
     sys Q (\<lambda>d. case lookup d old of
                  None \<Rightarrow> (Inl NotExist, d)
                | Some n \<Rightarrow> if lookup d new = Some Dir then (Inl IOFailed, d)
                           else (Inr (), put_node new n (drop_node old d)))"

text \<open>\<open>os.WriteFile\<close>: create or truncate, write, close.\<close>

definition os_WriteFile :: "os \<Rightarrow> string \<Rightarrow> string \<Rightarrow> (io_error, unit) io" where
  "os_WriteFile Q p data =
     io_bind (sys Q (\<lambda>d. if lookup d p = Some Dir then (Inl IOFailed, d) else (Inr (), put_node p (File []) d)))
       (\<lambda>_ d. case file_Write Q p data d of
                (Inl e, d') \<Rightarrow> (Inl e, io_ignore (file_Close Q) d')
              | (Inr _, d') \<Rightarrow> file_Close Q d')"

definition rand_Read :: "os \<Rightarrow> (io_error, string) io" where
  "rand_Read Q d = sys Q (io_return (os_rand Q (ticks d))) d"

text \<open>\<open>ReadDir\<close>: the names and nodes directly inside a directory.\<close>

definition children :: "location \<Rightarrow> disk \<Rightarrow> (string \<times> node) list" where
  "children l d =
     map (\<lambda>((r, ps), n). (last ps, n))
       (filter (\<lambda>((r, ps), n). ps \<noteq> [] \<and> (r, butlast ps) = l) (nodes d))"

definition os_ReadDir :: "os \<Rightarrow> string \<Rightarrow> (io_error, (string \<times> node) list) io" where
  "os_ReadDir Q dir = sys Q (\<lambda>d. (Inr (children (locate dir) d), d))"

subsection \<open>What the calls change\<close>

named_theorems io_defs \<open>the combinators and system calls, for symbolic execution\<close>

lemmas [io_defs] = io_return_def io_fail_def io_bind_def io_check_def io_ignore_def sys_def
  os_ReadFile_def os_Stat_def os_MkdirAll_def os_Create_def os_CreateTemp_def file_Write_def file_Chmod_def
  file_Close_def os_Remove_def os_Rename_def os_WriteFile_def rand_Read_def os_ReadDir_def

lemma lookup_put_node [simp]:
  "lookup (put_node p n d) q = (if locate q = locate p then Some n else lookup d q)"
  by (simp add: lookup_def put_node_def update_conv')

lemma lookup_drop_node [simp]:
  "lookup (drop_node p d) q = (if locate q = locate p then None else lookup d q)"
  by (simp add: lookup_def drop_node_def delete_conv')

lemma lookup_append_node [simp]:
  "lookup (append_node p data d) q =
     (if locate q = locate p
      then Some (File ((case lookup d p of Some (File s) \<Rightarrow> s | _ \<Rightarrow> []) @ data)) else lookup d q)"
  by (simp add: append_node_def)

lemma lookup_ticks [simp]: "lookup (d\<lparr>ticks := t\<rparr>) q = lookup d q"
  by (simp add: lookup_def)

lemma lookup_same: "locate p = locate q \<Longrightarrow> lookup d p = lookup d q"
  by (simp add: lookup_def)

lemma ticks_simps [simp]:
  "ticks (put_node p n d) = ticks d" "ticks (drop_node p d) = ticks d" "ticks (append_node p s d) = ticks d"
  by (simp_all add: put_node_def drop_node_def append_node_def)

text \<open>Reading changes nothing but the clock.\<close>

lemma read_keeps [simp]:
  "lookup (snd (os_ReadFile Q p d)) q = lookup d q"
  "lookup (snd (os_Stat Q p d)) q = lookup d q"
  "lookup (snd (os_ReadDir Q p d)) q = lookup d q"
  by (auto simp: io_defs Let_def split: option.splits node.splits)

lemma read_nodes [simp]:
  "nodes (snd (os_ReadFile Q p d)) = nodes d" "nodes (snd (os_Stat Q p d)) = nodes d"
  "nodes (snd (os_ReadDir Q p d)) = nodes d"
  by (auto simp: io_defs Let_def split: option.splits node.splits)

end
