(* ===== verification/Dashboard_Files.thy ===== *)
theory Dashboard_Files
  imports Go_Files
begin

text \<open>
  \<open>dashboard/fileutil.go\<close> and the file quota of \<open>dashboard/store.go\<close>: reading a JSON file,
  replacing a file atomically, and counting the files of a directory.

  \<open>encoding/json\<close> is the parameter \<open>codec\<close>: what it writes for a value, \<open>None\<close> when it
  reports an error, and what it reads from a text. The mode of a file is not modelled.
\<close>

subsection \<open>JSON files\<close>

record 'a codec =
  enc :: "'a \<Rightarrow> string option"
  dec :: "string \<Rightarrow> 'a option"

text \<open>The text written for a value is not empty and is read back as that value.\<close>

definition faithful :: "'a codec \<Rightarrow> 'a \<Rightarrow> bool" where
  "faithful C v \<longleftrightarrow> (\<forall>s. enc C v = Some s \<longrightarrow> s \<noteq> [] \<and> dec C s = Some v)"

definition readJSONFile :: "os \<Rightarrow> 'a codec \<Rightarrow> string \<Rightarrow> 'a \<Rightarrow> (store_error, 'a) io" where
  "readJSONFile Q C path target d =
     (case os_ReadFile Q path d of
        (Inl NotExist, d) \<Rightarrow> (Inr target, d)
      | (Inl IOFailed, d) \<Rightarrow> (Inl (Failed ''read''), d)
      | (Inr data, d) \<Rightarrow>
          if data = [] then (Inr target, d)
          else (case dec C data of
                  None \<Rightarrow> (Inl (Failed ''decode''), d)
                | Some v \<Rightarrow> (Inr v, d)))"

definition writeFileAtomic :: "os \<Rightarrow> string \<Rightarrow> string \<Rightarrow> string \<Rightarrow> string \<Rightarrow> (store_error, unit) io" where
  "writeFileAtomic Q path data pre suf =
     io_bind (io_check ''ensure directory'' id (os_MkdirAll Q (Dir_of path))) (\<lambda>_.
     io_bind (io_check ''create temp file'' id (os_CreateTemp Q (Dir_of path) pre suf)) (\<lambda>tmp.
       let remove = io_ignore (os_Remove Q tmp);
           cleanup = remove \<circ> io_ignore (file_Close Q)
       in io_bind (io_check ''write temp file'' cleanup (file_Write Q tmp data)) (\<lambda>_.
          io_bind (io_check ''chmod temp file'' cleanup (file_Chmod Q)) (\<lambda>_.
          io_bind (io_check ''close temp file'' remove (file_Close Q)) (\<lambda>_.
            io_check ''replace'' remove (os_Rename Q tmp path))))))"

definition writeJSONAtomic :: "os \<Rightarrow> 'a codec \<Rightarrow> string \<Rightarrow> 'a \<Rightarrow> (store_error, unit) io" where
  "writeJSONAtomic Q C path v =
     (case enc C v of
        None \<Rightarrow> io_fail (Failed ''encode'')
      | Some data \<Rightarrow> writeFileAtomic Q path data ''json-'' ''.tmp'')"

text \<open>
  The temporary file of an atomic write that starts at call \<open>t\<close>; directory creation is the
  call before it.
\<close>

definition temp_of :: "os \<Rightarrow> string \<Rightarrow> string \<Rightarrow> string \<Rightarrow> nat \<Rightarrow> string" where
  "temp_of Q path pre suf t = Dir_of path @ ''/'' @ pre @ os_temp Q (Suc t) @ suf"

lemma writeFileAtomic_effect:
  assumes run: "writeFileAtomic Q path data pre suf d = (r, d')"
    and tmp: "locate (temp_of Q path pre suf (ticks d)) \<noteq> locate path"
    and q: "locate q \<noteq> locate (temp_of Q path pre suf (ticks d))"
  shows "lookup d' q = (if locate q = locate path \<and> r = Inr () then Some (File data) else lookup d q)
    \<and> (r = Inr () \<longrightarrow> lookup d' (temp_of Q path pre suf (ticks d)) = None)"
  using assms
  by (auto simp: writeFileAtomic_def io_defs temp_of_def Let_def split: if_splits option.splits sum.splits)

text \<open>
  Atomic replacement: whichever call fails, the file is either completely replaced, and then
  success is reported and the temporary file is gone, or left exactly as it was, and then an
  error is reported. No other file of the disk changes, save the temporary one.
\<close>

theorem writeFileAtomic_atomic:
  assumes run: "writeFileAtomic Q path data pre suf d = (r, d')"
    and tmp: "locate (temp_of Q path pre suf (ticks d)) \<noteq> locate path"
    and q: "locate q \<noteq> locate (temp_of Q path pre suf (ticks d))"
  shows "lookup d' q = (if locate q = locate path \<and> r = Inr () then Some (File data) else lookup d q)
    \<and> (r = Inr () \<longrightarrow> lookup d' (temp_of Q path pre suf (ticks d)) = None)"
  by (rule writeFileAtomic_effect [OF assms])

subsection \<open>The quota\<close>

text \<open>\<open>Info\<close> is one call for each entry of the directory; sizes are \<open>int64\<close> values.\<close>

definition max_int64 :: int where "max_int64 = 9223372036854775807"

fun usage_loop :: "os \<Rightarrow> (string \<times> node) list \<Rightarrow> int \<Rightarrow> int \<Rightarrow> (store_error, int \<times> int) io" where
  "usage_loop Q [] count sz = io_return (count, sz)"
| "usage_loop Q ((name, n) # ns) count sz =
     io_bind (io_check ''stat upload file'' id (sys Q (io_return n))) (\<lambda>info.
       case info of
         Dir \<Rightarrow> usage_loop Q ns count sz
       | File s \<Rightarrow>
           if int (length s) > max_int64 - sz then io_fail (Failed ''upload directory size overflow'')
           else usage_loop Q ns (count + 1) (sz + int (length s)))"

definition regularFileUsage :: "os \<Rightarrow> string \<Rightarrow> (store_error, int \<times> int) io" where
  "regularFileUsage Q dir =
     io_bind (io_check ''read upload directory'' id (os_ReadDir Q dir)) (\<lambda>entries. usage_loop Q entries 0 0)"

definition enforceFileQuota :: "os \<Rightarrow> string \<Rightarrow> int \<Rightarrow> int \<Rightarrow> int \<Rightarrow> string \<Rightarrow> (store_error, unit) io" where
  "enforceFileQuota Q dir maxFiles maxStorageBytes newFileBytes label =
     io_bind (regularFileUsage Q dir) (\<lambda>(count, sz).
       if maxFiles > 0 \<and> count \<ge> maxFiles then io_fail (Validation (label @ '' count quota exceeded''))
       else if maxStorageBytes > 0 \<and> (sz > maxStorageBytes \<or> newFileBytes > maxStorageBytes - sz)
         then io_fail (Validation (label @ '' storage quota exceeded''))
       else io_return ())"

text \<open>The files of a directory and the bytes they hold.\<close>

definition file_sizes :: "(string \<times> node) list \<Rightarrow> nat list" where
  "file_sizes ns = concat (map (\<lambda>(_, n). case n of File s \<Rightarrow> [length s] | Dir \<Rightarrow> []) ns)"

definition used_files :: "disk \<Rightarrow> string \<Rightarrow> nat" where
  "used_files d dir = length (file_sizes (children (locate dir) d))"

definition used_bytes :: "disk \<Rightarrow> string \<Rightarrow> nat" where
  "used_bytes d dir = sum_list (file_sizes (children (locate dir) d))"

lemma usage_loop_counts:
  "usage_loop Q ns count sz d = (Inr (c, s), d') \<Longrightarrow>
     c = count + int (length (file_sizes ns)) \<and> s = sz + int (sum_list (file_sizes ns)) \<and> nodes d' = nodes d"
proof (induction ns arbitrary: count sz d)
  case Nil
  then show ?case by (simp add: io_return_def file_sizes_def)
next
  case (Cons e ns)
  obtain name n where e: "e = (name, n)" by (cases e)
  show ?case
  proof (cases n)
    case (File body)
    with Cons.prems e have "usage_loop Q ns (count + 1) (sz + int (length body)) (d\<lparr>ticks := Suc (ticks d)\<rparr>) = (Inr (c, s), d')"
      by (auto simp: io_defs Let_def split: if_splits)
    from Cons.IH [OF this] show ?thesis using e File by (simp add: file_sizes_def)
  next
    case Dir
    with Cons.prems e have "usage_loop Q ns count sz (d\<lparr>ticks := Suc (ticks d)\<rparr>) = (Inr (c, s), d')"
      by (auto simp: io_defs Let_def split: if_splits)
    from Cons.IH [OF this] show ?thesis using e Dir by (simp add: file_sizes_def)
  qed
qed

lemma usage_loop_keeps: "nodes (snd (usage_loop Q ns count sz d)) = nodes d"
  by (induction Q ns count sz arbitrary: d rule: usage_loop.induct)
     (auto simp: io_defs Let_def split: node.splits)

lemma enforceFileQuota_keeps: "enforceFileQuota Q dir mf ms nb label d = (r, d') \<Longrightarrow> nodes d' = nodes d"
  using usage_loop_keeps
  by (auto simp: enforceFileQuota_def regularFileUsage_def io_bind_def io_check_def io_fail_def io_return_def
           split: prod.splits sum.splits if_splits)
     (metis snd_conv read_nodes(3))+

lemma enforceFileQuota_ok:
  assumes "enforceFileQuota Q dir mf ms nb label d = (Inr (), d')"
  shows "(mf > 0 \<longrightarrow> int (used_files d dir) < mf) \<and> (ms > 0 \<longrightarrow> int (used_bytes d dir) + nb \<le> ms)"
proof -
  obtain entries d1 where rd: "os_ReadDir Q dir d = (Inr entries, d1)"
    using assms by (auto simp: enforceFileQuota_def regularFileUsage_def io_bind_def io_check_def split: prod.splits sum.splits)
  then have entries: "entries = children (locate dir) d"
    by (auto simp: os_ReadDir_def sys_def children_def Let_def split: if_splits)
  obtain c s d2 where u: "usage_loop Q entries 0 0 d1 = (Inr (c, s), d2)"
    using assms rd by (auto simp: enforceFileQuota_def regularFileUsage_def io_bind_def io_check_def split: prod.splits sum.splits)
  then show ?thesis
    using assms rd usage_loop_counts [OF u] entries
    by (auto simp: enforceFileQuota_def regularFileUsage_def io_bind_def io_check_def io_fail_def io_return_def
                   used_files_def used_bytes_def split: if_splits)
qed

subsection \<open>Witnesses\<close>

definition calm :: os where
  "calm = \<lparr>os_fault = (\<lambda>t. False), os_partial = (\<lambda>t. 0), os_rand = (\<lambda>t. ''k''), os_temp = (\<lambda>t. ''1''), os_clock = (\<lambda>t. 7)\<rparr>"

definition empty_disk :: disk where "empty_disk = \<lparr>nodes = [], ticks = 0\<rparr>"

lemma calm_simps [simp]:
  "os_fault calm t = False" "os_rand calm t = ''k''" "os_temp calm t = ''1''" "os_clock calm t = 7"
  by (simp_all add: calm_def)

theorem writeFileAtomic_atomic_witness:
  "\<exists>d'. writeFileAtomic calm ''p'' ''new'' ''json-'' ''.tmp'' empty_disk = (Inr (), d') \<and> lookup d' ''p'' = Some (File ''new'')"
proof -
  have tmp: "temp_of calm ''p'' ''json-'' ''.tmp'' t = ''./json-1.tmp''" for t
    by (simp add: temp_of_def Dir_of_def Clean_def locate_def HasPrefix_def path_step_def)
  have "plain ''p''" by (simp add: plain_def)
  then have p: "locate ''p'' = (False, [''p''])" by (rule locate_plain)
  have t: "locate ''./json-1.tmp'' = (False, [''json-1.tmp''])"
    by (simp add: locate_def HasPrefix_def path_step_def)
  have "\<exists>d'. writeFileAtomic calm ''p'' ''new'' ''json-'' ''.tmp'' empty_disk = (Inr (), d')"
    by (simp add: writeFileAtomic_def io_defs empty_disk_def Let_def lookup_def Dir_of_def Clean_def
                  put_node_def append_node_def locate_def HasPrefix_def path_step_def)
  then obtain d' where run: "writeFileAtomic calm ''p'' ''new'' ''json-'' ''.tmp'' empty_disk = (Inr (), d')" by blast
  have "locate (temp_of calm ''p'' ''json-'' ''.tmp'' (ticks empty_disk)) \<noteq> locate ''p''" by (simp add: tmp p t)
  from writeFileAtomic_atomic [OF run this, of "''p''"] run show ?thesis by (simp add: tmp p t)
qed

end
