(* ===== verification/Dashboard_Entries.thy ===== *)
theory Dashboard_Entries
  imports Dashboard_Files
begin

text \<open>
  The entries of the dashboard: \<open>dashboard/entry.go\<close>, \<open>entry_icon.go\<close> and \<open>hosts.go\<close>. The
  parameter \<open>ul\<close> maps non-ASCII text to lower case; the zero \<open>time.Time\<close> is the instant 0.
\<close>

subsection \<open>Icons of entries\<close>

definition EntryIconWindow :: string where "EntryIconWindow = ''window''"
definition EntryIconUploadedPrefix :: string where "EntryIconUploadedPrefix = ''uploaded:''"

definition allowedEntryIcons :: "string list" where
  "allowedEntryIcons =
     [EntryIconWindow, ''browser'', ''terminal'', ''folder'', ''database'', ''word'', ''excel'', ''powerpoint'',
      ''outlook'']"

definition is_lower_hex :: "char \<Rightarrow> bool" where
  "is_lower_hex ch \<longleftrightarrow>
     \<not> (((of_char ch :: nat) < 0x30 \<or> (of_char ch :: nat) > 0x39) \<and> ((of_char ch :: nat) < 0x61 \<or> (of_char ch :: nat) > 0x66))"

definition UploadedEntryIconID :: "(string \<Rightarrow> string) \<Rightarrow> string \<Rightarrow> string option" where
  "UploadedEntryIconID ul v =
     (let normalized = ToLower ul (TrimSpace v)
      in if \<not> HasPrefix normalized EntryIconUploadedPrefix then None
         else let i = TrimPrefix normalized EntryIconUploadedPrefix
              in if length i \<noteq> 32 then None else if \<not> list_all is_lower_hex i then None else Some i)"

definition IsUploadedEntryIcon :: "(string \<Rightarrow> string) \<Rightarrow> string \<Rightarrow> bool" where
  "IsUploadedEntryIcon ul v \<longleftrightarrow> UploadedEntryIconID ul v \<noteq> None"

definition NormalizeEntryIcon :: "(string \<Rightarrow> string) \<Rightarrow> string \<Rightarrow> string" where
  "NormalizeEntryIcon ul v =
     (let normalized = ToLower ul (TrimSpace v)
      in if IsUploadedEntryIcon ul normalized then normalized
         else if normalized \<in> set allowedEntryIcons then normalized
         else EntryIconWindow)"

definition IsValidEntryIcon :: "(string \<Rightarrow> string) \<Rightarrow> string \<Rightarrow> bool" where
  "IsValidEntryIcon ul v =
     (let normalized = ToLower ul (TrimSpace v)
      in if normalized = [] then True
         else if IsUploadedEntryIcon ul normalized then True
         else normalized \<in> set allowedEntryIcons)"

subsection \<open>Entries\<close>

definition EntryTypeHost :: string where "EntryTypeHost = ''host''"
definition EntryTypeTemplate :: string where "EntryTypeTemplate = ''template''"

record Entry =
  ID :: string
  Type :: string
  Name :: string
  Description :: string
  Icon :: string
  AllowedGroups :: "string list"
  Enabled :: bool
  Host :: string
  UploadedTemplatePath :: string
  TargetHostOverride :: string
  TargetIPOverride :: string
  ForceTargetIPOverride :: bool
  CreatedAt :: instant
  UpdatedAt :: instant

definition valid_host_port :: "string \<Rightarrow> bool" where
  "valid_host_port s =
     (case SplitHostPort s of
        None \<Rightarrow> False
      | Some (host, port) \<Rightarrow>
          if TrimSpace host = [] then False
          else (case Atoi port of None \<Rightarrow> False | Some n \<Rightarrow> \<not> (n < 1 \<or> n > 65535)))"

definition Validate_entry :: "(string \<Rightarrow> string) \<Rightarrow> Entry \<Rightarrow> store_error option" where
  "Validate_entry ul e =
     (if TrimSpace (ID e) = [] then Some (Validation ''id is required'')
      else if TrimSpace (Name e) = [] then Some (Validation ''name is required'')
      else if \<not> IsValidEntryIcon ul (Icon e) then Some (Validation ''invalid entry icon'')
      else if length (filter (\<lambda>g. TrimSpace g \<noteq> []) (AllowedGroups e)) = 0
        then Some (Validation ''at least one allowed group is required'')
      else let override = TrimSpace (TargetIPOverride e)
        in if override \<noteq> [] \<and> ParseIP override = None
           then Some (Validation ''target IP override must be an IP literal'')
           else if Type e = EntryTypeHost then
             (if valid_host_port (TrimSpace (Host e)) then None
              else Some (Validation ''host entry requires a valid host:port''))
           else if Type e = EntryTypeTemplate then
             (if HasSuffix (ToLower ul (TrimSpace (UploadedTemplatePath e))) ''.rdp'' then None
              else Some (Validation ''template entry requires an .rdp uploaded template path''))
           else Some (Validation ''invalid entry type''))"

text \<open>The set of the user's groups, then a loop over each entry's own groups.\<close>

definition allowed_set :: "string list \<Rightarrow> string set" where
  "allowed_set groups = foldl (\<lambda>A g. let g = TrimSpace g in if g = [] then A else insert g A) {} groups"

fun group_matches :: "string set \<Rightarrow> string list \<Rightarrow> bool" where
  "group_matches allowed [] = False"
| "group_matches allowed (g # gs) =
     (let g = TrimSpace g
      in if g = [] then group_matches allowed gs
         else if g \<in> allowed then True else group_matches allowed gs)"

fun visible_loop :: "string set \<Rightarrow> Entry list \<Rightarrow> Entry list \<Rightarrow> Entry list" where
  "visible_loop allowed visible [] = visible"
| "visible_loop allowed visible (e # es) =
     (if \<not> Enabled e then visible_loop allowed visible es
      else if group_matches allowed (AllowedGroups e) then visible_loop allowed (visible @ [e]) es
      else visible_loop allowed visible es)"

definition VisibleEntries :: "Entry list \<Rightarrow> string list \<Rightarrow> Entry list" where
  "VisibleEntries es groups = visible_loop (allowed_set groups) [] es"

fun EnabledHostAddresses :: "Entry list \<Rightarrow> string list" where
  "EnabledHostAddresses [] = []"
| "EnabledHostAddresses (e # es) =
     (if Type e \<noteq> EntryTypeHost \<or> \<not> Enabled e then EnabledHostAddresses es
      else Host e # EnabledHostAddresses es)"

definition IsValidationError :: "store_error \<Rightarrow> bool" where
  "IsValidationError e \<longleftrightarrow> (case e of Validation m \<Rightarrow> True | _ \<Rightarrow> False)"

subsection \<open>Visibility\<close>

definition shares_group :: "string list \<Rightarrow> string list \<Rightarrow> bool" where
  "shares_group gs hs \<longleftrightarrow> (\<exists>g \<in> set gs. TrimSpace g \<noteq> [] \<and> TrimSpace g \<in> TrimSpace ` set hs)"

lemma allowed_set_from:
  "foldl (\<lambda>A g. let g = TrimSpace g in if g = [] then A else insert g A) A gs = A \<union> (TrimSpace ` set gs - {[]})"
  by (induction gs arbitrary: A) (auto simp: Let_def)

lemma group_matches_iff: "group_matches allowed gs \<longleftrightarrow> (\<exists>g \<in> set gs. TrimSpace g \<noteq> [] \<and> TrimSpace g \<in> allowed)"
  by (induction gs) (auto simp: Let_def)

lemma visible_loop_filter:
  "visible_loop A v es = v @ filter (\<lambda>e. Enabled e \<and> group_matches A (AllowedGroups e)) es"
  by (induction es arbitrary: v) auto

lemma VisibleEntries_filter:
  "VisibleEntries es groups = filter (\<lambda>e. Enabled e \<and> shares_group (AllowedGroups e) groups) es"
  by (auto simp: VisibleEntries_def visible_loop_filter group_matches_iff allowed_set_def allowed_set_from
                 shares_group_def intro!: filter_cong)

text \<open>
  A user sees exactly the enabled entries that share a non-blank group name with the user, up
  to surrounding white space, each once and in the order of the store.
\<close>

theorem VisibleEntries_exact:
  "VisibleEntries es groups = filter (\<lambda>e. Enabled e \<and> shares_group (AllowedGroups e) groups) es"
  by (rule VisibleEntries_filter)

lemma EnabledHostAddresses_iff:
  "h \<in> set (EnabledHostAddresses es) \<longleftrightarrow> (\<exists>e \<in> set es. Type e = EntryTypeHost \<and> Enabled e \<and> Host e = h)"
  by (induction es) auto

lemma NormalizeEntryIcon_valid:
  "IsUploadedEntryIcon ul (NormalizeEntryIcon ul v) \<or> NormalizeEntryIcon ul v \<in> set allowedEntryIcons"
  by (simp add: NormalizeEntryIcon_def Let_def allowedEntryIcons_def)

lemma Validate_entry_None:
  "Validate_entry ul e = None \<Longrightarrow>
     TrimSpace (ID e) \<noteq> [] \<and> TrimSpace (Name e) \<noteq> [] \<and> IsValidEntryIcon ul (Icon e)
     \<and> (\<exists>g \<in> set (AllowedGroups e). TrimSpace g \<noteq> [])
     \<and> (Type e = EntryTypeHost \<and> valid_host_port (TrimSpace (Host e))
        \<or> Type e = EntryTypeTemplate \<and> HasSuffix (ToLower ul (TrimSpace (UploadedTemplatePath e))) ''.rdp'')"
  by (auto simp: Validate_entry_def Let_def filter_empty_conv split: if_splits)

end
