(* ===== verification/Dashboard_Store.thy ===== *)
theory Dashboard_Store
  imports Dashboard_Entries
begin

text \<open>
  The stores of \<open>package dashboard\<close> on disk: what any keyed store of records promises, and
  \<open>FileStore\<close> (\<open>dashboard/store.go\<close>) with its metadata file, uploads and quota. The mutex of
  a store makes its operations atomic with respect to each other, so each is one function on
  the disk.
\<close>

subsection \<open>The interface of a keyed store\<close>

text \<open>
  \<open>stored r rs\<close> is what becomes of \<open>r\<close> when it is put into \<open>rs\<close>: the stores set timestamps.
\<close>

locale keyed_store =
  fixes key :: "'r \<Rightarrow> string"
    and get :: "string \<Rightarrow> 'r list \<Rightarrow> 'r option"
    and put :: "'r \<Rightarrow> 'r list \<Rightarrow> 'r list"
    and del :: "string \<Rightarrow> 'r list \<Rightarrow> 'r list"
    and stored :: "'r \<Rightarrow> 'r list \<Rightarrow> 'r"
  assumes get_exact: "get k rs = find (\<lambda>r. key r = k) rs"
    and key_stored: "key (stored r rs) = key r"
    and get_put: "get k (put r rs) = (if k = key r then Some (stored r rs) else get k rs)"
    and put_keys: "map key (put r rs) = (if key r \<in> key ` set rs then map key rs else map key rs @ [key r])"
    and del_keys: "map key (del k rs) = remove1 k (map key rs)"
    and get_del: "j \<noteq> k \<Longrightarrow> get j (del k rs) = get j rs"
begin

abbreviation content :: "'r list \<Rightarrow> string \<Rightarrow> 'r option" where
  "content rs \<equiv> (\<lambda>k. get k rs)"

lemma put_refines: "content (put r rs) = (content rs)(key r \<mapsto> stored r rs)"
  by (auto simp: get_put)

lemma put_distinct: "distinct (map key rs) \<Longrightarrow> distinct (map key (put r rs))"
  by (auto simp: put_keys)

lemma del_distinct: "distinct (map key rs) \<Longrightarrow> distinct (map key (del k rs))"
  by (simp add: del_keys)

lemma get_None: "get k rs = None \<longleftrightarrow> k \<notin> key ` set rs"
  by (auto simp: get_exact find_None_iff)

lemma del_refines: "distinct (map key rs) \<Longrightarrow> content (del k rs) = (content rs)(k := None)"
proof
  fix j
  assume d: "distinct (map key rs)"
  have "key ` set (del k rs) = set (remove1 k (map key rs))"
    by (metis del_keys set_map)
  then have "k \<notin> key ` set (del k rs)" using d by simp
  then show "get j (del k rs) = ((content rs)(k := None)) j"
    by (cases "j = k") (simp_all add: get_del get_None)
qed

text \<open>Any sequence of puts and deletions acts on the content as on a map, and keeps the keys distinct.\<close>

fun run :: "('r + string) list \<Rightarrow> 'r list \<Rightarrow> 'r list" where
  "run [] rs = rs"
| "run (Inl r # cs) rs = run cs (put r rs)"
| "run (Inr k # cs) rs = run cs (del k rs)"

lemma run_distinct: "distinct (map key rs) \<Longrightarrow> distinct (map key (run cs rs))"
  by (induction cs rs rule: run.induct) (simp_all add: put_distinct del_distinct)

lemma run_untouched:
  "distinct (map key rs) \<Longrightarrow> \<forall>c \<in> set cs. (case c of Inl r \<Rightarrow> key r \<noteq> k | Inr j \<Rightarrow> j \<noteq> k)
     \<Longrightarrow> get k (run cs rs) = get k rs"
  by (induction cs rs rule: run.induct) (auto simp: put_distinct del_distinct get_put get_del)

end

text \<open>
  The two loops of the stores: replace the first record with a key, or append; and cut out the
  first record with a key.
\<close>

fun upsert :: "('r \<Rightarrow> string) \<Rightarrow> string \<Rightarrow> ('r \<Rightarrow> 'r) \<Rightarrow> 'r \<Rightarrow> 'r list \<Rightarrow> 'r list" where
  "upsert key k replace new [] = [new]"
| "upsert key k replace new (x # xs) =
     (if key x \<noteq> k then x # upsert key k replace new xs else replace x # xs)"

fun cut_first :: "('r \<Rightarrow> string) \<Rightarrow> string \<Rightarrow> 'r list \<Rightarrow> 'r list" where
  "cut_first key k [] = []"
| "cut_first key k (x # xs) = (if key x = k then xs else x # cut_first key k xs)"

definition upserted :: "('r \<Rightarrow> string) \<Rightarrow> string \<Rightarrow> ('r \<Rightarrow> 'r) \<Rightarrow> 'r \<Rightarrow> 'r list \<Rightarrow> 'r" where
  "upserted key k replace new xs = (case find (\<lambda>r. key r = k) xs of None \<Rightarrow> new | Some x \<Rightarrow> replace x)"

lemma find_upsert:
  assumes "key new = k" "\<And>x. key (replace x) = k"
  shows "find (\<lambda>r. key r = j) (upsert key k replace new xs) =
     (if j = k then Some (upserted key k replace new xs) else find (\<lambda>r. key r = j) xs)"
  using assms by (induction xs) (auto simp: upserted_def)

lemma keys_upsert:
  assumes "key new = k" "\<And>x. key (replace x) = k"
  shows "map key (upsert key k replace new xs) = (if k \<in> key ` set xs then map key xs else map key xs @ [k])"
  using assms by (induction xs) auto

lemma keys_cut_first: "map key (cut_first key k xs) = remove1 k (map key xs)"
  by (induction xs) auto

lemma find_cut_first: "j \<noteq> k \<Longrightarrow> find (\<lambda>r. key r = j) (cut_first key k xs) = find (\<lambda>r. key r = j) xs"
  by (induction xs) auto

lemma set_upsert: "set (upsert key k replace new xs) \<subseteq> insert new (set xs \<union> replace ` set xs)"
  by (induction xs) auto

lemma set_cut_first: "set (cut_first key k xs) \<subseteq> set xs"
  by (induction xs) auto

lemma key_upserted: "key new = k \<Longrightarrow> (\<And>x. key (replace x) = k) \<Longrightarrow> key (upserted key k replace new xs) = k"
  by (simp add: upserted_def split: option.splits)

subsection \<open>Replacing a metadata file\<close>

text \<open>
  \<open>writeLocked\<close> of \<open>FileStore\<close> and of \<open>FileIconStore\<close> are the same steps with another
  pattern; the directory comes first, then the encoding.
\<close>

definition write_metadata :: "os \<Rightarrow> 'a codec \<Rightarrow> string \<Rightarrow> string \<Rightarrow> 'a \<Rightarrow> (store_error, unit) io" where
  "write_metadata Q C path pre v =
     io_bind (io_check ''ensure metadata directory'' id (os_MkdirAll Q (Dir_of path))) (\<lambda>_.
     (case enc C v of
        None \<Rightarrow> io_fail (Failed ''encode metadata'')
      | Some data \<Rightarrow>
          io_bind (io_check ''create metadata temp file'' id (os_CreateTemp Q (Dir_of path) pre ''.tmp'')) (\<lambda>tmp.
            let remove = io_ignore (os_Remove Q tmp)
            in io_bind (io_check ''write metadata temp file'' (remove \<circ> io_ignore (file_Close Q)) (file_Write Q tmp data)) (\<lambda>_.
               io_bind (io_check ''close metadata temp file'' remove (file_Close Q)) (\<lambda>_.
                 io_check ''replace metadata file'' remove (os_Rename Q tmp path))))))"

text \<open>What the metadata file says: no file and an empty file are an empty list.\<close>

definition read_metadata :: "'a list codec \<Rightarrow> string \<Rightarrow> disk \<Rightarrow> 'a list option" where
  "read_metadata C path d =
     (case lookup d path of
        None \<Rightarrow> Some []
      | Some Dir \<Rightarrow> None
      | Some (File data) \<Rightarrow> if data = [] then Some [] else dec C data)"

lemma write_metadata_atomic:
  assumes "write_metadata Q C path pre v d = (r, d')"
    and "locate (temp_of Q path pre ''.tmp'' (ticks d)) \<noteq> locate path"
    and "locate q \<noteq> locate (temp_of Q path pre ''.tmp'' (ticks d))"
  shows "lookup d' q =
     (if locate q = locate path \<and> r = Inr () then map_option File (enc C v) else lookup d q)"
  using assms
  by (auto simp: write_metadata_def io_defs temp_of_def Let_def split: if_splits option.splits sum.splits)

lemma write_metadata_ok: "write_metadata Q C path pre v d = (Inr (), d') \<Longrightarrow> \<exists>data. enc C v = Some data"
  by (auto simp: write_metadata_def io_defs Let_def split: if_splits option.splits)

lemma write_metadata_read:
  assumes run: "write_metadata Q C path pre v d = (Inr (), d')"
    and tmp: "locate (temp_of Q path pre ''.tmp'' (ticks d)) \<noteq> locate path"
    and C: "faithful C v"
  shows "read_metadata C path d' = Some v"
  using write_metadata_atomic [OF run tmp] write_metadata_ok [OF run] tmp C
  by (auto simp: read_metadata_def faithful_def)

lemma write_metadata_failed:
  assumes run: "write_metadata Q C path pre v d = (Inl e, d')"
    and tmp: "locate (temp_of Q path pre ''.tmp'' (ticks d)) \<noteq> locate path"
  shows "read_metadata C path d' = read_metadata C path d"
  using write_metadata_atomic [OF run tmp, of path] tmp by (simp add: read_metadata_def)

subsection \<open>FileStore\<close>

record FileStore =
  metadataPath :: string
  uploadDir :: string
  MaxUploads :: int
  MaxStorageBytes :: int

definition NewFileStore :: "os \<Rightarrow> string \<Rightarrow> string \<Rightarrow> (int \<times> int) option \<Rightarrow> (store_error, FileStore) io" where
  "NewFileStore Q storePath upDir options =
     io_bind (io_check ''create store path'' id (os_MkdirAll Q storePath)) (\<lambda>_.
     io_bind (io_check ''create upload directory'' id (os_MkdirAll Q upDir)) (\<lambda>_.
       let (maxUploads, maxBytes) = (case options of None \<Rightarrow> (0, 0) | Some q \<Rightarrow> q)
       in io_return \<lparr>metadataPath = Join [storePath, ''entries.json''], uploadDir = upDir,
                     MaxUploads = maxUploads, MaxStorageBytes = maxBytes\<rparr>))"

definition ResolveUpload :: "FileStore \<Rightarrow> string \<Rightarrow> string" where
  "ResolveUpload s path = Join [uploadDir s, Base path]"

definition normalized :: "(string \<Rightarrow> string) \<Rightarrow> Entry \<Rightarrow> Entry" where
  "normalized ul e = e\<lparr>Icon := NormalizeEntryIcon ul (Icon e)\<rparr>"

definition readLocked :: "os \<Rightarrow> Entry list codec \<Rightarrow> (string \<Rightarrow> string) \<Rightarrow> FileStore \<Rightarrow> (store_error, Entry list) io" where
  "readLocked Q C ul s d =
     (case os_ReadFile Q (metadataPath s) d of
        (Inl NotExist, d) \<Rightarrow> (Inr [], d)
      | (Inl IOFailed, d) \<Rightarrow> (Inl (Failed ''read metadata''), d)
      | (Inr data, d) \<Rightarrow>
          if data = [] then (Inr [], d)
          else (case dec C data of
                  None \<Rightarrow> (Inl (Failed ''decode metadata''), d)
                | Some entries \<Rightarrow> (Inr (map (normalized ul) entries), d)))"

definition writeLocked :: "os \<Rightarrow> Entry list codec \<Rightarrow> FileStore \<Rightarrow> Entry list \<Rightarrow> (store_error, unit) io" where
  "writeLocked Q C s entries = write_metadata Q C (metadataPath s) ''entries-'' entries"

definition store_List :: "os \<Rightarrow> Entry list codec \<Rightarrow> (string \<Rightarrow> string) \<Rightarrow> FileStore \<Rightarrow> (store_error, Entry list) io" where
  "store_List Q C ul s = readLocked Q C ul s"

definition get_entry :: "string \<Rightarrow> Entry list \<Rightarrow> Entry option" where
  "get_entry i entries = find (\<lambda>e. ID e = i) entries"

definition store_Get ::
    "os \<Rightarrow> Entry list codec \<Rightarrow> (string \<Rightarrow> string) \<Rightarrow> FileStore \<Rightarrow> string \<Rightarrow> (store_error, Entry) io" where
  "store_Get Q C ul s i =
     io_bind (readLocked Q C ul s) (\<lambda>entries.
       case get_entry i entries of Some e \<Rightarrow> io_return e | None \<Rightarrow> io_fail EntryNotFound)"

text \<open>The loop of \<open>Put\<close>: the new list, and the path of the upload that nothing needs any more.\<close>

definition put_entry :: "instant \<Rightarrow> Entry \<Rightarrow> Entry list \<Rightarrow> Entry list" where
  "put_entry t e entries =
     upsert ID (ID e) (\<lambda>old. e\<lparr>CreatedAt := CreatedAt old, UpdatedAt := t\<rparr>)
       (e\<lparr>CreatedAt := (if CreatedAt e = 0 then t else CreatedAt e), UpdatedAt := t\<rparr>) entries"

definition stale_upload :: "Entry \<Rightarrow> Entry list \<Rightarrow> string" where
  "stale_upload e entries =
     (case get_entry (ID e) entries of
        None \<Rightarrow> []
      | Some old \<Rightarrow> if UploadedTemplatePath old \<noteq> UploadedTemplatePath e then UploadedTemplatePath old else [])"

definition removeUploadFile :: "os \<Rightarrow> string \<Rightarrow> (io_error, unit) io" where
  "removeUploadFile Q path d =
     (case os_Remove Q path d of (Inl NotExist, d) \<Rightarrow> (Inr (), d) | res \<Rightarrow> res)"

definition stat_upload :: "os \<Rightarrow> string \<Rightarrow> (store_error, unit) io" where
  "stat_upload Q path d =
     (case os_Stat Q path d of
        (Inl NotExist, d) \<Rightarrow> (Inl (Validation ''uploaded template does not exist''), d)
      | (Inl IOFailed, d) \<Rightarrow> (Inl (Failed ''stat uploaded template''), d)
      | (Inr _, d) \<Rightarrow> (Inr (), d))"

definition drop_upload :: "os \<Rightarrow> FileStore \<Rightarrow> string \<Rightarrow> (store_error, unit) io" where
  "drop_upload Q s path d =
     (Inr (), if path \<noteq> [] then io_ignore (removeUploadFile Q (ResolveUpload s path)) d else d)"

definition store_Put ::
    "os \<Rightarrow> Entry list codec \<Rightarrow> (string \<Rightarrow> string) \<Rightarrow> FileStore \<Rightarrow> Entry \<Rightarrow> (store_error, unit) io" where
  "store_Put Q C ul s e0 =
     (let e = normalized ul e0 in
      (case Validate_entry ul e of
         Some err \<Rightarrow> io_fail err
       | None \<Rightarrow>
           io_bind (if Type e = EntryTypeTemplate then stat_upload Q (ResolveUpload s (UploadedTemplatePath e))
                    else io_return ()) (\<lambda>_.
           io_bind (readLocked Q C ul s) (\<lambda>entries d.
             let t = os_clock Q (ticks d) in
             io_bind (writeLocked Q C s (put_entry t e entries))
               (\<lambda>_. drop_upload Q s (stale_upload e entries)) d))))"

definition store_Delete ::
    "os \<Rightarrow> Entry list codec \<Rightarrow> (string \<Rightarrow> string) \<Rightarrow> FileStore \<Rightarrow> string \<Rightarrow> (store_error, unit) io" where
  "store_Delete Q C ul s i =
     io_bind (readLocked Q C ul s) (\<lambda>entries.
       case get_entry i entries of
         None \<Rightarrow> io_return ()
       | Some e \<Rightarrow>
           io_bind (writeLocked Q C s (cut_first ID i entries)) (\<lambda>_. drop_upload Q s (UploadedTemplatePath e)))"

text \<open>\<open>src\<close> is what \<open>io.ReadAll\<close> delivers. \<open>rand.Read\<close> fills 16 bytes.\<close>

definition hex_encode :: "string \<Rightarrow> string" where
  "hex_encode s = concat (map (\<lambda>c. [hex_digit (of_char c div 16), hex_digit (of_char c mod 16)]) s)"

definition SaveUpload :: "os \<Rightarrow> FileStore \<Rightarrow> string option \<Rightarrow> (store_error, string) io" where
  "SaveUpload Q s src =
     (case src of
        None \<Rightarrow> io_fail (Failed ''read upload'')
      | Some data \<Rightarrow>
          io_bind (enforceFileQuota Q (uploadDir s) (MaxUploads s) (MaxStorageBytes s) (int (length data)) ''template upload'') (\<lambda>_.
          io_bind (io_check ''generate upload filename'' id (rand_Read Q)) (\<lambda>random.
            let filename = hex_encode random @ ''.rdp'';
                fullPath = Join [uploadDir s, filename];
                remove = io_ignore (os_Remove Q fullPath)
            in io_bind (io_check ''create upload file'' id (os_Create Q fullPath)) (\<lambda>_.
               io_bind (io_check ''write upload file'' (remove \<circ> io_ignore (file_Close Q)) (file_Write Q fullPath data)) (\<lambda>_.
               io_bind (io_check ''close upload file'' remove (file_Close Q)) (\<lambda>_.
                 io_return filename))))))"

subsection \<open>The entries form a keyed store\<close>

definition stored_entry :: "instant \<Rightarrow> Entry \<Rightarrow> Entry list \<Rightarrow> Entry" where
  "stored_entry t e entries =
     e\<lparr>CreatedAt := (case get_entry (ID e) entries of
                       Some old \<Rightarrow> CreatedAt old
                     | None \<Rightarrow> if CreatedAt e = 0 then t else CreatedAt e),
       UpdatedAt := t\<rparr>"

lemma upserted_entry:
  "upserted ID (ID e) (\<lambda>old. e\<lparr>CreatedAt := CreatedAt old, UpdatedAt := t\<rparr>)
     (e\<lparr>CreatedAt := (if CreatedAt e = 0 then t else CreatedAt e), UpdatedAt := t\<rparr>) es = stored_entry t e es"
  by (simp add: upserted_def stored_entry_def get_entry_def split: option.splits)

interpretation entries: keyed_store ID get_entry "put_entry t" "cut_first ID" "stored_entry t"
  by unfold_locales
     (simp_all add: get_entry_def put_entry_def find_upsert keys_upsert keys_cut_first find_cut_first upserted_entry,
      simp add: stored_entry_def)

subsection \<open>What the store says\<close>

definition stored_entries :: "Entry list codec \<Rightarrow> (string \<Rightarrow> string) \<Rightarrow> FileStore \<Rightarrow> disk \<Rightarrow> Entry list option" where
  "stored_entries C ul s d = map_option (map (normalized ul)) (read_metadata C (metadataPath s) d)"

text \<open>Uploads and temporary files lie beside the metadata file, never on it.\<close>

definition store_ok :: "os \<Rightarrow> FileStore \<Rightarrow> bool" where
  "store_ok Q s \<longleftrightarrow>
     (\<forall>t. locate (temp_of Q (metadataPath s) ''entries-'' ''.tmp'' t) \<noteq> locate (metadataPath s))
     \<and> (\<forall>p. locate (ResolveUpload s p) \<noteq> locate (metadataPath s))"

lemma read_metadata_same: "lookup d' path = lookup d path \<Longrightarrow> read_metadata C path d' = read_metadata C path d"
  by (simp add: read_metadata_def)

lemma lookup_nodes: "nodes d' = nodes d \<Longrightarrow> lookup d' p = lookup d p"
  by (simp add: lookup_def)

lemma readLocked_exact:
  assumes "readLocked Q C ul s d = (r, d')"
  shows "nodes d' = nodes d" "r = Inr es \<Longrightarrow> stored_entries C ul s d = Some es"
  using assms
  by (auto simp: readLocked_def stored_entries_def read_metadata_def os_ReadFile_def sys_def lookup_def Let_def
           split: option.splits node.splits if_splits)

lemma drop_upload_keeps: "locate q \<noteq> locate (ResolveUpload s path) \<Longrightarrow> lookup (snd (drop_upload Q s path d)) q = lookup d q"
  by (auto simp: drop_upload_def removeUploadFile_def io_defs Let_def split: sum.splits io_error.splits)

lemma NormalizeEntryIcon_idem: "case_stable ul \<Longrightarrow> NormalizeEntryIcon ul (NormalizeEntryIcon ul v) = NormalizeEntryIcon ul v"
proof -
  assume ul: "case_stable ul"
  let ?n = "ToLower ul (TrimSpace v)"
  have window: "ToLower ul (TrimSpace EntryIconWindow) = EntryIconWindow"
  proof -
    have "is_ascii EntryIconWindow" "map ascii_lower EntryIconWindow = EntryIconWindow"
      by (simp_all add: EntryIconWindow_def is_ascii_def ascii_lower_def)
    moreover from this have "TrimSpace EntryIconWindow = EntryIconWindow"
      by (simp add: TrimSpace_ascii) (simp add: EntryIconWindow_def ascii_space_def)
    ultimately show ?thesis by (simp add: ToLower_fixed)
  qed
  have "\<not> IsUploadedEntryIcon ul EntryIconWindow"
    by (simp add: IsUploadedEntryIcon_def UploadedEntryIconID_def window)
       (simp add: EntryIconWindow_def EntryIconUploadedPrefix_def HasPrefix_def)
  then show ?thesis
    using lower_trim_stable [OF ul, of v] window
    by (auto simp: NormalizeEntryIcon_def Let_def allowedEntryIcons_def)
qed

lemma normalized_simps [simp]:
  "ID (normalized ul e) = ID e" "case_stable ul \<Longrightarrow> normalized ul (normalized ul e) = normalized ul e"
  by (simp_all add: normalized_def NormalizeEntryIcon_idem)

lemma normalized_times [simp]:
  "normalized ul (e\<lparr>CreatedAt := a, UpdatedAt := b\<rparr>) = (normalized ul e)\<lparr>CreatedAt := a, UpdatedAt := b\<rparr>"
  by (simp add: normalized_def)

lemma map_normalized_put:
  assumes ul: "case_stable ul" and es: "map (normalized ul) es = es" and e: "normalized ul e = e"
  shows "map (normalized ul) (put_entry t e es) = put_entry t e es"
proof -
  have "\<forall>x \<in> set es. normalized ul x = x" using es by (metis map_idI map_eq_conv id_apply list.map_id)
  then have "\<forall>x \<in> set (put_entry t e es). normalized ul x = x"
    using e by (induction es) (auto simp: put_entry_def)
  then show ?thesis by (simp add: map_idI)
qed

lemma map_normalized_cut: "map (normalized ul) es = es \<Longrightarrow> map (normalized ul) (cut_first ID i es) = cut_first ID i es"
  by (induction es) auto

lemma stored_entries_normalized:
  "case_stable ul \<Longrightarrow> stored_entries C ul s d = Some es \<Longrightarrow> map (normalized ul) es = es"
  by (auto simp: stored_entries_def comp_def)

text \<open>Writing a list and then dropping an upload leaves that list.\<close>

lemma write_then_drop:
  assumes ok: "store_ok Q s" and C: "faithful C es" and norm: "map (normalized ul) es = es"
    and run: "io_bind (writeLocked Q C s es) (\<lambda>_. drop_upload Q s path) d = (r, d')"
  shows "stored_entries C ul s d' = (if r = Inr () then Some es else stored_entries C ul s d)"
proof -
  have tmp: "locate (temp_of Q (metadataPath s) ''entries-'' ''.tmp'' (ticks d)) \<noteq> locate (metadataPath s)"
    and up: "locate (metadataPath s) \<noteq> locate (ResolveUpload s path)"
    using ok by (metis store_ok_def)+
  obtain w d1 where w: "write_metadata Q C (metadataPath s) ''entries-'' es d = (w, d1)"
    by (cases "write_metadata Q C (metadataPath s) ''entries-'' es d")
  show ?thesis
  proof (cases w)
    case (Inl e)
    then have "r = Inl e" "d' = d1" using run w by (simp_all add: io_bind_def writeLocked_def)
    moreover have "read_metadata C (metadataPath s) d1 = read_metadata C (metadataPath s) d"
      using w Inl tmp by (intro write_metadata_failed) simp_all
    ultimately show ?thesis by (simp add: stored_entries_def)
  next
    case (Inr u)
    then have "r = Inr ()" "d' = snd (drop_upload Q s path d1)"
      using run w by (auto simp: io_bind_def writeLocked_def drop_upload_def)
    moreover have "read_metadata C (metadataPath s) (snd (drop_upload Q s path d1)) = Some es"
      using write_metadata_read [OF _ tmp C, of d1] w Inr
        read_metadata_same [OF drop_upload_keeps [OF up], of C Q d1] by simp
    ultimately show ?thesis using norm by (simp add: stored_entries_def)
  qed
qed

subsection \<open>Uploads\<close>

lemma Base_plain: "plain n \<Longrightarrow> Base n = n"
proof -
  assume n: "plain n"
  then have drop: "dropWhile (\<lambda>c. c = CHR ''/'') (rev n) = rev n"
    by (cases n rule: rev_cases) (auto simp: plain_def)
  have "\<forall>c \<in> set (rev n). c \<noteq> CHR ''/''" using n by (auto simp: plain_def)
  then have "last_element n = n" by (simp only: last_element_def takeWhile_eq_all_conv [THEN iffD2] rev_rev_ident)
  then show ?thesis using n drop by (simp add: Base_def Let_def plain_def)
qed

lemma hex_digit_no_slash: "k < 16 \<Longrightarrow> CHR ''/'' \<noteq> hex_digit k"
proof
  assume k: "k < 16" and eq: "CHR ''/'' = hex_digit k"
  have "(of_char (hex_digit k) :: nat) = (if k < 10 then 48 + k else 87 + k)"
    using k by (simp add: hex_digit_def digit_def)
  with eq [symmetric] show False by (simp split: if_splits)
qed

lemma plain_upload: "plain (hex_encode r @ ''.rdp'')"
proof -
  have "of_char c div 16 < (16::nat)" for c :: char
    using nat_of_char_less_256 [of c] by (simp only: less_mult_imp_div_less)
  then have "CHR ''/'' \<notin> set (hex_encode r)"
    by (auto simp: hex_encode_def hex_digit_no_slash)
  then show ?thesis by (cases "hex_encode r" rule: rev_cases) (auto simp: plain_def)
qed

lemma update_new: "k \<notin> fst ` set al \<Longrightarrow> AList.update k v al = al @ [(k, v)]"
  by (induction al) auto

lemma update_last: "k \<notin> fst ` set al \<Longrightarrow> AList.update k v (al @ [(k, u)]) = al @ [(k, v)]"
  by (induction al) auto

lemma nodes_put_node: "nodes (put_node p n d) = AList.update (locate p) n (nodes d)"
  by (simp add: put_node_def)

lemma nodes_append_node:
  "nodes (append_node p data d) =
     AList.update (locate p) (File ((case map_of (nodes d) (locate p) of Some (File s) \<Rightarrow> s | _ \<Rightarrow> []) @ data)) (nodes d)"
  by (simp add: append_node_def nodes_put_node lookup_def)

lemma nodes_create_append:
  assumes "lookup d p = None"
  shows "nodes (append_node p data (put_node p (File []) d)) = nodes d @ [(locate p, File data)]"
proof -
  have "locate p \<notin> fst ` set (nodes d)" using assms by (simp add: lookup_def map_of_eq_None_iff)
  moreover have "map_of (AList.update (locate p) (File []) (nodes d)) (locate p) = Some (File [])"
    by (simp add: update_conv')
  ultimately show ?thesis by (simp add: nodes_append_node nodes_put_node update_new update_last)
qed

lemma children_append: "children l (d\<lparr>nodes := ns @ [(k, n)]\<rparr>) = children l (d\<lparr>nodes := ns\<rparr>) @ (if snd k \<noteq> [] \<and> (fst k, butlast (snd k)) = l then [(last (snd k), n)] else [])"
  by (cases k) (auto simp: children_def)

lemma SaveUpload_ok:
  assumes "SaveUpload Q s src d = (Inr nm, d')"
  obtains data d1 where "src = Some data" "plain nm" "lookup d (Join [uploadDir s, nm]) = None"
    "enforceFileQuota Q (uploadDir s) (MaxUploads s) (MaxStorageBytes s) (int (length data)) ''template upload'' d = (Inr (), d1)"
    "nodes d' = nodes d @ [(locate (Join [uploadDir s, nm]), File data)]"
proof -
  obtain data where src: "src = Some data"
    using assms by (cases src) (auto simp: SaveUpload_def io_fail_def)
  obtain d1 where quota: "enforceFileQuota Q (uploadDir s) (MaxUploads s) (MaxStorageBytes s) (int (length data)) ''template upload'' d = (Inr (), d1)"
    using assms src by (auto simp: SaveUpload_def io_bind_def split: prod.splits sum.splits)
  have nodes: "nodes d1 = nodes d" using enforceFileQuota_keeps [OF quota] .
  let ?p = "Join [uploadDir s, nm]"
  have run: "nm = hex_encode (os_rand Q (ticks d1)) @ ''.rdp''" "lookup d1 ?p = None"
      "nodes d' = nodes (append_node ?p data (put_node ?p (File []) d1))"
    using assms quota
    by (auto simp: SaveUpload_def src io_bind_def [of "enforceFileQuota _ _ _ _ _ _"])
       (auto simp: io_defs Let_def nodes_append_node nodes_put_node lookup_def split: if_splits)
  have "lookup d ?p = None" using run(2) lookup_nodes [OF nodes] by simp
  moreover have "nodes d' = nodes d @ [(locate ?p, File data)]"
    using nodes_create_append [OF run(2), of data] by (simp add: run(3) nodes)
  ultimately show thesis using that [OF src _ _ quota] run(1) plain_upload by simp
qed

lemma SaveUpload_keeps:
  assumes run: "SaveUpload Q s src d = (r, d')" and q: "\<And>nm. plain nm \<Longrightarrow> locate q \<noteq> locate (Join [uploadDir s, nm])"
  shows "lookup d' q = lookup d q"
proof (cases src)
  case None
  then show ?thesis using run by (simp add: SaveUpload_def io_fail_def)
next
  case (Some data)
  obtain z d1 where quota: "enforceFileQuota Q (uploadDir s) (MaxUploads s) (MaxStorageBytes s) (int (length data)) ''template upload'' d = (z, d1)"
    by (cases "enforceFileQuota Q (uploadDir s) (MaxUploads s) (MaxStorageBytes s) (int (length data)) ''template upload'' d")
  have "lookup d1 q = lookup d q" by (rule lookup_nodes [OF enforceFileQuota_keeps [OF quota]])
  moreover have "lookup d' q = lookup d1 q"
    using run quota q [OF plain_upload]
    by (cases z; simp add: SaveUpload_def Some io_bind_def [of "enforceFileQuota _ _ _ _ _ _"])
       (auto simp: io_defs Let_def split: if_splits sum.splits)
  ultimately show ?thesis by simp
qed

text \<open>
  C22: The quota of uploads is never exceeded: after a successful \<open>SaveUpload\<close> a configured limit on
  the number of files and one on their bytes both hold, whatever was in the directory. The
  upload is stored under a fresh name, directly in the upload directory, with exactly the
  bytes received, and every other file of the disk is untouched.
\<close>

theorem SaveUpload_quota:
  assumes run: "SaveUpload Q s (Some data) d = (Inr nm, d')"
  shows "(MaxUploads s > 0 \<longrightarrow> int (used_files d' (uploadDir s)) \<le> MaxUploads s)
    \<and> (MaxStorageBytes s > 0 \<longrightarrow> int (used_bytes d' (uploadDir s)) \<le> MaxStorageBytes s)
    \<and> plain nm \<and> lookup d (ResolveUpload s nm) = None \<and> lookup d' (ResolveUpload s nm) = Some (File data)
    \<and> (\<forall>q. lookup d' q = (if locate q = locate (ResolveUpload s nm) then Some (File data) else lookup d q))"
proof -
  obtain data' d1 where "Some data = Some data'" and nm: "plain nm" and new: "lookup d (Join [uploadDir s, nm]) = None"
    and quota': "enforceFileQuota Q (uploadDir s) (MaxUploads s) (MaxStorageBytes s) (int (length data')) ''template upload'' d = (Inr (), d1)"
    and nodes': "nodes d' = nodes d @ [(locate (Join [uploadDir s, nm]), File data')]"
    by (rule SaveUpload_ok [OF run])
  then have "data' = data" by simp
  note quota = quota' [unfolded this] and nodes = nodes' [unfolded this]
  have res: "ResolveUpload s nm = Join [uploadDir s, nm]" by (simp add: ResolveUpload_def Base_plain [OF nm])
  have lookup': "lookup d' q = (if locate q = locate (ResolveUpload s nm) then Some (File data) else lookup d q)" for q
    using new unfolding res lookup_def nodes
    by (cases "locate q = locate (Join [uploadDir s, nm])") (simp_all add: map_add_def split: option.split)
  have "children (locate (uploadDir s)) d' = children (locate (uploadDir s)) d @ [(nm, File data)]"
    by (simp add: children_def nodes locate_Join [OF nm])
  then have "used_files d' (uploadDir s) = Suc (used_files d (uploadDir s))"
      "used_bytes d' (uploadDir s) = used_bytes d (uploadDir s) + length data"
    by (simp_all add: used_files_def used_bytes_def file_sizes_def)
  then show ?thesis using enforceFileQuota_ok [OF quota] lookup' new nm res by auto
qed

subsection \<open>The store refines a map\<close>

datatype store_op = OpPut Entry | OpDelete string | OpUpload "string option"

fun store_run ::
    "os \<Rightarrow> Entry list codec \<Rightarrow> (string \<Rightarrow> string) \<Rightarrow> FileStore \<Rightarrow> store_op \<Rightarrow> (store_error, unit) io" where
  "store_run Q C ul s (OpPut e) = store_Put Q C ul s e"
| "store_run Q C ul s (OpDelete i) = store_Delete Q C ul s i"
| "store_run Q C ul s (OpUpload src) = io_bind (SaveUpload Q s src) (\<lambda>_. io_return ())"

fun op_list :: "(string \<Rightarrow> string) \<Rightarrow> instant \<Rightarrow> store_op \<Rightarrow> Entry list \<Rightarrow> Entry list" where
  "op_list ul t (OpPut e) es = put_entry t (normalized ul e) es"
| "op_list ul t (OpDelete i) es = cut_first ID i es"
| "op_list ul t (OpUpload src) es = es"

fun op_map :: "(string \<Rightarrow> string) \<Rightarrow> instant \<Rightarrow> store_op \<Rightarrow> Entry list \<Rightarrow> (string \<Rightarrow> Entry option) \<Rightarrow> string \<Rightarrow> Entry option" where
  "op_map ul t (OpPut e) es m = m(ID e \<mapsto> stored_entry t (normalized ul e) es)"
| "op_map ul t (OpDelete i) es m = m(i := None)"
| "op_map ul t (OpUpload src) es m = m"

definition store_inv :: "(string \<Rightarrow> string) \<Rightarrow> Entry list \<Rightarrow> bool" where
  "store_inv ul es \<longleftrightarrow> distinct (map ID es) \<and> list_all (\<lambda>e. Validate_entry ul e = None) es"

lemma Validate_entry_times [simp]: "Validate_entry ul (e\<lparr>CreatedAt := a, UpdatedAt := b\<rparr>) = Validate_entry ul e"
  by (simp add: Validate_entry_def)

lemma put_entry_elem:
  "x \<in> set (put_entry t e es) \<Longrightarrow> x \<in> set es \<or> (\<exists>a b. x = e\<lparr>CreatedAt := a, UpdatedAt := b\<rparr>)"
  using subsetD [OF set_upsert, of x] unfolding put_entry_def by blast

lemma store_inv_put: "store_inv ul es \<Longrightarrow> Validate_entry ul e = None \<Longrightarrow> store_inv ul (put_entry t e es)"
  using entries.put_distinct [of es t e]
  by (auto simp: store_inv_def list_all_iff simp del: set_map dest!: put_entry_elem)

lemma store_inv_cut: "store_inv ul es \<Longrightarrow> store_inv ul (cut_first ID i es)"
  using entries.del_distinct set_cut_first [of ID i es] by (auto simp: store_inv_def list_all_iff simp del: set_map)

lemma op_list_map:
  assumes "distinct (map ID es)"
  shows "(\<lambda>i. get_entry i (op_list ul t op es)) = op_map ul t op es (\<lambda>i. get_entry i es)"
  using assms by (cases op) (simp_all add: entries.put_refines entries.del_refines)

lemma op_list_normalized:
  "case_stable ul \<Longrightarrow> map (normalized ul) es = es \<Longrightarrow> map (normalized ul) (op_list ul t op es) = op_list ul t op es"
  by (cases op) (simp_all add: map_normalized_put map_normalized_cut)


text \<open>The three operations on disk, in the shape of the list function they apply.\<close>

lemma store_Put_list:
  assumes ok: "store_ok Q s" and ul: "case_stable ul" and es: "stored_entries C ul s d = Some es"
    and C: "\<forall>t. faithful C (put_entry t (normalized ul e) es)"
    and run: "store_Put Q C ul s e d = (r, d')"
  shows "if r = Inr () then Validate_entry ul (normalized ul e) = None
           \<and> (\<exists>t. stored_entries C ul s d' = Some (put_entry t (normalized ul e) es))
         else stored_entries C ul s d' = Some es"
proof (cases "Validate_entry ul (normalized ul e)")
  case (Some err)
  then show ?thesis using run es by (auto simp: store_Put_def Let_def io_fail_def)
next
  case None
  let ?n = "normalized ul e"
  define stat where "stat = (if Type ?n = EntryTypeTemplate then stat_upload Q (ResolveUpload s (UploadedTemplatePath ?n)) else io_return ())"
  obtain z d1 where z: "stat d = (z, d1)" by (cases "stat d")
  obtain y d2 where y: "readLocked Q C ul s d1 = (y, d2)" by (cases "readLocked Q C ul s d1")
  have "nodes d1 = nodes d"
    using z by (auto simp: stat_def stat_upload_def io_defs Let_def split: if_splits)
  moreover have "nodes d2 = nodes d1" by (rule readLocked_exact(1) [OF y])
  ultimately have same: "stored_entries C ul s d1 = Some es" "stored_entries C ul s d2 = Some es"
    using es by (simp_all add: stored_entries_def read_metadata_def lookup_def)
  have norm: "map (normalized ul) (put_entry t ?n es) = put_entry t ?n es" for t
    using ul stored_entries_normalized [OF ul es] by (intro map_normalized_put) simp_all
  have run': "io_bind stat (\<lambda>_. io_bind (readLocked Q C ul s) (\<lambda>entries d.
      let t = os_clock Q (ticks d) in
      io_bind (writeLocked Q C s (put_entry t ?n entries)) (\<lambda>_. drop_upload Q s (stale_upload ?n entries)) d)) d = (r, d')"
    using run by (simp only: store_Put_def Let_def None option.case stat_def)
  show ?thesis
  proof (cases "\<exists>u v. z = Inr u \<and> y = Inr v")
    case False
    then have "r \<noteq> Inr ()" "d' = d1 \<or> d' = d2"
      using run' z y by (auto simp: io_bind_def split: sum.splits)
    then show ?thesis using same by auto
  next
    case True
    then have y': "y = Inr es" using readLocked_exact(2) [OF y] same(1) by auto
    let ?t = "os_clock Q (ticks d2)"
    have "io_bind (writeLocked Q C s (put_entry ?t ?n es)) (\<lambda>_. drop_upload Q s (stale_upload ?n es)) d2 = (r, d')"
      using run' z y y' True by (auto simp: io_bind_def Let_def)
    from write_then_drop [OF ok _ norm this] C same show ?thesis using None by auto
  qed
qed

lemma store_Delete_list:
  assumes ok: "store_ok Q s" and ul: "case_stable ul" and es: "stored_entries C ul s d = Some es"
    and C: "faithful C (cut_first ID i es)" and run: "store_Delete Q C ul s i d = (r, d')"
  shows "stored_entries C ul s d' = Some (if r = Inr () then cut_first ID i es else es)"
proof -
  obtain y d2 where y: "readLocked Q C ul s d = (y, d2)" by (cases "readLocked Q C ul s d")
  have same: "stored_entries C ul s d2 = Some es"
    using es readLocked_exact(1) [OF y] by (simp add: stored_entries_def read_metadata_def lookup_def)
  have norm: "map (normalized ul) (cut_first ID i es) = cut_first ID i es"
    by (rule map_normalized_cut [OF stored_entries_normalized [OF ul es]])
  show ?thesis
  proof (cases y)
    case (Inl err)
    then show ?thesis using run y same by (auto simp: store_Delete_def io_bind_def)
  next
    case (Inr v)
    then have v: "v = es" using readLocked_exact(2) [OF y] es by auto
    show ?thesis
    proof (cases "get_entry i es")
      case None
      then have "cut_first ID i es = es" by (induction es) (auto simp: get_entry_def split: if_splits)
      then show ?thesis using run y Inr v None same by (auto simp: store_Delete_def io_bind_def io_return_def)
    next
      case (Some e)
      then have "io_bind (writeLocked Q C s (cut_first ID i es)) (\<lambda>_. drop_upload Q s (UploadedTemplatePath e)) d2 = (r, d')"
        using run y Inr v by (simp add: store_Delete_def io_bind_def)
      from write_then_drop [OF ok C norm this] same show ?thesis by simp
    qed
  qed
qed


lemma strip_prefixes_parts: "\<exists>a. s = a @ strip_prefixes ps s \<and> set a \<subseteq> \<Union> (set ` set ps)"
proof (induction ps s rule: strip_prefixes.induct)
  case (1 ps s)
  show ?case
  proof (cases "find (\<lambda>p. p \<noteq> [] \<and> prefix p s) ps")
    case None
    then have "strip_prefixes ps s = s" by (subst strip_prefixes.simps) simp
    then show ?thesis by auto
  next
    case (Some p)
    then have p: "p \<in> set ps" "prefix p s" by (auto simp: find_Some_iff)
    then obtain b where s: "s = p @ b" by (auto simp: prefix_def)
    from "1.IH" [OF Some] obtain a where a: "b = a @ strip_prefixes ps b" "set a \<subseteq> \<Union> (set ` set ps)"
      using s by auto
    have "strip_prefixes ps s = strip_prefixes ps b" using Some s by (subst strip_prefixes.simps) simp
    moreover have "s = (p @ a) @ strip_prefixes ps b" using s a(1) by simp
    moreover have "set (p @ a) \<subseteq> \<Union> (set ` set ps)" using p(1) a(2) by auto
    ultimately show ?thesis by metis
  qed
qed

lemma space_codes: "p \<in> set space_encodings \<Longrightarrow> c \<in> set p \<Longrightarrow> (of_char c :: nat) \<noteq> 47"
  by (auto simp: space_encodings_def)

lemma space_no_slash: "p \<in> set space_encodings \<Longrightarrow> CHR ''/'' \<notin> set p"
  using space_codes [of p "CHR ''/''"] by auto

lemma TrimSpace_parts: "\<exists>a b. s = a @ TrimSpace s @ b \<and> CHR ''/'' \<notin> set b"
proof -
  let ?u = "strip_prefixes space_encodings s"
  obtain a where a: "s = a @ ?u" using strip_prefixes_parts [of s space_encodings]
    by (elim exE conjE) (rule that)
  obtain b where b: "rev ?u = b @ strip_prefixes (map rev space_encodings) (rev ?u)"
      "set b \<subseteq> \<Union> (set ` set (map rev space_encodings))"
    using strip_prefixes_parts [of "rev ?u" "map rev space_encodings"] by (elim exE conjE) (rule that)
  have "?u = TrimSpace s @ rev b" using arg_cong [OF b(1), of rev] by (simp add: TrimSpace_def)
  moreover have "CHR ''/'' \<notin> set (rev b)" using b(2) space_no_slash by auto
  ultimately show ?thesis using a by (metis append.assoc)
qed

text \<open>Lower case maps to \<open>.rdp\<close> only the letters of \<open>.rdp\<close> themselves, in either case.\<close>

definition rdp_letters :: "(string \<Rightarrow> string) \<Rightarrow> bool" where
  "rdp_letters ul \<longleftrightarrow>
     (\<forall>s. \<not> is_ascii s \<longrightarrow> HasSuffix (ul s) ''.rdp'' \<longrightarrow> (\<exists>q w. s = q @ w \<and> map ascii_lower w = ''.rdp''))"

lemma lower_rdp: "rdp_letters ul \<Longrightarrow> HasSuffix (ToLower ul s) ''.rdp'' \<Longrightarrow> \<exists>q w. s = q @ w \<and> map ascii_lower w = ''.rdp''"
proof (cases "is_ascii s")
  case True
  assume "HasSuffix (ToLower ul s) ''.rdp''"
  then obtain q where "map ascii_lower s = q @ ''.rdp''" using True by (auto simp: ToLower_def HasSuffix_def suffix_def)
  then obtain q' w where "s = q' @ w" "''.rdp'' = map ascii_lower w" unfolding map_eq_append_conv by (elim exE conjE) (rule that)
  then show ?thesis by (intro exI conjI) (assumption, rule sym)
qed (simp add: ToLower_def rdp_letters_def)

lemma Base_tail:
  assumes "CHR ''/'' \<notin> set t" "t \<noteq> []" shows "length t \<le> length (Base (p @ t))"
proof -
  obtain ts c where t: "t = ts @ [c]" using assms(2) by (cases t rule: rev_cases) auto
  then have "dropWhile (\<lambda>c. c = CHR ''/'') (rev (p @ t)) = rev (p @ t)" using assms(1) by auto
  then have "Base (p @ t) = last_element (p @ t)" using assms(2) by (simp add: Base_def Let_def)
  moreover have "takeWhile (\<lambda>c. c \<noteq> CHR ''/'') (rev t @ rev p) = rev t @ takeWhile (\<lambda>c. c \<noteq> CHR ''/'') (rev p)"
    using assms(1) by (intro takeWhile_append2) auto
  ultimately show ?thesis by (simp add: last_element_def)
qed

text \<open>
  Uploads stay inside the upload directory: for every template entry the validation accepts, the
  path the store resolves names a file directly in that directory, whatever path the entry holds.
\<close>

theorem template_upload_contained:
  assumes ul: "rdp_letters ul" and ok: "Validate_entry ul e = None" and t: "Type e = EntryTypeTemplate"
  shows "\<exists>nm. plain nm \<and> locate (ResolveUpload s (UploadedTemplatePath e)) = (fst (locate (uploadDir s)), snd (locate (uploadDir s)) @ [nm])"
proof -
  let ?p = "UploadedTemplatePath e"
  have low: "HasSuffix (ToLower ul (TrimSpace ?p)) ''.rdp''"
    using Validate_entry_None [OF ok] t by (auto simp: EntryTypeHost_def EntryTypeTemplate_def)
  obtain q w where w: "TrimSpace ?p = q @ w" "map ascii_lower w = ''.rdp''"
    using lower_rdp [OF ul low] by (elim exE conjE) (rule that)
  obtain a b where p: "?p = a @ TrimSpace ?p @ b" "CHR ''/'' \<notin> set b"
    using TrimSpace_parts [of ?p] by (elim exE conjE) (rule that)
  have "length w = 4" using arg_cong [OF w(2), of length] by simp
  moreover have "CHR ''/'' \<notin> set w"
  proof
    assume "CHR ''/'' \<in> set w"
    then have "ascii_lower (CHR ''/'') \<in> set (map ascii_lower w)" by simp
    then show False unfolding w(2) by (simp add: ascii_lower_def)
  qed
  ultimately have "4 \<le> length (w @ b)" "CHR ''/'' \<notin> set (w @ b)" "w @ b \<noteq> []" using p(2) by auto
  then have "4 \<le> length (Base ((a @ q) @ (w @ b)))" using Base_tail [of "w @ b" "a @ q"] by linarith
  moreover have "?p = (a @ q) @ (w @ b)" using p(1) w(1) by simp
  ultimately have "4 \<le> length (Base ?p)" by metis
  then have "plain (Base ?p)" using Base_cases [of ?p] by auto
  then show ?thesis by (auto simp: ResolveUpload_def locate_Join)
qed

subsection \<open>Witnesses\<close>

definition demo_store :: FileStore where
  "demo_store = \<lparr>metadataPath = ''m'', uploadDir = ''u'', MaxUploads = 1, MaxStorageBytes = 8\<rparr>"

definition demo_entry :: Entry where
  "demo_entry = \<lparr>ID = ''1'', Type = ''host'', Name = ''n'', Description = [], Icon = [], AllowedGroups = [''g''],
     Enabled = True, Host = ''h:1'', UploadedTemplatePath = [], TargetHostOverride = [], TargetIPOverride = [],
     ForceTargetIPOverride = False, CreatedAt = 1, UpdatedAt = 1\<rparr>"

definition demo_template :: Entry where
  "demo_template = demo_entry\<lparr>Type := ''template'', UploadedTemplatePath := ''../a.rdp''\<rparr>"

lemma TrimSpace_demo [simp]:
  "TrimSpace ''1'' = ''1''" "TrimSpace ''n'' = ''n''" "TrimSpace ''g'' = ''g''" "TrimSpace ''h:1'' = ''h:1''"
  "TrimSpace ''h'' = ''h''" "TrimSpace ''../a.rdp'' = ''../a.rdp''" "TrimSpace ''window'' = ''window''"
  by (simp_all add: TrimSpace_ascii is_ascii_def ascii_space_def)

theorem template_upload_contained_witness:
  "\<exists>nm. plain nm \<and> locate (ResolveUpload demo_store ''../a.rdp'') = (False, [''u'', nm])"
proof -
  have "rdp_letters (\<lambda>s. [])" by (simp add: rdp_letters_def HasSuffix_def)
  moreover have "Validate_entry (\<lambda>s. []) demo_template = None"
    by (simp add: Validate_entry_def demo_template_def demo_entry_def IsValidEntryIcon_def ToLower_def is_ascii_def
                  EntryTypeHost_def EntryTypeTemplate_def ascii_lower_def HasSuffix_def suffix_def)
  moreover have "Type demo_template = EntryTypeTemplate" by (simp add: demo_template_def EntryTypeTemplate_def)
  ultimately have "\<exists>nm. plain nm \<and> locate (ResolveUpload demo_store (UploadedTemplatePath demo_template))
      = (fst (locate (uploadDir demo_store)), snd (locate (uploadDir demo_store)) @ [nm])"
    by (rule template_upload_contained)
  then show ?thesis
    by (simp add: demo_template_def demo_store_def locate_plain plain_def)
qed

lemma demo_upload: "\<exists>d'. SaveUpload calm demo_store (Some ''abc'') empty_disk = (Inr ''6b.rdp'', d')"
  by (simp add: SaveUpload_def enforceFileQuota_def regularFileUsage_def io_defs Let_def demo_store_def empty_disk_def
                children_def hex_encode_def hex_digit_def digit_def char_of_def bit_0 lookup_def)

theorem SaveUpload_quota_witness:
  "\<exists>d'. SaveUpload calm demo_store (Some ''abc'') empty_disk = (Inr ''6b.rdp'', d')
     \<and> used_files d' ''u'' \<le> 1 \<and> used_bytes d' ''u'' \<le> 8
     \<and> lookup d' (ResolveUpload demo_store ''6b.rdp'') = Some (File ''abc'')"
proof -
  obtain d' where run: "SaveUpload calm demo_store (Some ''abc'') empty_disk = (Inr ''6b.rdp'', d')"
    using demo_upload by blast
  from SaveUpload_quota [OF run] run show ?thesis by (auto simp: demo_store_def)
qed

lemma demo_store_ok: "store_ok calm demo_store"
proof -
  have m: "locate (metadataPath demo_store) = (False, [''m''])" by (simp add: demo_store_def locate_plain plain_def)
  have "locate (ResolveUpload demo_store p) \<noteq> (False, [''m''])" for p
    using Base_cases [of p]
  proof (elim disjE)
    assume "plain (Base p)"
    then show ?thesis by (simp add: ResolveUpload_def demo_store_def locate_Join locate_plain plain_def)
  qed (simp_all add: ResolveUpload_def demo_store_def Join_def,
       simp_all add: locate_def HasPrefix_def path_step_def)
  moreover have "locate (temp_of calm (metadataPath demo_store) ''entries-'' ''.tmp'' t) \<noteq> (False, [''m''])" for t
    by (simp add: temp_of_def demo_store_def Dir_of_def Clean_def locate_def HasPrefix_def path_step_def)
  ultimately show ?thesis by (simp add: store_ok_def m)
qed

text \<open>A disk whose metadata holds one entry, and a codec for the two lists it ever sees.\<close>

definition demo_codec :: "Entry list codec" where
  "demo_codec = \<lparr>enc = (\<lambda>es. Some ''[]''), dec = (\<lambda>s. Some (if s = ''[]'' then [] else [demo_entry\<lparr>Icon := ''window''\<rparr>]))\<rparr>"

definition demo_disk :: disk where
  "demo_disk = \<lparr>nodes = [((False, [''m'']), File ''x'')], ticks = 0\<rparr>"

lemma demo_lower: "case_stable (\<lambda>s. [])" "ToLower (\<lambda>s. []) ''window'' = ''window''"
  "\<not> IsUploadedEntryIcon (\<lambda>s. []) ''window''"
  by (simp_all add: case_stable_def ToLower_def is_ascii_def ascii_lower_def IsUploadedEntryIcon_def UploadedEntryIconID_def
      EntryIconUploadedPrefix_def HasPrefix_def)

lemma demo_normalized: "normalized (\<lambda>s. []) (demo_entry\<lparr>Icon := ''window''\<rparr>) = demo_entry\<lparr>Icon := ''window''\<rparr>"
  by (simp add: normalized_def NormalizeEntryIcon_def demo_lower allowedEntryIcons_def EntryIconWindow_def)

lemma demo_file: "lookup demo_disk (metadataPath demo_store) = Some (File ''x'')"
  by (simp add: lookup_def demo_disk_def demo_store_def locate_plain plain_def)

lemma demo_inv: "store_inv (\<lambda>s. []) [demo_entry\<lparr>Icon := ''window''\<rparr>]"
proof -
  have "SplitHostPort ''h:1'' = Some (''h'', ''1'')"
    using SplitHostPort_JoinHostPort [of "''h''" "''1''"] by (simp add: JoinHostPort_def)
  moreover have "Atoi ''1'' = Some 1" using Atoi_Itoa [of 1] by (simp add: Itoa.simps digit_def char_of_def bit_0)
  ultimately have "valid_host_port ''h:1''" by (simp add: valid_host_port_def)
  then show ?thesis
    by (simp add: store_inv_def Validate_entry_def demo_entry_def IsValidEntryIcon_def demo_lower allowedEntryIcons_def
                  EntryIconWindow_def EntryTypeHost_def)
qed


end
