(* ===== verification/Web_Download.thy ===== *)
theory Web_Download
  imports Rdp_File Web_Auth Dashboard_Store Security
begin

text \<open>
  Connection files for users: which host a download is for and how its name is resolved
  (\<open>web/web.go\<close>, \<open>web/internal_dns.go\<close>), the credentials and settings that go into the file,
  the download of a dashboard entry (\<open>web/dashboard_download.go\<close>) and the small read-only
  endpoints of \<open>web.go\<close> and \<open>token.go\<close>.

  Token generators, the query check, the DNS resolver, the signer, the random source and the
  template decoder are parameters. A panic and \<open>log.Fatal\<close> are \<open>Panic\<close>.
\<close>

subsection \<open>The handler\<close>

record RdpRedirectionPolicy =
  rpClipboard :: bool
  rpDrive :: bool
  rpPrinter :: bool
  rpPort :: bool
  rpDevice :: bool
  rpPnp :: bool

record RdpOpts =
  UsernameTemplate :: string
  SplitUserDomain :: bool
  NoUsername :: bool

text \<open>
  A function that is nil is \<open>None\<close>; a generator that fails gives \<open>None\<close>. \<open>gatewayHost\<close> is the host of
  \<open>gatewayAddress\<close>, which \<open>main.go\<close> always sets.
\<close>

record Handler =
  paaTokenGenerator :: "(string \<Rightarrow> string \<Rightarrow> string option) option"
  enableUserToken :: bool
  userTokenGenerator :: "(string \<Rightarrow> string option) option"
  queryInfo :: "string \<Rightarrow> string \<Rightarrow> string option"
  queryTokenIssuer :: string
  dashboardStore :: "FileStore option"
  gatewayHost :: string
  hosts :: "string list"
  hostSelection :: string
  rdpOpts :: RdpOpts
  rdpDefaults :: string
  rdpSigner :: "(string \<Rightarrow> string option) option"
  rdpRedirection :: RdpRedirectionPolicy
  internalDomains :: "string list"
  internalDNSServer :: string
  internalDNSLookupIP :: "string \<Rightarrow> string \<Rightarrow> nat list list option"

text \<open>\<open>NewHandler\<close>: the checks and the signer; \<open>mk\<close> is \<open>rdpsign.New\<close>. Every other field is copied.\<close>

definition NewHandler ::
    "(string \<Rightarrow> string \<Rightarrow> (string \<Rightarrow> string option) option) \<Rightarrow> string \<Rightarrow> string \<Rightarrow> Handler \<Rightarrow> Handler go" where
  "NewHandler mk cert key c =
     (if length (hosts c) < 1 \<and> dashboardStore c = None then Panic
      else if cert \<noteq> [] \<and> key \<noteq> [] then
        (case mk cert key of None \<Rightarrow> Panic | Some signer \<Rightarrow> Ret (c\<lparr>rdpSigner := Some signer\<rparr>))
      else Ret (c\<lparr>rdpSigner := None\<rparr>))"

subsection \<open>Choosing a host\<close>

text \<open>\<open>rnd n\<close> is what \<open>Intn n\<close> draws; it panics on 0.\<close>

definition selectRandomHost :: "(nat \<Rightarrow> nat) \<Rightarrow> Handler \<Rightarrow> string go" where
  "selectRandomHost rnd h = (if hosts h = [] then Panic else Ret (hosts h ! (rnd (length (hosts h)) mod length (hosts h))))"

definition getHost :: "(nat \<Rightarrow> nat) \<Rightarrow> Handler \<Rightarrow> Request \<Rightarrow> string option go" where
  "getHost rnd h r =
     (if hostSelection h = ''roundrobin'' then go_bind (selectRandomHost rnd h) (\<lambda>x. Ret (Some x))
      else if hostSelection h = ''signed'' then
        (case rQuery r ''host'' of
           None \<Rightarrow> Ret None
         | Some [] \<Rightarrow> Panic
         | Some (q # qs) \<Rightarrow>
             (case queryInfo h q (queryTokenIssuer h) of
                None \<Rightarrow> Ret None
              | Some host \<Rightarrow> if list_ex (\<lambda>check. check = host) (hosts h) then Ret (Some host) else Ret None))
      else if hostSelection h = ''unsigned'' then
        (case rQuery r ''host'' of
           None \<Rightarrow> Ret None
         | Some [] \<Rightarrow> Panic
         | Some (q # qs) \<Rightarrow> if list_ex (\<lambda>check. check = q) (hosts h) then Ret (Some q) else Ret None)
      else if hostSelection h = ''any'' then Ret None
      else go_bind (selectRandomHost rnd h) (\<lambda>x. Ret (Some x)))"

subsection \<open>Resolving the address\<close>

definition normalizeDNSServerAddress :: "string \<Rightarrow> string" where
  "normalizeDNSServerAddress dnsServer =
     (let dnsServer = TrimSpace dnsServer in
      if dnsServer = [] then []
      else if SplitHostPort dnsServer \<noteq> None then dnsServer
      else if ParseIP dnsServer \<noteq> None then JoinHostPort dnsServer ''53''
      else if CHR '':'' \<in> set dnsServer \<and> \<not> HasPrefix dnsServer ''['' then JoinHostPort dnsServer ''53''
      else JoinHostPort dnsServer ''53'')"

definition TrimBrackets :: "string \<Rightarrow> string" where
  "TrimBrackets s =
     (let b = (\<lambda>c. c = CHR ''['' \<or> c = CHR '']'') in rev (dropWhile b (rev (dropWhile b s))))"

text \<open>Host, port and whether there was a port.\<close>

definition splitRDPAddress :: "string \<Rightarrow> (string \<times> string \<times> bool) option" where
  "splitRDPAddress address =
     (let address = TrimSpace address in
      if CHR '':'' \<in> set address then
        (case SplitHostPort address of
           None \<Rightarrow> None
         | Some (host, port) \<Rightarrow> Some (TrimBrackets host, port, True))
      else Some (address, [], False))"

definition joinRDPAddress :: "string \<Rightarrow> string \<Rightarrow> bool \<Rightarrow> string" where
  "joinRDPAddress host port hasPort = (if \<not> hasPort then host else JoinHostPort host port)"

definition canonical_domain :: "(string \<Rightarrow> string) \<Rightarrow> string \<Rightarrow> string" where
  "canonical_domain ul s = TrimSuffix (ToLower ul (TrimSpace s)) ''.''"

fun match_domains :: "(string \<Rightarrow> string) \<Rightarrow> string \<Rightarrow> string list \<Rightarrow> bool" where
  "match_domains ul host [] = False"
| "match_domains ul host (domain # ds) =
     (let domain = TrimPrefix (canonical_domain ul domain) ''.''
      in if domain = [] then match_domains ul host ds
         else if host = domain \<or> HasSuffix host (CHR ''.'' # domain) then True
         else match_domains ul host ds)"

definition matchesInternalDomain :: "(string \<Rightarrow> string) \<Rightarrow> string \<Rightarrow> string list \<Rightarrow> bool" where
  "matchesInternalDomain ul host domains =
     (let host = canonical_domain ul host in if host = [] then False else match_domains ul host domains)"

definition resolveRDPAddress :: "(string \<Rightarrow> string) \<Rightarrow> Handler \<Rightarrow> string \<Rightarrow> string \<Rightarrow> bool \<Rightarrow> string option" where
  "resolveRDPAddress ul h address override force =
     (case splitRDPAddress address of
        None \<Rightarrow> None
      | Some (host, port, hasPort) \<Rightarrow>
          if ParseIP host \<noteq> None then Some address
          else let override = TrimSpace override in
            if override \<noteq> [] \<and> ParseIP override = None then None
            else if force \<and> override \<noteq> [] then Some (joinRDPAddress override port hasPort)
            else let dnsServer = normalizeDNSServerAddress (internalDNSServer h) in
              if \<not> matchesInternalDomain ul host (internalDomains h) \<or> dnsServer = [] then Some address
              else (case internalDNSLookupIP h dnsServer host of
                      Some (ip # ips) \<Rightarrow> Some (joinRDPAddress (IP_String ip) port hasPort)
                    | _ \<Rightarrow> if override \<noteq> [] then Some (joinRDPAddress override port hasPort) else None))"

subsection \<open>Settings of the file\<close>

definition assign :: "Builder \<Rightarrow> string \<times> field_value \<Rightarrow> Builder" where
  "assign b nv = b\<lparr>Settings := (Settings b)(fst nv := snd nv)\<rparr>"

definition redirectionString :: "bool \<Rightarrow> string" where
  "redirectionString enabled = (if enabled then ''*'' else ''false'')"

definition forceRdpField :: "Builder \<Rightarrow> string \<Rightarrow> Builder" where
  "forceRdpField b field = (if list_ex (\<lambda>existing. existing = field) (Unset b) then b else b\<lparr>Unset := Unset b @ [field]\<rparr>)"

definition policy_settings :: "RdpRedirectionPolicy \<Rightarrow> (string \<times> field_value) list" where
  "policy_settings p =
     [(''RedirectClipboard'', FBool (rpClipboard p)), (''RedirectPrinters'', FBool (rpPrinter p)),
      (''RedirectComPorts'', FBool (rpPort p)), (''DriveStoreRedirect'', FString (redirectionString (rpDrive p))),
      (''DeviceStoreRedirect'', FString (redirectionString (rpDevice p))),
      (''UsbDeviceStoRedirect'', FString (redirectionString (rpPnp p)))]"

definition applyRdpRedirectionPolicy :: "RdpRedirectionPolicy \<Rightarrow> Builder \<Rightarrow> Builder" where
  "applyRdpRedirectionPolicy p b =
     foldl forceRdpField (foldl assign b (policy_settings p)) (map fst (policy_settings p))"

text \<open>The settings that point the client at the gateway, the same in both downloads.\<close>

definition gateway_settings_of :: "string \<Rightarrow> string \<Rightarrow> string \<Rightarrow> (string \<times> field_value) list" where
  "gateway_settings_of host gateway token =
     [(''FullAddress'', FString host), (''GatewayHostname'', FString gateway),
      (''GatewayCredentialsSource'', FInt SourceCookie), (''GatewayAccessToken'', FString token),
      (''GatewayCredentialMethod'', FInt 1), (''GatewayUsageMethod'', FInt 1)]"

subsection \<open>The user and the credentials\<close>

text \<open>The name to log in with and the domain: \<open>SplitN(name, "@", 2)\<close> when names are split.\<close>

definition user_and_domain :: "RdpOpts \<Rightarrow> string \<Rightarrow> string \<times> string" where
  "user_and_domain opts name =
     (if SplitUserDomain opts then
        (case SplitN name CHR ''@'' 2 of
           [u, d] \<Rightarrow> (u, d)
         | [u] \<Rightarrow> (u, [])
         | _ \<Rightarrow> ([], []))
      else (name, []))"

text \<open>\<open>None\<close>: the template does not mention the user.\<close>

definition render_username :: "RdpOpts \<Rightarrow> string \<Rightarrow> string option" where
  "render_username opts user =
     (if UsernameTemplate opts \<noteq> [] then
        (let r = ReplaceFirst (UsernameTemplate opts) ''{{ username }}'' user
         in if r = UsernameTemplate opts then None else Some r)
      else Some user)"

text \<open>The PAA token, and the rendered name with the user token put in; \<open>None\<close> is an error answer.\<close>

definition credentials :: "Handler \<Rightarrow> string \<Rightarrow> string \<Rightarrow> string \<Rightarrow> (string \<times> string) option" where
  "credentials h user host r =
     (case paaTokenGenerator h of
        None \<Rightarrow> None
      | Some gen \<Rightarrow>
          (case gen user host of
             None \<Rightarrow> None
           | Some token \<Rightarrow>
               if enableUserToken h then
                 (case userTokenGenerator h of
                    None \<Rightarrow> None
                  | Some ugen \<Rightarrow>
                      (case ugen user of
                         None \<Rightarrow> None
                       | Some userToken \<Rightarrow> Some (token, ReplaceFirst r ''{{ token }}'' userToken)))
               else Some (token, r)))"

subsection \<open>HandleDownload\<close>

datatype download = Refused nat | Served string string

text \<open>\<open>load\<close> makes a builder from a template file; \<open>seed\<close> is what \<open>rand.Read\<close> fills in.\<close>

definition default_builder :: "(string \<Rightarrow> Builder option go) \<Rightarrow> Handler \<Rightarrow> Builder option go" where
  "default_builder load h =
     (if rdpDefaults h = [] then go_bind NewBuilder (\<lambda>b. Ret (Some b)) else load (rdpDefaults h))"

definition serve_file :: "Handler \<Rightarrow> string \<Rightarrow> Builder \<Rightarrow> download go" where
  "serve_file h filename b =
     go_bind (Builder_String b) (\<lambda>content.
       Ret (case rdpSigner h of
              None \<Rightarrow> Served filename content
            | Some sign \<Rightarrow>
                (case sign content of
                   None \<Rightarrow> Refused StatusInternalServerError
                 | Some signedContent \<Rightarrow> Served filename signedContent)))"

text \<open>The settings \<open>HandleDownload\<close> puts into the builder.\<close>

definition download_settings :: "Handler \<Rightarrow> string \<Rightarrow> string \<Rightarrow> string \<Rightarrow> string \<Rightarrow> Builder \<Rightarrow> Builder" where
  "download_settings h host token r domain d =
     (let d = (if \<not> NoUsername (rdpOpts h)
               then let d = assign d (''Username'', FString r)
                    in if domain \<noteq> [] then assign d (''Domain'', FString domain) else d
               else d);
          d = foldl assign d (gateway_settings_of host (gatewayHost h) token)
      in applyRdpRedirectionPolicy (rdpRedirection h) d)"

definition HandleDownload ::
    "(string \<Rightarrow> string) \<Rightarrow> (string \<Rightarrow> Builder option go) \<Rightarrow> (nat \<Rightarrow> nat) \<Rightarrow> string option \<Rightarrow> Handler
      \<Rightarrow> Request \<Rightarrow> User option \<Rightarrow> download go" where
  "HandleDownload ul load rnd seed h r ident =
     (case ident of
        None \<Rightarrow> Panic
      | Some u \<Rightarrow>
          if \<not> authenticated u then Ret (Refused StatusInternalServerError)
          else if rQuery r ''host'' \<noteq> None then Ret (Refused StatusBadRequest)
          else go_bind (selectRandomHost rnd h) (\<lambda>template.
            case ResolvePreferredUsernameHost template (UserName u) of
              None \<Rightarrow> Ret (Refused StatusInternalServerError)
            | Some host \<Rightarrow>
                (case resolveRDPAddress ul h host [] False of
                   None \<Rightarrow> Ret (Refused StatusInternalServerError)
                 | Some host \<Rightarrow>
                     (let (user, domain) = user_and_domain (rdpOpts h) (UserName u) in
                      case render_username (rdpOpts h) user of
                        None \<Rightarrow> Ret (Refused StatusInternalServerError)
                      | Some login \<Rightarrow>
                          (case credentials h user host login of
                             None \<Rightarrow> Ret (Refused StatusInternalServerError)
                           | Some (token, login) \<Rightarrow>
                               (case seed of
                                  None \<Rightarrow> Ret (Refused StatusInternalServerError)
                                | Some bytes \<Rightarrow>
                                    go_bind (default_builder load h) (\<lambda>d.
                                      case d of
                                        None \<Rightarrow> Ret (Refused StatusInternalServerError)
                                      | Some d \<Rightarrow>
                                          serve_file h (hex_encode bytes @ ''.rdp'')
                                            (download_settings h host token login domain d))))))))"

subsection \<open>Downloading a dashboard entry\<close>

definition string_setting :: "Builder \<Rightarrow> string \<Rightarrow> string" where
  "string_setting b n = (case Settings b n of FString s \<Rightarrow> s | _ \<Rightarrow> [])"

text \<open>The builder and the host of an entry; \<open>None\<close> is an error.\<close>

definition buildEntryBuilder ::
    "(string \<Rightarrow> string) \<Rightarrow> (string \<Rightarrow> Builder option go) \<Rightarrow> Handler \<Rightarrow> FileStore \<Rightarrow> User \<Rightarrow> Entry
      \<Rightarrow> (Builder \<times> string) option go" where
  "buildEntryBuilder ul load h s u e =
     (if Type e = EntryTypeHost then
        (case ResolvePreferredUsernameHost (Host e) (UserName u) of
           None \<Rightarrow> Ret None
         | Some host \<Rightarrow>
             (case resolveRDPAddress ul h host (TargetIPOverride e) (ForceTargetIPOverride e) of
                None \<Rightarrow> Ret None
              | Some host \<Rightarrow>
                  go_bind (default_builder load h) (\<lambda>b. Ret (map_option (\<lambda>b. (b, host)) b))))
      else if Type e = EntryTypeTemplate then
        go_bind (load (ResolveUpload s (UploadedTemplatePath e))) (\<lambda>b.
          case b of
            None \<Rightarrow> Ret None
          | Some b \<Rightarrow>
              (let host = (if TrimSpace (TargetHostOverride e) \<noteq> [] then TrimSpace (TargetHostOverride e)
                           else string_setting b ''FullAddress'')
               in case ResolvePreferredUsernameHost host (UserName u) of
                    None \<Rightarrow> Ret None
                  | Some host \<Rightarrow>
                      Ret (map_option (\<lambda>host. (b, host))
                             (resolveRDPAddress ul h host (TargetIPOverride e) (ForceTargetIPOverride e)))))
      else Ret None)"

definition entry_settings :: "Handler \<Rightarrow> string \<Rightarrow> string \<Rightarrow> string \<Rightarrow> string \<Rightarrow> Builder \<Rightarrow> Builder" where
  "entry_settings h host token r domain b =
     (let b = (if \<not> NoUsername (rdpOpts h)
               then assign (assign b (''Username'', FString r)) (''Domain'', FString domain)
               else assign (assign b (''Username'', FString [])) (''Domain'', FString []));
          b = foldl assign b (gateway_settings_of host (gatewayHost h) token)
      in applyRdpRedirectionPolicy (rdpRedirection h) b)"

definition serveBuiltRDP :: "(string \<Rightarrow> string) \<Rightarrow> Handler \<Rightarrow> string \<Rightarrow> Builder \<Rightarrow> download go" where
  "serveBuiltRDP ul h entryID b =
     (let filename = Base entryID;
          filename = (if \<not> HasSuffix (ToLower ul filename) ''.rdp'' then filename @ ''.rdp'' else filename)
      in serve_file h filename b)"

text \<open>What happens once the entry is loaded.\<close>

definition serve_entry ::
    "(string \<Rightarrow> string) \<Rightarrow> (string \<Rightarrow> Builder option go) \<Rightarrow> Handler \<Rightarrow> FileStore \<Rightarrow> User \<Rightarrow> Entry \<Rightarrow> download go" where
  "serve_entry ul load h s u e =
     (if length (VisibleEntries [e] (Groups u)) \<noteq> 1 then Ret (Refused StatusNotFound)
      else go_bind (buildEntryBuilder ul load h s u e) (\<lambda>bh.
        case bh of
          None \<Rightarrow> Ret (Refused StatusInternalServerError)
        | Some (b, host) \<Rightarrow>
            (let (user, domain) = user_and_domain (rdpOpts h) (UserName u) in
             case render_username (rdpOpts h) user of
               None \<Rightarrow> Ret (Refused StatusInternalServerError)
             | Some login \<Rightarrow>
                 (case credentials h user host login of
                    None \<Rightarrow> Ret (Refused StatusInternalServerError)
                  | Some (token, login) \<Rightarrow>
                      serveBuiltRDP ul h (ID e) (entry_settings h host token login domain b)))))"

text \<open>\<open>load\<close> reads from the disk as it is then; \<open>entryID\<close> is the path variable.\<close>

definition HandleEntryDownload ::
    "os \<Rightarrow> Entry list codec \<Rightarrow> (string \<Rightarrow> string) \<Rightarrow> (disk \<Rightarrow> string \<Rightarrow> Builder option go) \<Rightarrow> Handler
      \<Rightarrow> User option \<Rightarrow> string \<Rightarrow> disk \<Rightarrow> download go \<times> disk" where
  "HandleEntryDownload Q C ul load h ident entryID d =
     (case ident of
        None \<Rightarrow> (Ret (Refused StatusUnauthorized), d)
      | Some u \<Rightarrow>
          if \<not> authenticated u then (Ret (Refused StatusUnauthorized), d)
          else (case dashboardStore h of
            None \<Rightarrow> (Ret (Refused StatusServiceUnavailable), d)
          | Some s \<Rightarrow>
              if entryID = [] then (Ret (Refused StatusBadRequest), d)
              else (case store_Get Q C ul s entryID d of
                (Inl e, d) \<Rightarrow>
                  (Ret (Refused (if e = EntryNotFound then StatusNotFound else StatusInternalServerError)), d)
              | (Inr e, d) \<Rightarrow> (serve_entry ul (load d) h s u e, d))))"

subsection \<open>Read-only endpoints\<close>

datatype 'a reply = Status nat | Json 'a

record host_item =
  hiID :: string
  hiName :: string
  hiAddress :: string
  hiDescription :: string
  hiIsDefault :: bool

definition HandleHostList :: "User option \<Rightarrow> host_item list reply go" where
  "HandleHostList ident =
     (case ident of
        None \<Rightarrow> Panic
      | Some u \<Rightarrow> if \<not> authenticated u then Ret (Status StatusUnauthorized)
                  else Ret (Json [\<lparr>hiID = ''roundrobin'', hiName = ''Available Servers'', hiAddress = [],
                    hiDescription = ''Connect to an available server automatically'', hiIsDefault = True\<rparr>]))"

definition HandleUserInfo :: "User option \<Rightarrow> (string \<times> bool \<times> instant) reply go" where
  "HandleUserInfo ident =
     (case ident of
        None \<Rightarrow> Panic
      | Some u \<Rightarrow> if \<not> authenticated u then Ret (Status StatusUnauthorized)
                  else Ret (Json (UserName u, authenticated u, authTime u)))"

text \<open>The page: where to go for authentication, or the page itself when the template executes.\<close>

definition HandleWebInterface :: "bool \<Rightarrow> User option \<Rightarrow> nat go" where
  "HandleWebInterface executes ident =
     (case ident of
        None \<Rightarrow> Panic
      | Some u \<Rightarrow> if \<not> authenticated u then Ret StatusFound
                  else Ret (if executes then StatusOK else StatusInternalServerError))"

definition TokenInfo :: "(string \<Rightarrow> Claims option) \<Rightarrow> Request \<Rightarrow> Claims reply go" where
  "TokenInfo info r =
     (if rMethod r \<noteq> ''GET'' then Ret (Status StatusMethodNotAllowed)
      else (case rQuery r ''access_token'' of
              None \<Rightarrow> Ret (Status StatusBadRequest)
            | Some [] \<Rightarrow> Panic
            | Some (token # ts) \<Rightarrow>
                if length token < 1 then Ret (Status StatusBadRequest)
                else (case info token of
                        None \<Rightarrow> Ret (Status StatusForbidden)
                      | Some claims \<Rightarrow> Ret (Json claims))))"

subsection \<open>Typed settings\<close>

text \<open>An assignment fits the structure: the field exists and the value has its type.\<close>

definition typed :: "string \<times> field_value \<Rightarrow> bool" where
  "typed nv \<longleftrightarrow> (\<exists>g \<in> set RdpSettings. fName g = fst nv \<and> fKind g = kind_of (snd nv))"

lemma typed_field: "fld n k t d \<in> set RdpSettings \<Longrightarrow> kind_of v = k \<Longrightarrow> typed (n, v)"
  unfolding typed_def by (rule bexI [of _ "fld n k t d"]) (simp_all add: fld_def)

lemma download_fields:
  "fld ''Username'' KString ''username'' [] \<in> set RdpSettings"
  "fld ''Domain'' KString ''domain'' [] \<in> set RdpSettings"
  "fld ''FullAddress'' KString ''full address'' [] \<in> set RdpSettings"
  "fld ''GatewayHostname'' KString ''gatewayhostname'' [] \<in> set RdpSettings"
  "fld ''GatewayCredentialsSource'' KInt ''gatewaycredentialssource'' ''0'' \<in> set RdpSettings"
  "fld ''GatewayAccessToken'' KString ''gatewayaccesstoken'' [] \<in> set RdpSettings"
  "fld ''GatewayCredentialMethod'' KInt ''gatewayprofileusagemethod'' ''0'' \<in> set RdpSettings"
  "fld ''GatewayUsageMethod'' KInt ''gatewayusagemethod'' ''0'' \<in> set RdpSettings"
  by (simp_all add: RdpSettings_def)

lemma policy_fields:
  "fld ''RedirectClipboard'' KBool ''redirectclipboard'' ''true'' \<in> set RdpSettings"
  "fld ''RedirectPrinters'' KBool ''redirectprinters'' ''true'' \<in> set RdpSettings"
  "fld ''RedirectComPorts'' KBool ''redirectcomports'' ''false'' \<in> set RdpSettings"
  "fld ''DriveStoreRedirect'' KString ''drivestoredirect'' ''false'' \<in> set RdpSettings"
  "fld ''DeviceStoreRedirect'' KString ''devicestoredirect'' ''false'' \<in> set RdpSettings"
  "fld ''UsbDeviceStoRedirect'' KString ''usbdevicestoredirect'' [] \<in> set RdpSettings"
  by (simp_all add: RdpSettings_def)

lemma typed_policy: "\<forall>nv \<in> set (policy_settings p). typed nv"
  by (simp add: policy_settings_def kind_of_def policy_fields [THEN typed_field])

lemma typed_gateway: "\<forall>nv \<in> set (gateway_settings_of host g token). typed nv"
  by (simp add: gateway_settings_of_def kind_of_def download_fields [THEN typed_field])

lemma typed_user: "typed (''Username'', FString s)" "typed (''Domain'', FString s)"
  by (simp_all add: kind_of_def download_fields [THEN typed_field])

lemma kinded_assign:
  assumes k: "kinded (Settings b)" and "typed nv" shows "kinded (Settings (assign b nv))"
proof -
  obtain g where g: "g \<in> set RdpSettings" "fName g = fst nv" "fKind g = kind_of (snd nv)"
    using assms(2) by (auto simp: typed_def)
  show ?thesis using kinded_put [OF k g(1), of "snd nv"] g(2,3) by (simp add: assign_def)
qed

lemma kinded_assigns: "kinded (Settings b) \<Longrightarrow> \<forall>nv \<in> set nvs. typed nv \<Longrightarrow> kinded (Settings (foldl assign b nvs))"
  by (induction nvs arbitrary: b) (simp_all add: kinded_assign)

lemma forced: "Settings (foldl forceRdpField b fs) = Settings b" "set (Unset (foldl forceRdpField b fs)) = set (Unset b) \<union> set fs"
  by (induction fs arbitrary: b) (auto simp: forceRdpField_def list_ex_iff)

lemma kinded_policy: "kinded (Settings b) \<Longrightarrow> kinded (Settings (applyRdpRedirectionPolicy p b))"
  by (simp add: applyRdpRedirectionPolicy_def forced kinded_assigns typed_policy)

lemma kinded_download: "kinded (Settings d) \<Longrightarrow> kinded (Settings (download_settings h host token r domain d))"
  by (simp add: download_settings_def Let_def kinded_policy kinded_assigns kinded_assign typed_gateway typed_user)

lemma kinded_entry: "kinded (Settings d) \<Longrightarrow> kinded (Settings (entry_settings h host token r domain d))"
  by (simp add: entry_settings_def Let_def kinded_policy kinded_assigns kinded_assign typed_gateway typed_user)

text \<open>
  What a loader of templates promises: it does not panic, and its builders are well-typed, as
  values of the structure are.
\<close>

definition load_typed :: "(string \<Rightarrow> Builder option go) \<Rightarrow> bool" where
  "load_typed load \<longleftrightarrow> (\<forall>p. \<exists>b. load p = Ret b \<and> (case b of None \<Rightarrow> True | Some b \<Rightarrow> kinded (Settings b)))"

lemma NewBuilderFromFile_typed:
  assumes "\<And>mp c c' u. kinded c \<Longrightarrow> decode mp c = Some (c', u) \<Longrightarrow> kinded c'"
  shows "load_typed (NewBuilderFromFile read decode)"
  unfolding load_typed_def
proof
  fix p
  obtain c where c: "initStruct RdpSettings zero_settings = Ret c" "kinded c" using initial_settings by blast
  then show "\<exists>b. NewBuilderFromFile read decode p = Ret b \<and> (case b of None \<Rightarrow> True | Some b \<Rightarrow> kinded (Settings b))"
    using assms [OF c(2)] by (auto simp: NewBuilderFromFile_def split: option.split sum.split prod.split)
qed

lemma default_builder_typed:
  assumes "load_typed load"
  shows "\<exists>b. default_builder load h = Ret b \<and> (case b of None \<Rightarrow> True | Some b \<Rightarrow> kinded (Settings b))"
proof (cases "rdpDefaults h = []")
  case True
  obtain b where b: "NewBuilder = Ret b" "kinded (Settings b)" using NewBuilder_kinded by blast
  have "default_builder load h = Ret (Some b)" unfolding default_builder_def b(1) using True by simp
  then show ?thesis using b(2) by simp
next
  case False
  then show ?thesis using assms by (simp add: default_builder_def load_typed_def)
qed

lemma serve_file_returns: "kinded (Settings b) \<Longrightarrow> serve_file h f b \<noteq> Panic"
  by (simp add: serve_file_def Builder_String_lines)

text \<open>
  Downloads do not crash: with well-typed templates, \<open>HandleDownload\<close> panics exactly when
  the request carries no identity, or when an authenticated user asks for a server-selected host
  and none is configured. \<open>NewHandler\<close> accepts that configuration when there is a dashboard
  store.
\<close>

theorem HandleDownload_panics_iff:
  assumes "load_typed load"
  shows "HandleDownload ul load rnd seed h r ident = Panic \<longleftrightarrow>
    (case ident of None \<Rightarrow> True | Some u \<Rightarrow> authenticated u \<and> rQuery r ''host'' = None \<and> hosts h = [])"
proof -
  have serve: "serve_file h f (download_settings h host token l dom d) \<noteq> Panic" if "kinded (Settings d)" for f host token l dom d
    by (rule serve_file_returns [OF kinded_download [OF that]])
  have tail: "go_bind (default_builder load h) (\<lambda>d. case d of None \<Rightarrow> Ret (Refused StatusInternalServerError)
      | Some d \<Rightarrow> serve_file h f (download_settings h host token l dom d)) \<noteq> Panic" for f host token l dom
    using default_builder_typed [OF assms, of h] serve by (auto split: option.splits)
  show ?thesis
    using tail by (auto simp: HandleDownload_def selectRandomHost_def Let_def split: option.splits prod.splits)
qed

subsection \<open>What a downloaded file says\<close>

definition says :: "rdp_map \<Rightarrow> string \<Rightarrow> string \<Rightarrow> bool" where
  "says es t s \<longleftrightarrow> (s \<noteq> [] \<longrightarrow> map_of es t = Some (RString s))"

definition yes_no :: "bool \<Rightarrow> rdp_value option" where
  "yes_no b = Some (RInt (if b then 1 else 0))"

text \<open>The file points at the gateway, for one host and with one token, \<open>5\<close> being \<open>SourceCookie\<close>.\<close>

definition points_to :: "Handler \<Rightarrow> string \<Rightarrow> string \<Rightarrow> rdp_map \<Rightarrow> bool" where
  "points_to h host token es \<longleftrightarrow>
     says es ''full address'' host \<and> says es ''gatewayhostname'' (gatewayHost h)
     \<and> says es ''gatewayaccesstoken'' token \<and> map_of es ''gatewaycredentialssource'' = Some (RInt 5)
     \<and> map_of es ''gatewayusagemethod'' = Some (RInt 1) \<and> map_of es ''gatewayprofileusagemethod'' = Some (RInt 1)"

text \<open>Every redirection is stated in the file as the policy has it, even where that is the default.\<close>

definition obeys :: "RdpRedirectionPolicy \<Rightarrow> rdp_map \<Rightarrow> bool" where
  "obeys p es \<longleftrightarrow>
     map_of es ''redirectclipboard'' = yes_no (rpClipboard p) \<and> map_of es ''redirectprinters'' = yes_no (rpPrinter p)
     \<and> map_of es ''redirectcomports'' = yes_no (rpPort p)
     \<and> map_of es ''drivestoredirect'' = Some (RString (redirectionString (rpDrive p)))
     \<and> map_of es ''devicestoredirect'' = Some (RString (redirectionString (rpDevice p)))
     \<and> map_of es ''usbdevicestoredirect'' = Some (RString (redirectionString (rpPnp p)))"

definition aimed :: "Handler \<Rightarrow> string \<Rightarrow> string \<Rightarrow> Builder \<Rightarrow> bool" where
  "aimed h host token b \<longleftrightarrow>
     kinded (Settings b) \<and> (\<forall>nv \<in> set (gateway_settings_of host (gatewayHost h) token). Settings b (fst nv) = snd nv)
     \<and> (\<forall>nv \<in> set (policy_settings (rdpRedirection h)). Settings b (fst nv) = snd nv \<and> fst nv \<in> set (Unset b))"

lemma foldl_assign: "Settings (foldl assign b nvs) = foldl (\<lambda>S nv. S(fst nv := snd nv)) (Settings b) nvs"
  by (induction nvs arbitrary: b) (simp_all add: assign_def)

lemma updates_last:
  "distinct (map fst nvs) \<Longrightarrow> foldl (\<lambda>S nv. S(fst nv := snd nv)) S nvs n
     = (case map_of nvs n of None \<Rightarrow> S n | Some v \<Rightarrow> v)"
proof (induction nvs arbitrary: S)
  case (Cons nv nvs)
  show ?case
  proof (cases "fst nv = n")
    case True
    then have "map_of nvs n = None" using Cons.prems by (auto simp: map_of_eq_None_iff)
    then show ?thesis using Cons True by (cases nv) simp
  next
    case False
    then show ?thesis using Cons by (cases nv) (simp split: option.split)
  qed
qed simp

lemma policy_distinct: "distinct (map fst (policy_settings p))" by (simp add: policy_settings_def)
lemma gateway_distinct: "distinct (map fst (gateway_settings_of host g token))" by (simp add: gateway_settings_of_def)

lemma policy_gateway: "nv \<in> set (gateway_settings_of host g token) \<Longrightarrow> map_of (policy_settings p) (fst nv) = None"
  by (auto simp: gateway_settings_of_def policy_settings_def)

lemma aimed_policy:
  assumes k: "kinded (Settings b)"
  shows "aimed h host token (applyRdpRedirectionPolicy (rdpRedirection h) (foldl assign b (gateway_settings_of host (gatewayHost h) token)))"
  unfolding aimed_def
proof (intro conjI ballI)
  let ?g = "gateway_settings_of host (gatewayHost h) token" and ?p = "policy_settings (rdpRedirection h)"
  let ?b = "applyRdpRedirectionPolicy (rdpRedirection h) (foldl assign b ?g)"
  show "kinded (Settings ?b)" using k by (intro kinded_policy kinded_assigns typed_gateway)
  have S: "Settings ?b n = (case map_of ?p n of None \<Rightarrow> (case map_of ?g n of None \<Rightarrow> Settings b n | Some v \<Rightarrow> v) | Some v \<Rightarrow> v)" for n
    by (simp add: applyRdpRedirectionPolicy_def forced foldl_assign updates_last policy_distinct gateway_distinct split: option.split)
  show "Settings ?b (fst nv) = snd nv" if "nv \<in> set ?g" for nv
  proof -
    have "map_of ?g (fst nv) = Some (snd nv)" using that by (intro map_of_is_SomeI gateway_distinct) simp
    then show ?thesis by (simp add: S policy_gateway [OF that])
  qed
  show "Settings ?b (fst nv) = snd nv" "fst nv \<in> set (Unset ?b)" if "nv \<in> set ?p" for nv
  proof -
    have "map_of ?p (fst nv) = Some (snd nv)" using that by (intro map_of_is_SomeI policy_distinct) simp
    then show "Settings ?b (fst nv) = snd nv" by (simp add: S)
    show "fst nv \<in> set (Unset ?b)" using that by (simp add: applyRdpRedirectionPolicy_def forced)
  qed
qed

lemma aimed_download: "kinded (Settings d) \<Longrightarrow> aimed h host token (download_settings h host token r domain d)"
  unfolding download_settings_def Let_def
  by (rule aimed_policy) (simp add: kinded_assign typed_user)

lemma aimed_entry: "kinded (Settings d) \<Longrightarrow> aimed h host token (entry_settings h host token r domain d)"
  unfolding entry_settings_def Let_def
  by (rule aimed_policy) (simp add: kinded_assign typed_user)

text \<open>The parser's view of an aimed file.\<close>

lemma shown_string: "fDefault f = [] \<Longrightarrow> Settings b (fName f) = FString s \<Longrightarrow> s \<noteq> [] \<Longrightarrow> shown b f"
  by (auto simp: shown_def isZero_def IsZero_def)

lemma shown_forced: "fName f \<in> set (Unset b) \<Longrightarrow> shown b f"
  by (simp add: shown_def isSet_def list_ex_iff)

lemma shown_int: "Settings b (fName f) = FInt n \<Longrightarrow> fDefault f = ''0'' \<Longrightarrow> n \<noteq> 0 \<Longrightarrow> shown b f"
  by (simp add: shown_def isZero_def Atoi_bits)

lemma aimed_file:
  assumes a: "aimed h host token b" and ok: "text_ok (Settings b)"
  shows "\<exists>content es. Builder_String b = Ret content \<and> rdp_Unmarshal content = Inr es
    \<and> points_to h host token es \<and> obeys (rdpRedirection h) es"
proof -
  have k: "kinded (Settings b)" using a by (simp add: aimed_def)
  obtain content es where c: "Builder_String b = Ret content" "rdp_Unmarshal content = Inr es"
    and es: "\<And>f. f \<in> set RdpSettings
      \<Longrightarrow> map_of es (fTag f) = (if shown b f then Some (normal (snd (entry_of (Settings b) f))) else None)"
    using built_file [OF k ok] by blast
  have str: "says es t s"
    if "fld n KString t [] \<in> set RdpSettings" "Settings b n = FString s" for n t s
    using es [OF that(1)] shown_string [of "fld n KString t []" b s] that(2)
    by (simp add: fld_def entry_of_def normal_def says_def)
  have int: "map_of es t = Some (RInt i)"
    if "fld n KInt t ''0'' \<in> set RdpSettings" "Settings b n = FInt i" "i \<noteq> 0" for n t i
    using es [OF that(1)] shown_int [of b "fld n KInt t ''0''" i] that(2,3)
    by (simp add: fld_def entry_of_def normal_def)
  have force: "map_of es t = Some (normal (snd (entry_of (Settings b) (fld n k t d))))"
    if "fld n k t d \<in> set RdpSettings" "n \<in> set (Unset b)" for n k t d
    using es [OF that(1)] shown_forced [of "fld n k t d" b] that(2) by (simp add: fld_def)
  have "points_to h host token es"
    using a unfolding points_to_def aimed_def gateway_settings_of_def
    by (simp add: download_fields(3,4,6) [THEN str] download_fields(5,7,8) [THEN int] SourceCookie_def)
  moreover have "obeys (rdpRedirection h) es"
    using a unfolding obeys_def aimed_def policy_settings_def yes_no_def
    by (simp add: policy_fields [THEN force] entry_of_def normal_def fld_def)
  ultimately show ?thesis using c by blast
qed

text \<open>
  What is delivered: the rendered file of a builder, signed when there is a signer, that points
  at the gateway for the host with the token and states the redirection policy, as far as its
  strings fit lines.
\<close>

definition delivers :: "Handler \<Rightarrow> string \<Rightarrow> string \<Rightarrow> string \<Rightarrow> bool" where
  "delivers h host token content \<longleftrightarrow>
     (\<exists>b file. Builder_String b = Ret file
        \<and> (case rdpSigner h of None \<Rightarrow> content = file | Some sign \<Rightarrow> sign file = Some content)
        \<and> (text_ok (Settings b) \<longrightarrow> (\<exists>es. rdp_Unmarshal file = Inr es \<and> points_to h host token es \<and> obeys (rdpRedirection h) es)))"

lemma serve_file_delivers:
  assumes "serve_file h f b = Ret (Served g content)" and a: "aimed h host token b"
  shows "delivers h host token content"
proof -
  obtain out where o: "Builder_String b = Ret out" using assms(1) by (auto simp: serve_file_def go_bind_eq_Ret)
  have "case rdpSigner h of None \<Rightarrow> content = out | Some sign \<Rightarrow> sign out = Some content"
    using assms(1) o by (auto simp: serve_file_def split: option.splits)
  then show ?thesis using o aimed_file [OF a] unfolding delivers_def by fastforce
qed

lemma credentials_token:
  "credentials h user host r = Some (token, r') \<Longrightarrow> \<exists>gen. paaTokenGenerator h = Some gen \<and> gen user host = Some token"
  by (auto simp: credentials_def split: option.splits if_splits)

lemma HandleDownload_effect:
  assumes run: "HandleDownload ul load rnd seed h r ident = Ret (Served f content)" and load: "load_typed load"
  shows "\<exists>u template rendered host gen token. ident = Some u \<and> authenticated u \<and> rQuery r ''host'' = None
    \<and> template \<in> set (hosts h) \<and> ResolvePreferredUsernameHost template (UserName u) = Some rendered
    \<and> resolveRDPAddress ul h rendered [] False = Some host
    \<and> paaTokenGenerator h = Some gen \<and> gen (fst (user_and_domain (rdpOpts h) (UserName u))) host = Some token
    \<and> delivers h host token content"
proof -
  obtain u template where u: "ident = Some u" "authenticated u" "rQuery r ''host'' = None"
      and t: "selectRandomHost rnd h = Ret template"
    using run by (auto simp: HandleDownload_def go_bind_eq_Ret split: option.splits if_splits)
  obtain rendered host where h: "ResolvePreferredUsernameHost template (UserName u) = Some rendered"
      "resolveRDPAddress ul h rendered [] False = Some host"
    using run u t by (auto simp: HandleDownload_def split: option.splits)
  obtain user domain where ud: "user_and_domain (rdpOpts h) (UserName u) = (user, domain)" by (rule prod.exhaust)
  obtain l token l' d b where l: "credentials h user host l = Some (token, l')"
      and d: "default_builder load h = Ret (Some d)"
      and s: "serve_file h (hex_encode b @ ''.rdp'') (download_settings h host token l' domain d) = Ret (Served f content)"
    using run u t h ud by (auto simp: HandleDownload_def go_bind_eq_Ret Let_def split: option.splits prod.splits)
  have "kinded (Settings d)" using default_builder_typed [OF load, of h] d by simp
  then have "delivers h host token content" by (rule serve_file_delivers [OF s aimed_download])
  moreover have "template \<in> set (hosts h)" using t by (auto simp: selectRandomHost_def split: if_splits)
  ultimately show ?thesis using u h credentials_token [OF l] ud by auto
qed

text \<open>
  Whom \<open>HandleDownload\<close> serves and with what: an authenticated user who did not name a host
  gets a file for a configured host, rendered for the user and resolved; the token in the file was
  generated for this user and exactly the address in the file; the file points at this gateway
  and states every redirection as the policy has it.
\<close>

theorem HandleDownload_sound:
  assumes run: "HandleDownload ul load rnd seed h r ident = Ret (Served f content)" and load: "load_typed load"
  shows "\<exists>u template rendered host gen token. ident = Some u \<and> authenticated u \<and> rQuery r ''host'' = None
    \<and> template \<in> set (hosts h) \<and> ResolvePreferredUsernameHost template (UserName u) = Some rendered
    \<and> resolveRDPAddress ul h rendered [] False = Some host
    \<and> paaTokenGenerator h = Some gen \<and> gen (fst (user_and_domain (rdpOpts h) (UserName u))) host = Some token
    \<and> delivers h host token content"
  using HandleDownload_effect [OF run load] .

lemma load_typedD: "load_typed load \<Longrightarrow> load p = Ret (Some b) \<Longrightarrow> kinded (Settings b)"
  unfolding load_typed_def by (drule spec [of _ p]) auto

lemma buildEntryBuilder_typed:
  assumes load: "load_typed load" and run: "buildEntryBuilder ul load h s u e = Ret (Some (b, host))"
  shows "kinded (Settings b)"
proof (cases "Type e = EntryTypeHost")
  case True
  then have "default_builder load h = Ret (Some b)"
    using run by (auto simp: buildEntryBuilder_def go_bind_eq_Ret split: option.splits)
  then show ?thesis using default_builder_typed [OF load, of h] by simp
next
  case False
  then have "load (ResolveUpload s (UploadedTemplatePath e)) = Ret (Some b)"
    using run by (auto simp: buildEntryBuilder_def go_bind_eq_Ret Let_def split: option.splits if_splits)
  then show ?thesis by (rule load_typedD [OF load])
qed

lemma serve_entry_delivers:
  assumes run: "serve_entry ul load h s u e = Ret (Served f content)" and load: "load_typed load"
  shows "Enabled e \<and> shares_group (AllowedGroups e) (Groups u)
    \<and> (\<exists>b host gen token. buildEntryBuilder ul load h s u e = Ret (Some (b, host)) \<and> paaTokenGenerator h = Some gen
        \<and> gen (fst (user_and_domain (rdpOpts h) (UserName u))) host = Some token \<and> delivers h host token content)"
proof -
  have v: "Enabled e \<and> shares_group (AllowedGroups e) (Groups u)"
    using run by (auto simp: serve_entry_def VisibleEntries_filter split: if_splits)
  obtain user domain where ud: "user_and_domain (rdpOpts h) (UserName u) = (user, domain)" by (rule prod.exhaust)
  obtain bh where bh: "buildEntryBuilder ul load h s u e = Ret bh"
    using run by (auto simp: serve_entry_def go_bind_eq_Ret split: if_splits)
  then obtain b host where bh': "bh = Some (b, host)"
    using run by (cases bh) (auto simp: serve_entry_def split: if_splits)
  obtain l token l' where l: "credentials h user host l = Some (token, l')"
      and s: "serveBuiltRDP ul h (ID e) (entry_settings h host token l' domain b) = Ret (Served f content)"
    using run ud bh bh' by (auto simp: serve_entry_def Let_def split: option.splits if_splits)
  have b: "buildEntryBuilder ul load h s u e = Ret (Some (b, host))" using bh bh' by simp
  have "delivers h host token content"
    using s by (auto simp: serveBuiltRDP_def Let_def intro!: serve_file_delivers aimed_entry buildEntryBuilder_typed [OF load b])
  then show ?thesis using v b credentials_token [OF l] ud by auto
qed

lemma HandleEntryDownload_effect:
  assumes run: "HandleEntryDownload Q C ul load h ident entryID d = (Ret (Served f content), d')"
    and load: "\<And>d. load_typed (load d)"
  shows "\<exists>u s es e host gen token. ident = Some u \<and> authenticated u \<and> dashboardStore h = Some s
    \<and> stored_entries C ul s d = Some es \<and> e \<in> set es \<and> ID e = entryID
    \<and> Enabled e \<and> shares_group (AllowedGroups e) (Groups u) \<and> nodes d' = nodes d
    \<and> paaTokenGenerator h = Some gen \<and> gen (fst (user_and_domain (rdpOpts h) (UserName u))) host = Some token
    \<and> delivers h host token content
    \<and> (Type e = EntryTypeHost \<longrightarrow> (\<exists>rendered. ResolvePreferredUsernameHost (Host e) (UserName u) = Some rendered
          \<and> resolveRDPAddress ul h rendered (TargetIPOverride e) (ForceTargetIPOverride e) = Some host))"
proof -
  obtain u s e where u: "ident = Some u" "authenticated u" "dashboardStore h = Some s"
      and g: "store_Get Q C ul s entryID d = (Inr e, d')" and e: "serve_entry ul (load d') h s u e = Ret (Served f content)"
    using run by (auto simp: HandleEntryDownload_def split: option.splits if_splits prod.splits sum.splits)
  obtain es where es: "readLocked Q C ul s d = (Inr es, d')" "get_entry entryID es = Some e"
    using g by (auto simp: store_Get_def io_defs split: sum.splits option.splits prod.splits)
  then have mem: "e \<in> set es" "ID e = entryID" by (auto simp: get_entry_def find_Some_iff)
  note disk = readLocked_exact(1) [OF es(1)] readLocked_exact(2) [OF es(1) refl]
  obtain b host gen token where b: "buildEntryBuilder ul (load d') h s u e = Ret (Some (b, host))"
      "paaTokenGenerator h = Some gen" "gen (fst (user_and_domain (rdpOpts h) (UserName u))) host = Some token"
      "delivers h host token content"
    and v: "Enabled e" "shares_group (AllowedGroups e) (Groups u)"
    using serve_entry_delivers [OF e load] by blast
  have "Type e = EntryTypeHost \<longrightarrow> (\<exists>rendered. ResolvePreferredUsernameHost (Host e) (UserName u) = Some rendered
      \<and> resolveRDPAddress ul h rendered (TargetIPOverride e) (ForceTargetIPOverride e) = Some host)"
    using b(1) by (auto simp: buildEntryBuilder_def go_bind_eq_Ret split: option.splits)
  then show ?thesis using u disk mem v b(2-4) by blast
qed


subsection \<open>Hosts and addresses\<close>

lemma selectRandomHost_listed: "selectRandomHost rnd h = Ret x \<Longrightarrow> x \<in> set (hosts h)"
  by (auto simp: selectRandomHost_def split: if_splits)

text \<open>Whatever the mode and the query, a chosen host is a configured one, and \<open>any\<close> chooses none.\<close>

lemma getHost_listed: "getHost rnd h r = Ret (Some x) \<Longrightarrow> x \<in> set (hosts h) \<and> hostSelection h \<noteq> ''any''"
  by (auto simp: getHost_def go_bind_eq_Ret list_ex_iff selectRandomHost_listed split: if_splits option.splits list.splits)

text \<open>
  Resolving an address never invents a target: the result is the address itself, or the
  address with its host replaced by an IP literal that the entry overrides it with or that the
  internal DNS server returned first for this host; the latter only for hosts of the internal
  domains.
\<close>

theorem resolveRDPAddress_target:
  assumes "resolveRDPAddress ul h address override force = Some target"
  shows "target = address \<or> (\<exists>host port hasPort. splitRDPAddress address = Some (host, port, hasPort) \<and> ParseIP host = None
    \<and> (ParseIP (TrimSpace override) \<noteq> None \<and> target = joinRDPAddress (TrimSpace override) port hasPort
       \<or> matchesInternalDomain ul host (internalDomains h)
         \<and> (\<exists>ip ips. internalDNSLookupIP h (normalizeDNSServerAddress (internalDNSServer h)) host = Some (ip # ips)
              \<and> target = joinRDPAddress (IP_String ip) port hasPort)))"
  using assms by (auto simp: resolveRDPAddress_def Let_def split: option.splits prod.splits list.splits if_splits)

subsection \<open>The defaults fit lines\<close>

definition default_clean :: "rdp_field \<Rightarrow> bool" where
  "default_clean f \<longleftrightarrow> is_ascii (fDefault f) \<and> length (fDefault f) < 100
     \<and> list_all (\<lambda>c. \<not> ascii_space c) (fDefault f)"

lemma defaults_clean: "list_all default_clean RdpSettings" by code_simp

lemma Atoi_range: "Atoi s = Some n \<Longrightarrow> - (2 ^ 63) \<le> n \<and> n < 2 ^ 63"
  by (auto simp: Atoi_def Let_def split: list.splits option.splits if_splits)

lemma solid_clean:
  assumes "is_ascii s" "list_all (\<lambda>c. \<not> ascii_space c) s"
  shows "TrimSpace s = s" "CHR 0x0A \<notin> set s"
  using assms by (auto simp: TrimSpace_ascii list_all_iff ascii_space_def)

lemma initStruct_text_ok:
  "set fs \<subseteq> set RdpSettings \<Longrightarrow> text_ok S \<Longrightarrow> initStruct fs S = Ret S' \<Longrightarrow> text_ok S'"
proof (induction fs arbitrary: S)
  case (Cons f fs)
  then have f: "f \<in> set RdpSettings" and fs: "set fs \<subseteq> set RdpSettings" by simp_all
  show ?case
  proof (cases "fDefault f = []")
    case True
    then show ?thesis using Cons.IH [OF fs Cons.prems(2)] Cons.prems(3) by simp
  next
    case False
    then obtain S1 where S1: "setVariable f (fDefault f) S = Some S1" "initStruct fs S1 = Ret S'"
      using Cons.prems(3) by (auto split: option.splits)
    have c: "default_clean f" using defaults_clean f by (simp only: list_all_iff)
    obtain v where v: "S1 = S(fName f := v)" "\<And>s. v = FString s \<Longrightarrow> s = fDefault f"
        "\<And>n. v = FInt n \<Longrightarrow> - (2 ^ 63) \<le> n \<and> n < 2 ^ 63"
      using S1(1) Atoi_range by (auto simp: setVariable_def split: field_kind.splits option.splits)
    have "text_ok S1"
      unfolding v(1)
    proof (rule text_ok_put [OF Cons.prems(2) _ _ f])
      show "value_ok (snd (entry_of (S(fName f := v)) f))"
        using v(2,3) c solid_clean [of "fDefault f"] by (cases v) (auto simp: entry_of_def value_ok_def default_clean_def)
      show "length s < 65000" if "v = FString s" for s using v(2) [OF that] c by (simp add: default_clean_def)
    qed
    then show ?thesis using Cons.IH [OF fs] S1(2) by blast
  qed
qed simp

lemma NewBuilder_text_ok: "NewBuilder = Ret b \<Longrightarrow> text_ok (Settings b)"
  using initStruct_text_ok [OF _ zero_text_ok, of RdpSettings] initial_settings
  by (auto simp: NewBuilder_def go_bind_eq_Ret)

definition line_string :: "string \<Rightarrow> bool" where
  "line_string s \<longleftrightarrow> TrimSpace s = s \<and> CHR 0x0A \<notin> set s \<and> length s < 65000"

lemma text_ok_assign:
  assumes "text_ok (Settings b)" "typed nv"
    and "case snd nv of FString s \<Rightarrow> line_string s | FInt n \<Rightarrow> - (2 ^ 63) \<le> n \<and> n < 2 ^ 63 | FBool t \<Rightarrow> True"
  shows "text_ok (Settings (assign b nv))"
proof -
  obtain g where g: "g \<in> set RdpSettings" "fName g = fst nv" using assms(2) by (auto simp: typed_def)
  have "text_ok ((Settings b)(fName g := snd nv))"
  proof (rule text_ok_put [OF assms(1) _ _ g(1)])
    show "value_ok (snd (entry_of ((Settings b)(fName g := snd nv)) g))"
      using assms(3) by (cases "snd nv") (simp_all add: entry_of_def value_ok_def line_string_def)
    show "length s < 65000" if "snd nv = FString s" for s using assms(3) that by (simp add: line_string_def)
  qed
  then show ?thesis by (simp add: g assign_def)
qed

lemma text_ok_assigns:
  "text_ok (Settings b) \<Longrightarrow> \<forall>nv \<in> set nvs. typed nv \<and> (case snd nv of FString s \<Rightarrow> line_string s
       | FInt n \<Rightarrow> - (2 ^ 63) \<le> n \<and> n < 2 ^ 63 | FBool t \<Rightarrow> True) \<Longrightarrow> text_ok (Settings (foldl assign b nvs))"
  by (induction nvs arbitrary: b) (simp_all add: text_ok_assign)

lemma line_redirection: "line_string (redirectionString t)"
  by (simp add: line_string_def redirectionString_def TrimSpace_ascii is_ascii_def ascii_space_def)

lemma text_ok_policy: "text_ok (Settings b) \<Longrightarrow> text_ok (Settings (applyRdpRedirectionPolicy p b))"
  unfolding applyRdpRedirectionPolicy_def forced
  by (rule text_ok_assigns) (use typed_policy [of p] line_redirection in \<open>auto simp: policy_settings_def\<close>)

lemma text_ok_gateway:
  "text_ok (Settings b) \<Longrightarrow> line_string host \<Longrightarrow> line_string g \<Longrightarrow> line_string token
     \<Longrightarrow> text_ok (Settings (foldl assign b (gateway_settings_of host g token)))"
  by (rule text_ok_assigns) (use typed_gateway [of host g token] in \<open>auto simp: gateway_settings_of_def SourceCookie_def\<close>)

text \<open>
  With the built-in defaults, a file of clean host, token, gateway, user and domain parses, so
  that what \<open>delivers\<close> says of the parsed file holds of it.
\<close>

lemma text_ok_download:
  assumes "NewBuilder = Ret d" "line_string host" "line_string (gatewayHost h)" "line_string token" "line_string r" "line_string domain"
  shows "text_ok (Settings (download_settings h host token r domain d))"
    and "text_ok (Settings (entry_settings h host token r domain d))"
proof -
  have e: "line_string []" by (simp add: line_string_def)
  have d: "text_ok (Settings d)" using NewBuilder_text_ok [OF assms(1)] .
  show "text_ok (Settings (download_settings h host token r domain d))"
    unfolding download_settings_def Let_def
    using assms d by (intro text_ok_policy text_ok_gateway) (simp_all add: text_ok_assign typed_user)
  show "text_ok (Settings (entry_settings h host token r domain d))"
    unfolding entry_settings_def Let_def
    using assms d e by (intro text_ok_policy text_ok_gateway) (simp_all add: text_ok_assign typed_user)
qed

subsection \<open>A gateway with one host\<close>

definition sample_handler :: Handler where
  "sample_handler =
     \<lparr>paaTokenGenerator = Some (\<lambda>user host. Some ''token''), enableUserToken = False, userTokenGenerator = None,
      queryInfo = (\<lambda>t i. None), queryTokenIssuer = [], dashboardStore = None, gatewayHost = ''gw'',
      hosts = [''pc1:3389''], hostSelection = ''roundrobin'',
      rdpOpts = \<lparr>UsernameTemplate = [], SplitUserDomain = False, NoUsername = False\<rparr>, rdpDefaults = [],
      rdpSigner = None,
      rdpRedirection = \<lparr>rpClipboard = True, rpDrive = False, rpPrinter = False, rpPort = False, rpDevice = False, rpPnp = False\<rparr>,
      internalDomains = [], internalDNSServer = [], internalDNSLookupIP = (\<lambda>s h. None)\<rparr>"

definition sample_get :: Request where
  "sample_get = \<lparr>rMethod = ''GET'', rHost = ''gw'', rRemoteAddr = ''10.0.0.1:1'', rHeader = (\<lambda>k. []), rQuery = (\<lambda>k. None)\<rparr>"

definition sample_bob :: User where
  "sample_bob = (SetUserName ''bob'' (NewUser ''s1''))\<lparr>authenticated := True\<rparr>"

definition no_templates :: "string \<Rightarrow> Builder option go" where "no_templates p = Ret None"

lemma no_templates_typed: "load_typed no_templates"
  by (simp add: load_typed_def no_templates_def)

lemma bob_name: "UserName sample_bob = ''bob''"
  by (simp add: sample_bob_def SetUserName_def UserName_def)

lemma pc1_address:
  "TrimSpace ''pc1:3389'' = ''pc1:3389''" "SplitHostPort ''pc1:3389'' = Some (''pc1'', ''3389'')" "Atoi ''3389'' = Some 3389"
  "TrimSpace ''pc1'' = ''pc1''" "ParseIP ''pc1'' = None" "line_string ''pc1:3389''" "line_string ''gw''" "line_string ''token''"
  "line_string ''bob''" "line_string []"
proof -
  show "SplitHostPort ''pc1:3389'' = Some (''pc1'', ''3389'')" "Atoi ''3389'' = Some 3389" "ParseIP ''pc1'' = None" by code_simp+
qed (simp_all add: line_string_def TrimSpace_ascii is_ascii_def ascii_space_def)

lemma pc1_resolved: "ResolvePreferredUsernameHost ''pc1:3389'' n = Some ''pc1:3389''"
  by (simp add: ResolvePreferredUsernameHost_def ValidateRenderedHost_def pc1_address)

lemma pc1_here:
  "internalDNSServer h = [] \<Longrightarrow> TrimSpace ov = [] \<Longrightarrow> resolveRDPAddress ul h ''pc1:3389'' ov False = Some ''pc1:3389''"
  by (simp add: resolveRDPAddress_def splitRDPAddress_def pc1_address TrimBrackets_def Let_def normalizeDNSServerAddress_def)

lemma sample_dns: "internalDNSServer sample_handler = []" by (simp add: sample_handler_def)

lemma serve_plain: "rdpSigner h = None \<Longrightarrow> kinded (Settings b) \<Longrightarrow> \<exists>content. serve_file h f b = Ret (Served f content)"
  by (simp add: serve_file_def Builder_String_lines)

lemma sample_download:
  assumes d: "NewBuilder = Ret d"
  shows "HandleDownload ul no_templates rnd (Some bytes) sample_handler sample_get (Some sample_bob)
     = serve_file sample_handler (hex_encode bytes @ ''.rdp'')
         (download_settings sample_handler ''pc1:3389'' ''token'' ''bob'' [] d)"
proof -
  have "selectRandomHost rnd sample_handler = Ret ''pc1:3389''" by (simp add: selectRandomHost_def sample_handler_def)
  moreover have "default_builder no_templates sample_handler = Ret (Some d)"
    unfolding default_builder_def d by (simp add: sample_handler_def)
  moreover have "user_and_domain (rdpOpts sample_handler) ''bob'' = (''bob'', [])"
      "render_username (rdpOpts sample_handler) ''bob'' = Some ''bob''"
      "credentials sample_handler ''bob'' ''pc1:3389'' ''bob'' = Some (''token'', ''bob'')"
    by (simp_all add: sample_handler_def user_and_domain_def render_username_def credentials_def)
  moreover have "authenticated sample_bob" "rQuery sample_get ''host'' = None"
    by (simp_all add: sample_bob_def sample_get_def)
  ultimately show ?thesis by (simp add: HandleDownload_def bob_name pc1_resolved pc1_here sample_dns Let_def)
qed

lemma HandleDownload_sound_witness:
  "\<exists>f content. HandleDownload id no_templates (\<lambda>n. 0) (Some ''x'') sample_handler sample_get (Some sample_bob) = Ret (Served f content)
     \<and> delivers sample_handler ''pc1:3389'' ''token'' content \<and> line_string ''token''"
proof -
  obtain d where d: "NewBuilder = Ret d" "kinded (Settings d)" using NewBuilder_kinded by blast
  obtain content where run: "HandleDownload id no_templates (\<lambda>n. 0) (Some ''x'') sample_handler sample_get (Some sample_bob)
      = Ret (Served (hex_encode ''x'' @ ''.rdp'') content)"
    unfolding sample_download [OF d(1)]
    by (simp add: serve_file_def Builder_String_lines [OF kinded_download [OF d(2)]]) (simp add: sample_handler_def)
  from HandleDownload_sound [OF run no_templates_typed] obtain template rendered host token where
    "template \<in> set (hosts sample_handler)" "ResolvePreferredUsernameHost template (UserName sample_bob) = Some rendered"
    "resolveRDPAddress id sample_handler rendered [] False = Some host" "delivers sample_handler host token content"
    "\<exists>gen. paaTokenGenerator sample_handler = Some gen \<and> gen (fst (user_and_domain (rdpOpts sample_handler) (UserName sample_bob))) host = Some token"
    by auto
  then have "delivers sample_handler ''pc1:3389'' ''token'' content"
    using pc1_resolved pc1_here [OF sample_dns] by (auto simp: sample_handler_def)
  then show ?thesis using run pc1_address by blast
qed

lemma HandleDownload_panics_iff_witness:
  "HandleDownload id no_templates (\<lambda>n. 0) None (sample_handler\<lparr>hosts := []\<rparr>) sample_get (Some sample_bob) = Panic
   \<and> HandleDownload id no_templates (\<lambda>n. 0) None sample_handler sample_get (Some sample_bob) \<noteq> Panic"
  unfolding HandleDownload_panics_iff [OF no_templates_typed]
  by (simp add: sample_bob_def sample_get_def sample_handler_def)

lemma NewHandler_accepts_no_hosts:
  "NewHandler mk [] [] (sample_handler\<lparr>hosts := [], dashboardStore := Some s\<rparr>)
     = Ret (sample_handler\<lparr>hosts := [], dashboardStore := Some s, rdpSigner := None\<rparr>)"
  by (simp add: NewHandler_def)

lemma resolveRDPAddress_target_witness:
  "resolveRDPAddress id sample_handler ''pc1:3389'' ''10.0.0.5'' True = Some ''10.0.0.5:3389'' \<and> ParseIP (TrimSpace ''10.0.0.5'') \<noteq> None"
proof -
  have o: "TrimSpace ''10.0.0.5'' = ''10.0.0.5''" by (simp add: TrimSpace_ascii is_ascii_def ascii_space_def)
  have ip: "ParseIP ''10.0.0.5'' \<noteq> None" by code_simp
  have run: "resolveRDPAddress id sample_handler ''pc1:3389'' ''10.0.0.5'' True = Some ''10.0.0.5:3389''"
    using ip by (simp add: resolveRDPAddress_def splitRDPAddress_def pc1_address TrimBrackets_def o joinRDPAddress_def JoinHostPort_def Let_def)
  have "\<not> matchesInternalDomain id host (internalDomains sample_handler)" for host
    by (simp add: matchesInternalDomain_def sample_handler_def)
  then show ?thesis using resolveRDPAddress_target [OF run] run by auto
qed

definition staff_entry :: Entry where
  "staff_entry = \<lparr>ID = ''1'', Type = EntryTypeHost, Name = ''PC'', Description = [], Icon = ''window'',
     AllowedGroups = [''staff''], Enabled = True, Host = ''pc1:3389'', UploadedTemplatePath = [], TargetHostOverride = [],
     TargetIPOverride = [], ForceTargetIPOverride = False, CreatedAt = 0, UpdatedAt = 0\<rparr>"

definition staff_codec :: "Entry list codec" where
  "staff_codec = \<lparr>enc = (\<lambda>es. None), dec = (\<lambda>s. Some [staff_entry])\<rparr>"

definition staff_bob :: User where "staff_bob = SetGroups [''staff''] sample_bob"

definition staff_handler :: Handler where "staff_handler = sample_handler\<lparr>dashboardStore := Some demo_store\<rparr>"

lemma staff_get:
  assumes "lookup d (metadataPath s) = Some (File (c # cs))"
  shows "\<exists>d'. store_Get calm staff_codec id s ''1'' d = (Inr (normalized id staff_entry), d')"
  using assms
  by (simp add: store_Get_def readLocked_def io_defs os_ReadFile_def sys_def staff_codec_def
      get_entry_def normalized_def staff_entry_def Let_def)

lemma staff_group: "TrimSpace ''staff'' = ''staff''"
  by (simp add: TrimSpace_ascii is_ascii_def ascii_space_def)

lemma staff_visible: "length (VisibleEntries [normalized id staff_entry] (Groups staff_bob)) = 1"
  by (simp add: VisibleEntries_filter normalized_def staff_entry_def staff_bob_def Groups_SetGroups shares_group_def staff_group)

lemma staff_served:
  assumes h: "dashboardStore h = Some s" "rdpSigner h = None" "rdpDefaults h = []" "internalDNSServer h = []"
      "rdpOpts h = \<lparr>UsernameTemplate = [], SplitUserDomain = False, NoUsername = False\<rparr>"
    and token: "credentials h ''bob'' ''pc1:3389'' ''bob'' = Some (token, ''bob'')"
    and stored: "lookup d0 (metadataPath s) = Some (File (c # cs))"
  shows "\<exists>f content d'. HandleEntryDownload calm staff_codec id (\<lambda>d. no_templates) h (Some staff_bob) ''1'' d0 = (Ret (Served f content), d')"
proof -
  let ?e = "normalized id staff_entry"
  obtain d where d: "NewBuilder = Ret d" "kinded (Settings d)" using NewBuilder_kinded by blast
  have u: "UserName staff_bob = ''bob''" "authenticated staff_bob"
    using bob_name by (simp_all add: staff_bob_def SetGroups_def UserName_def sample_bob_def)
  have e: "Type ?e = EntryTypeHost" "Host ?e = ''pc1:3389''" "TargetIPOverride ?e = []" "ForceTargetIPOverride ?e = False" "ID ?e = ''1''"
    by (simp_all add: normalized_def staff_entry_def)
  have r: "resolveRDPAddress id h ''pc1:3389'' [] False = Some ''pc1:3389''"
    by (rule pc1_here) (simp_all add: h)
  have "default_builder no_templates h = Ret (Some d)"
    unfolding default_builder_def d(1) by (simp add: h)
  then have b: "buildEntryBuilder id no_templates h s staff_bob ?e = Ret (Some (d, ''pc1:3389''))"
    by (simp add: buildEntryBuilder_def e u pc1_resolved r)
  have opts: "user_and_domain (rdpOpts h) ''bob'' = (''bob'', [])" "render_username (rdpOpts h) ''bob'' = Some ''bob''"
    by (simp_all add: h user_and_domain_def render_username_def)
  obtain content where "serve_file h (''1'' @ ''.rdp'') (entry_settings h ''pc1:3389'' token ''bob'' [] d)
      = Ret (Served (''1'' @ ''.rdp'') content)"
    using serve_plain [OF h(2) kinded_entry [OF d(2)]] by blast
  moreover have "Base ''1'' = ''1''" "\<not> HasSuffix (ToLower id ''1'') ''.rdp''"
    by (simp_all add: Base_def last_element_def ToLower_def is_ascii_def ascii_lower_def HasSuffix_def suffix_def)
  ultimately have "\<exists>f content. serve_entry id no_templates h s staff_bob ?e = Ret (Served f content)"
    using staff_visible unfolding serve_entry_def serveBuiltRDP_def by (simp only: b opts token u e Let_def) (simp add: opts token)
  moreover obtain d' where "store_Get calm staff_codec id s ''1'' d0 = (Inr ?e, d')" using staff_get [OF stored] by blast
  ultimately show ?thesis by (simp add: HandleEntryDownload_def u h(1))
qed

lemma staff_demo:
  "\<exists>f content d'. HandleEntryDownload calm staff_codec id (\<lambda>d. no_templates) staff_handler (Some staff_bob) ''1'' demo_disk
     = (Ret (Served f content), d')"
  using demo_file
  by (intro staff_served [where s = demo_store and token = "''token''"])
    (simp_all add: staff_handler_def sample_handler_def credentials_def)


subsection \<open>From the file to the session\<close>

text \<open>\<open>security.GeneratePAAToken\<close> as the handler's generator, at the time and in the context of the request.\<close>

definition token_generator :: "jose \<Rightarrow> globals \<Rightarrow> instant \<Rightarrow> Ctx \<Rightarrow> string \<Rightarrow> string \<Rightarrow> string option" where
  "token_generator J G issued ctx user host =
     (case GeneratePAAToken J G issued ctx user host of Inl e \<Rightarrow> None | Inr tok \<Rightarrow> Some tok)"

text \<open>
  A downloaded file opens a session to its host: while the token in it is valid, and the
  identity provider still honours the login, the gateway accepts it, binds the tunnel to the
  host that the file names, and admits a channel to that host from the client that fetched the
  file. What sealing wrote is assumed to be read back under the same keys.
\<close>

theorem download_opens_session:
  assumes run: "HandleDownload ul load rnd seed h r (Some u) = Ret (Served f content)" and load: "load_typed load"
    and gen: "paaTokenGenerator h = Some (token_generator J G issued ctx)"
    and opens: "\<And>std c tk. SealCustom J (SigningKey G) (EncryptionKey G) std c = Some tk
                  \<Longrightarrow> tk \<noteq> [] \<and> cookie_claims J G tk = Some (std, c)"
    and valid: "Validate J \<lparr>Issuer = ''rdpgw'', Subject = fst (user_and_domain (rdpOpts h) (UserName u)),
        Expiry = issued + 5 * minute\<rparr> ''rdpgw'' now"
    and idp: "\<And>at. IdpUserInfo J at = Some sub"
  shows "\<exists>host token t'. delivers h host token content
     \<and> sec_CheckPAACookie J G now uuid (Some t) token = (True, Some t')
     \<and> TargetServer t' = host \<and> CheckSession G None ctx (Some t') host = Ret True"
proof -
  obtain host token where "token_generator J G issued ctx (fst (user_and_domain (rdpOpts h) (UserName u))) host = Some token"
      and d: "delivers h host token content"
    using HandleDownload_effect [OF run load] gen by auto
  then have tok: "GeneratePAAToken J G issued ctx (fst (user_and_domain (rdpOpts h) (UserName u))) host = Inr token"
    by (simp add: token_generator_def split: sum.splits)
  show ?thesis using PAAToken_accepted [OF tok opens valid idp] d by blast
qed

definition demo_downloader :: Handler where
  "demo_downloader = sample_handler\<lparr>paaTokenGenerator := Some (token_generator demo_jose demo_globals 0 demo_ctx)\<rparr>"

lemma download_opens_session_witness:
  "\<exists>f content host token t'. HandleDownload id no_templates (\<lambda>n. 0) (Some ''x'') demo_downloader sample_get (Some sample_bob)
       = Ret (Served f content) \<and> delivers demo_downloader host token content
     \<and> sec_CheckPAACookie demo_jose demo_globals 0 ''u'' (Some demo_tunnel) token = (True, Some t') \<and> TargetServer t' = host"
proof -
  obtain d where d: "NewBuilder = Ret d" "kinded (Settings d)" using NewBuilder_kinded by blast
  have "credentials demo_downloader ''bob'' ''pc1:3389'' ''bob'' = Some (''Tpc1:3389'', ''bob'')"
    using demo_generates by (simp add: credentials_def demo_downloader_def sample_handler_def token_generator_def)
  moreover have "selectRandomHost (\<lambda>n. 0) demo_downloader = Ret ''pc1:3389''"
    by (simp add: selectRandomHost_def demo_downloader_def sample_handler_def)
  moreover have "default_builder no_templates demo_downloader = Ret (Some d)"
    unfolding default_builder_def d(1) by (simp add: demo_downloader_def sample_handler_def)
  moreover have opts: "user_and_domain (rdpOpts demo_downloader) ''bob'' = (''bob'', [])"
      "render_username (rdpOpts demo_downloader) ''bob'' = Some ''bob''" "internalDNSServer demo_downloader = []"
    by (simp_all add: demo_downloader_def sample_handler_def user_and_domain_def render_username_def)
  moreover have "authenticated sample_bob" "rQuery sample_get ''host'' = None"
    by (simp_all add: sample_bob_def sample_get_def)
  ultimately have "HandleDownload id no_templates (\<lambda>n. 0) (Some ''x'') demo_downloader sample_get (Some sample_bob)
     = serve_file demo_downloader (hex_encode ''x'' @ ''.rdp'')
         (download_settings demo_downloader ''pc1:3389'' ''Tpc1:3389'' ''bob'' [] d)"
    by (simp add: HandleDownload_def bob_name pc1_resolved pc1_here Let_def)
  moreover have "rdpSigner demo_downloader = None" by (simp add: demo_downloader_def sample_handler_def)
  ultimately obtain content where run: "HandleDownload id no_templates (\<lambda>n. 0) (Some ''x'') demo_downloader sample_get (Some sample_bob)
      = Ret (Served (hex_encode ''x'' @ ''.rdp'') content)"
    using serve_plain [OF _ kinded_download [OF d(2)]] by metis
  have gen: "paaTokenGenerator demo_downloader = Some (token_generator demo_jose demo_globals 0 demo_ctx)"
    by (simp add: demo_downloader_def)
  have valid: "Validate demo_jose \<lparr>Issuer = ''rdpgw'', Subject = fst (user_and_domain (rdpOpts demo_downloader) (UserName sample_bob)),
      Expiry = 0 + 5 * minute\<rparr> ''rdpgw'' 0" by (simp add: demo_jose_def minute_def)
  have idp: "IdpUserInfo demo_jose at = Some ''bob''" for at by (simp add: demo_jose_def)
  show ?thesis
    using download_opens_session [OF run no_templates_typed gen demo_opens valid idp, of "''u''" demo_tunnel] run by blast
qed

text \<open>
  C40: Settings keep their types: from the built-in defaults or a template that decodes to settings of
  the right kinds, both downloads make settings in which every field holds a value of its kind,
  and rendering them never meets a value it cannot write.
\<close>

theorem settings_keep_types:
  assumes "load_typed load" "default_builder load h = Ret (Some d)"
  shows "kinded (Settings (download_settings h host token r domain d))
    \<and> kinded (Settings (entry_settings h host token r domain d))
    \<and> Builder_String (download_settings h host token r domain d) \<noteq> Panic
    \<and> Builder_String (entry_settings h host token r domain d) \<noteq> Panic"
proof -
  have d: "kinded (Settings d)" using default_builder_typed [OF assms(1), of h] assms(2) by simp
  show ?thesis
    using Builder_String_lines [OF kinded_download [OF d]] Builder_String_lines [OF kinded_entry [OF d]]
      kinded_download [OF d] kinded_entry [OF d] by simp
qed

lemma settings_keep_types_witness:
  "\<exists>d. NewBuilder = Ret d \<and> kinded (Settings (download_settings sample_handler ''pc1:3389'' ''token'' ''bob'' [] d))
     \<and> Builder_String (entry_settings sample_handler ''pc1:3389'' ''token'' ''bob'' [] d) \<noteq> Panic"
proof -
  obtain d where d: "NewBuilder = Ret d" using NewBuilder_kinded by blast
  then have "default_builder no_templates sample_handler = Ret (Some d)"
    unfolding default_builder_def d by (simp add: sample_handler_def)
  then show ?thesis using settings_keep_types [OF no_templates_typed] d by blast
qed

end
