(* ===== verification/Dashboard_Users.thy ===== *)
theory Dashboard_Users
  imports Dashboard_Store
begin

text \<open>
  The authentication users of the dashboard (\<open>dashboard/auth_users.go\<close>): a JSON file of
  users, replaced atomically, and the configuration of the authentication helper that is
  written from it. The YAML encoder is a third-party package and a parameter.
\<close>

subsection \<open>Users\<close>

record AuthUser =
  auUsername :: string
  auPassword :: string
  auEnabled :: bool
  auCreatedAt :: instant
  auUpdatedAt :: instant

record helperUser =
  huUsername :: string
  huPassword :: string

definition validateAuthUser :: "AuthUser \<Rightarrow> store_error option" where
  "validateAuthUser u =
     (if auUsername u = [] then Some (Validation ''auth user username is required'')
      else if auPassword u = [] then Some (Validation ''auth user password is required'')
      else None)"

definition NewFileAuthUserStore :: "os \<Rightarrow> string \<Rightarrow> (store_error, string) io" where
  "NewFileAuthUserStore Q path =
     io_bind (io_check ''create auth user store directory'' id (os_MkdirAll Q (Dir_of path))) (\<lambda>_. io_return path)"

definition users_readLocked :: "os \<Rightarrow> AuthUser list codec \<Rightarrow> string \<Rightarrow> (store_error, AuthUser list) io" where
  "users_readLocked Q C path = readJSONFile Q C path []"

definition users_List :: "os \<Rightarrow> AuthUser list codec \<Rightarrow> string \<Rightarrow> (store_error, AuthUser list) io" where
  "users_List Q C path = users_readLocked Q C path"

definition get_user :: "string \<Rightarrow> AuthUser list \<Rightarrow> AuthUser option" where
  "get_user n users = find (\<lambda>u. auUsername u = n) users"

definition users_Get :: "os \<Rightarrow> AuthUser list codec \<Rightarrow> string \<Rightarrow> string \<Rightarrow> (store_error, AuthUser) io" where
  "users_Get Q C path n =
     io_bind (users_readLocked Q C path) (\<lambda>users.
       case get_user n users of Some u \<Rightarrow> io_return u | None \<Rightarrow> io_fail AuthUserNotFound)"

definition put_user :: "instant \<Rightarrow> AuthUser \<Rightarrow> AuthUser list \<Rightarrow> AuthUser list" where
  "put_user t u users =
     upsert auUsername (auUsername u) (\<lambda>old. u\<lparr>auCreatedAt := auCreatedAt old, auUpdatedAt := t\<rparr>)
       (u\<lparr>auCreatedAt := (if auCreatedAt u = 0 then t else auCreatedAt u), auUpdatedAt := t\<rparr>) users"

definition users_Put :: "os \<Rightarrow> AuthUser list codec \<Rightarrow> string \<Rightarrow> AuthUser \<Rightarrow> (store_error, unit) io" where
  "users_Put Q C path u =
     (case validateAuthUser u of
        Some err \<Rightarrow> io_fail err
      | None \<Rightarrow>
          io_bind (users_readLocked Q C path) (\<lambda>users d.
            writeJSONAtomic Q C path (put_user (os_clock Q (ticks d)) u users) d))"

definition users_Delete :: "os \<Rightarrow> AuthUser list codec \<Rightarrow> string \<Rightarrow> string \<Rightarrow> (store_error, unit) io" where
  "users_Delete Q C path n =
     io_bind (users_readLocked Q C path) (\<lambda>users.
       case get_user n users of
         None \<Rightarrow> io_return ()
       | Some u \<Rightarrow> writeJSONAtomic Q C path (cut_first auUsername n users))"

fun helper_users :: "AuthUser list \<Rightarrow> helperUser list" where
  "helper_users [] = []"
| "helper_users (u # us) =
     (if \<not> auEnabled u then helper_users us
      else \<lparr>huUsername = auUsername u, huPassword = auPassword u\<rparr> # helper_users us)"

definition WriteAuthHelperConfig ::
    "os \<Rightarrow> (helperUser list \<Rightarrow> string option) \<Rightarrow> string \<Rightarrow> AuthUser list \<Rightarrow> (store_error, unit) io" where
  "WriteAuthHelperConfig Q Y path users =
     io_bind (io_check ''ensure auth helper config directory'' id (os_MkdirAll Q (Dir_of path))) (\<lambda>_.
       case Y (helper_users users) of
         None \<Rightarrow> io_fail (Failed ''encode auth helper config'')
       | Some data \<Rightarrow> writeFileAtomic Q path data ''auth-helper-'' ''.tmp'')"

subsection \<open>The users form a keyed store\<close>

definition stored_user :: "instant \<Rightarrow> AuthUser \<Rightarrow> AuthUser list \<Rightarrow> AuthUser" where
  "stored_user t u users =
     u\<lparr>auCreatedAt := (case get_user (auUsername u) users of
                         Some old \<Rightarrow> auCreatedAt old
                       | None \<Rightarrow> if auCreatedAt u = 0 then t else auCreatedAt u),
       auUpdatedAt := t\<rparr>"

lemma upserted_user:
  "upserted auUsername (auUsername u) (\<lambda>old. u\<lparr>auCreatedAt := auCreatedAt old, auUpdatedAt := t\<rparr>)
     (u\<lparr>auCreatedAt := (if auCreatedAt u = 0 then t else auCreatedAt u), auUpdatedAt := t\<rparr>) us = stored_user t u us"
  by (simp add: upserted_def stored_user_def get_user_def split: option.splits)

interpretation users: keyed_store auUsername get_user "put_user t" "cut_first auUsername" "stored_user t"
  by unfold_locales
     (simp_all add: get_user_def put_user_def find_upsert keys_upsert keys_cut_first find_cut_first upserted_user,
      simp add: stored_user_def)

lemma helper_users_filter:
  "helper_users us = map (\<lambda>u. \<lparr>huUsername = auUsername u, huPassword = auPassword u\<rparr>) (filter auEnabled us)"
  by (induction us) auto

lemma readJSONFile_exact:
  assumes "readJSONFile Q C path [] d = (r, d')"
  shows "nodes d' = nodes d" "r = Inr v \<Longrightarrow> read_metadata C path d = Some v"
  using assms
  by (auto simp: readJSONFile_def read_metadata_def os_ReadFile_def sys_def lookup_def Let_def
           split: option.splits node.splits if_splits)

lemma writeJSONAtomic_read:
  assumes run: "writeJSONAtomic Q C path v d = (r, d')"
    and tmp: "locate (temp_of Q path ''json-'' ''.tmp'' (ticks d)) \<noteq> locate path" and C: "faithful C v"
  shows "read_metadata C path d' = (if r = Inr () then Some v else read_metadata C path d)"
proof (cases "enc C v")
  case None
  then show ?thesis using run by (auto simp: writeJSONAtomic_def io_fail_def)
next
  case (Some data)
  then have "writeFileAtomic Q path data ''json-'' ''.tmp'' d = (r, d')" using run by (simp add: writeJSONAtomic_def)
  from writeFileAtomic_effect [OF this tmp] show ?thesis
    using Some C tmp by (auto simp: read_metadata_def faithful_def)
qed

text \<open>\<open>Put\<close> and \<open>Delete\<close> on disk. The temporary names never hit the file itself.\<close>

definition users_ok :: "os \<Rightarrow> string \<Rightarrow> bool" where
  "users_ok Q path \<longleftrightarrow> (\<forall>t. locate (temp_of Q path ''json-'' ''.tmp'' t) \<noteq> locate path)"

lemma users_Put_list:
  assumes ok: "users_ok Q path" and us: "read_metadata C path d = Some us"
    and C: "\<forall>t. faithful C (put_user t u us)" and run: "users_Put Q C path u d = (r, d')"
  shows "if r = Inr () then validateAuthUser u = None \<and> (\<exists>t. read_metadata C path d' = Some (put_user t u us))
         else read_metadata C path d' = Some us"
proof (cases "validateAuthUser u")
  case (Some err)
  then show ?thesis using run us by (auto simp: users_Put_def io_fail_def)
next
  case None
  obtain y d2 where y: "readJSONFile Q C path [] d = (y, d2)" by (cases "readJSONFile Q C path [] d")
  have same: "read_metadata C path d2 = Some us"
    using us readJSONFile_exact(1) [OF y] by (simp add: read_metadata_def lookup_def)
  show ?thesis
  proof (cases y)
    case (Inl err)
    then show ?thesis using run y same None by (auto simp: users_Put_def users_readLocked_def io_bind_def)
  next
    case (Inr v)
    then have v: "v = us" using readJSONFile_exact(2) [OF y] us by auto
    let ?t = "os_clock Q (ticks d2)"
    have "writeJSONAtomic Q C path (put_user ?t u us) d2 = (r, d')"
      using run None y Inr v by (simp add: users_Put_def users_readLocked_def io_bind_def)
    from writeJSONAtomic_read [OF this] show ?thesis using ok C same None by (auto simp: users_ok_def)
  qed
qed

lemma users_Delete_list:
  assumes ok: "users_ok Q path" and us: "read_metadata C path d = Some us"
    and C: "faithful C (cut_first auUsername n us)" and run: "users_Delete Q C path n d = (r, d')"
  shows "read_metadata C path d' = Some (if r = Inr () then cut_first auUsername n us else us)"
proof -
  obtain y d2 where y: "readJSONFile Q C path [] d = (y, d2)" by (cases "readJSONFile Q C path [] d")
  have same: "read_metadata C path d2 = Some us"
    using us readJSONFile_exact(1) [OF y] by (simp add: read_metadata_def lookup_def)
  show ?thesis
  proof (cases y)
    case (Inl err)
    then show ?thesis using run y same by (auto simp: users_Delete_def users_readLocked_def io_bind_def)
  next
    case (Inr v)
    then have v: "v = us" using readJSONFile_exact(2) [OF y] us by auto
    show ?thesis
    proof (cases "get_user n us")
      case None
      then have "cut_first auUsername n us = us" by (induction us) (auto simp: get_user_def split: if_splits)
      then show ?thesis
        using run y Inr v None same by (auto simp: users_Delete_def users_readLocked_def io_bind_def io_return_def)
    next
      case (Some u)
      then have "writeJSONAtomic Q C path (cut_first auUsername n us) d2 = (r, d')"
        using run y Inr v by (simp add: users_Delete_def users_readLocked_def io_bind_def)
      from writeJSONAtomic_read [OF this] show ?thesis using ok C same by (auto simp: users_ok_def)
    qed
  qed
qed

lemma WriteAuthHelperConfig_exact:
  assumes run: "WriteAuthHelperConfig Q Y path us d = (r, d')"
    and tmp: "\<forall>t. locate (temp_of Q path ''auth-helper-'' ''.tmp'' t) \<noteq> locate path"
  shows "lookup d' path = (if r = Inr () then map_option File (Y (helper_users us)) else lookup d path)"
    "\<forall>t. locate q \<noteq> locate (temp_of Q path ''auth-helper-'' ''.tmp'' t) \<Longrightarrow> locate q \<noteq> locate path
       \<Longrightarrow> lookup d' q = lookup d q"
proof -
  obtain z d1 where z: "io_check ''ensure auth helper config directory'' id (os_MkdirAll Q (Dir_of path)) d = (z, d1)"
    by (cases "io_check ''ensure auth helper config directory'' id (os_MkdirAll Q (Dir_of path)) d")
  then have d1: "lookup d1 q = lookup d q" for q by (auto simp: io_defs Let_def split: if_splits)
  have "(r \<noteq> Inr () \<and> d' = d1) \<or> (\<exists>data. Y (helper_users us) = Some data
      \<and> writeFileAtomic Q path data ''auth-helper-'' ''.tmp'' d1 = (r, d'))"
    using run z by (auto simp: WriteAuthHelperConfig_def io_bind_def io_fail_def split: sum.splits option.splits)
  then have "lookup d' q = (if locate q = locate path \<and> r = Inr () then map_option File (Y (helper_users us)) else lookup d q)"
    if "\<forall>t. locate q \<noteq> locate (temp_of Q path ''auth-helper-'' ''.tmp'' t)" for q
    using writeFileAtomic_effect [of Q path _ "''auth-helper-''" "''.tmp''" d1 r d' q] tmp that d1 by auto
  then show "lookup d' path = (if r = Inr () then map_option File (Y (helper_users us)) else lookup d path)"
    "\<forall>t. locate q \<noteq> locate (temp_of Q path ''auth-helper-'' ''.tmp'' t) \<Longrightarrow> locate q \<noteq> locate path
       \<Longrightarrow> lookup d' q = lookup d q"
    using tmp by (metis, simp)
qed

end
