(* ===== verification/Dashboard_Icons.thy ===== *)
theory Dashboard_Icons
  imports Dashboard_Store
begin

text \<open>
  The uploaded icons of the dashboard (\<open>dashboard/icon_store.go\<close>): checking names and
  contents, and a store in which one icon is active. \<open>fmt\<close> is \<open>image.DecodeConfig\<close> with the
  PNG and JPEG decoders: the format it recognizes, or an error.
\<close>

subsection \<open>Names and contents\<close>

record Icon =
  icID :: string
  icFilename :: string
  icOriginalName :: string
  icContentType :: string
  icActive :: bool
  icCreatedAt :: instant
  icUpdatedAt :: instant

record FileIconStore =
  icMetadataPath :: string
  iconDir :: string
  MaxIcons :: int
  icMaxStorageBytes :: int

definition NewFileIconStore :: "os \<Rightarrow> string \<Rightarrow> string \<Rightarrow> (int \<times> int) option \<Rightarrow> (store_error, FileIconStore) io" where
  "NewFileIconStore Q storePath dir options =
     (let dir = (if TrimSpace dir = []
                 then (if TrimSpace storePath = [] then ''icons'' else Join [storePath, ''icons'']) else dir)
      in io_bind (io_check ''create icon metadata path'' id (os_MkdirAll Q storePath)) (\<lambda>_.
         io_bind (io_check ''create icon directory'' id (os_MkdirAll Q dir)) (\<lambda>_.
           let (maxIcons, maxBytes) = (case options of None \<Rightarrow> (0, 0) | Some q \<Rightarrow> q)
           in io_return \<lparr>icMetadataPath = Join [storePath, ''icons.json''], iconDir = dir,
                         MaxIcons = maxIcons, icMaxStorageBytes = maxBytes\<rparr>)))"

definition validateIconName :: "(string \<Rightarrow> string) \<Rightarrow> string \<Rightarrow> store_error + string \<times> string" where
  "validateIconName ul filename =
     (let ext = ToLower ul (Ext (TrimSpace filename))
      in if ext = ''.ico'' \<or> ext = ''.icon'' then Inr (ext, ''image/x-icon'')
         else if ext = ''.png'' then Inr (ext, ''image/png'')
         else if ext = ''.jpg'' \<or> ext = ''.jpeg'' then Inr (ext, ''image/jpeg'')
         else Inl (Validation ''icon must be .ico, .icon, .png, .jpg, or .jpeg''))"

definition byte_at :: "string \<Rightarrow> nat \<Rightarrow> nat" where
  "byte_at data i = of_char (data ! i)"

definition validateIconContent :: "(string \<Rightarrow> string option) \<Rightarrow> string \<Rightarrow> string \<Rightarrow> store_error option" where
  "validateIconContent fmt contentType data =
     (if contentType = ''image/png'' then
        (if fmt data = Some ''png'' then None else Some (Validation ''icon content must be a valid PNG image''))
      else if contentType = ''image/jpeg'' then
        (if fmt data = Some ''jpeg'' then None else Some (Validation ''icon content must be a valid JPEG image''))
      else if contentType = ''image/x-icon'' then
        (if length data < 6 \<or> byte_at data 0 \<noteq> 0 \<or> byte_at data 1 \<noteq> 0
            \<or> (byte_at data 2 \<noteq> 1 \<and> byte_at data 2 \<noteq> 2) \<or> byte_at data 3 \<noteq> 0 \<or> byte_at data 4 = 0
            \<or> byte_at data 5 \<noteq> 0
         then Some (Validation ''icon content must be a valid ICO header'') else None)
      else Some (Validation ''unsupported icon content type''))"

definition isSafeStoredIcon :: "(string \<Rightarrow> string) \<Rightarrow> Icon \<Rightarrow> bool" where
  "isSafeStoredIcon ul icon =
     (case validateIconName ul (icFilename icon) of
        Inl err \<Rightarrow> False
      | Inr (ext, contentType) \<Rightarrow> icContentType icon = contentType)"

fun filterSafeIcons :: "(string \<Rightarrow> string) \<Rightarrow> Icon list \<Rightarrow> Icon list" where
  "filterSafeIcons ul [] = []"
| "filterSafeIcons ul (i # is) = (if isSafeStoredIcon ul i then i # filterSafeIcons ul is else filterSafeIcons ul is)"

subsection \<open>The store\<close>

definition ResolveIcon :: "FileIconStore \<Rightarrow> string \<Rightarrow> string" where
  "ResolveIcon s filename = Join [iconDir s, Base filename]"

definition icons_readLocked ::
    "os \<Rightarrow> Icon list codec \<Rightarrow> (string \<Rightarrow> string) \<Rightarrow> FileIconStore \<Rightarrow> (store_error, Icon list) io" where
  "icons_readLocked Q C ul s d =
     (case os_ReadFile Q (icMetadataPath s) d of
        (Inl NotExist, d) \<Rightarrow> (Inr [], d)
      | (Inl IOFailed, d) \<Rightarrow> (Inl (Failed ''read icon metadata''), d)
      | (Inr data, d) \<Rightarrow>
          if data = [] then (Inr [], d)
          else (case dec C data of
                  None \<Rightarrow> (Inl (Failed ''decode icon metadata''), d)
                | Some icons \<Rightarrow> (Inr (filterSafeIcons ul icons), d)))"

definition icons_writeLocked :: "os \<Rightarrow> Icon list codec \<Rightarrow> FileIconStore \<Rightarrow> Icon list \<Rightarrow> (store_error, unit) io" where
  "icons_writeLocked Q C s icons = write_metadata Q C (icMetadataPath s) ''icons-'' icons"

definition ListIcons ::
    "os \<Rightarrow> Icon list codec \<Rightarrow> (string \<Rightarrow> string) \<Rightarrow> FileIconStore \<Rightarrow> (store_error, Icon list) io" where
  "ListIcons Q C ul s = icons_readLocked Q C ul s"

definition newIconID :: "os \<Rightarrow> (store_error, string) io" where
  "newIconID Q = io_bind (io_check ''generate icon id'' id (rand_Read Q)) (\<lambda>random. io_return (hex_encode random))"

definition make_icon :: "string \<Rightarrow> string \<Rightarrow> string \<Rightarrow> string \<Rightarrow> instant \<Rightarrow> Icon list \<Rightarrow> Icon" where
  "make_icon i filename originalName contentType t icons =
     \<lparr>icID = i, icFilename = filename, icOriginalName = Base (TrimSpace originalName), icContentType = contentType,
      icActive = (length icons = 0), icCreatedAt = t, icUpdatedAt = t\<rparr>"

definition SaveIcon ::
    "os \<Rightarrow> Icon list codec \<Rightarrow> (string \<Rightarrow> string) \<Rightarrow> (string \<Rightarrow> string option) \<Rightarrow> FileIconStore \<Rightarrow> string \<Rightarrow> string
      \<Rightarrow> (store_error, Icon) io" where
  "SaveIcon Q C ul fmt s originalName data =
     (case validateIconName ul originalName of
        Inl err \<Rightarrow> io_fail err
      | Inr (ext, contentType) \<Rightarrow>
          if length data = 0 then io_fail (Validation ''icon upload is empty'')
          else (case validateIconContent fmt contentType data of
            Some err \<Rightarrow> io_fail err
          | None \<Rightarrow>
              io_bind (icons_readLocked Q C ul s) (\<lambda>icons.
              io_bind (enforceFileQuota Q (iconDir s) (MaxIcons s) (icMaxStorageBytes s) (int (length data)) ''icon upload'') (\<lambda>_.
              io_bind (newIconID Q) (\<lambda>i.
                let filename = i @ ext; fullPath = Join [iconDir s, filename]
                in io_bind (io_check ''write icon file'' id (os_WriteFile Q fullPath data)) (\<lambda>_ d.
                     let icon = make_icon i filename originalName contentType (os_clock Q (ticks d)) icons
                     in (case icons_writeLocked Q C s (icons @ [icon]) d of
                           (Inl e, d) \<Rightarrow> (Inl e, io_ignore (os_Remove Q fullPath) d)
                         | (Inr _, d) \<Rightarrow> (Inr icon, d))))))))"

text \<open>The loop of \<open>SetActiveIcon\<close>, with what it found.\<close>

fun set_active :: "string \<Rightarrow> instant \<Rightarrow> Icon list \<Rightarrow> bool \<Rightarrow> Icon list \<times> bool" where
  "set_active i t [] found = ([], found)"
| "set_active i t (x # xs) found =
     (let active = (icID x = i);
          x' = (if icActive x \<noteq> active then x\<lparr>icActive := active, icUpdatedAt := t\<rparr> else x);
          (xs', found') = set_active i t xs (found \<or> active)
      in (x' # xs', found'))"

definition SetActiveIcon ::
    "os \<Rightarrow> Icon list codec \<Rightarrow> (string \<Rightarrow> string) \<Rightarrow> FileIconStore \<Rightarrow> string \<Rightarrow> (store_error, unit) io" where
  "SetActiveIcon Q C ul s i0 =
     (let i = TrimSpace i0 in
      if i = [] then io_fail (Validation ''icon id is required'')
      else io_bind (icons_readLocked Q C ul s) (\<lambda>icons d.
             let (icons, found) = set_active i (os_clock Q (ticks d)) icons False
             in if \<not> found then io_fail IconNotFound d else icons_writeLocked Q C s icons d))"

definition cut_icon :: "string \<Rightarrow> instant \<Rightarrow> Icon \<Rightarrow> Icon list \<Rightarrow> Icon list" where
  "cut_icon i t deleted icons =
     (let icons = cut_first icID i icons
      in if icActive deleted \<and> length icons > 0
         then (hd icons)\<lparr>icActive := True, icUpdatedAt := t\<rparr> # tl icons else icons)"

definition get_icon :: "string \<Rightarrow> Icon list \<Rightarrow> Icon option" where
  "get_icon i icons = find (\<lambda>x. icID x = i) icons"

definition DeleteIcon ::
    "os \<Rightarrow> Icon list codec \<Rightarrow> (string \<Rightarrow> string) \<Rightarrow> FileIconStore \<Rightarrow> string \<Rightarrow> (store_error, unit) io" where
  "DeleteIcon Q C ul s i0 =
     (let i = TrimSpace i0 in
      if i = [] then io_fail (Validation ''icon id is required'')
      else io_bind (icons_readLocked Q C ul s) (\<lambda>icons d.
             case get_icon i icons of
               None \<Rightarrow> io_fail IconNotFound d
             | Some deleted \<Rightarrow>
                 io_bind (icons_writeLocked Q C s (cut_icon i (os_clock Q (ticks d)) deleted icons))
                   (\<lambda>_ d. (Inr (), io_ignore (removeUploadFile Q (ResolveIcon s (icFilename deleted))) d)) d))"

definition ActiveIcon ::
    "os \<Rightarrow> Icon list codec \<Rightarrow> (string \<Rightarrow> string) \<Rightarrow> FileIconStore \<Rightarrow> (store_error, Icon) io" where
  "ActiveIcon Q C ul s =
     io_bind (icons_readLocked Q C ul s) (\<lambda>icons.
       case find icActive icons of Some icon \<Rightarrow> io_return icon | None \<Rightarrow> io_fail IconNotFound)"

subsection \<open>One active icon\<close>

definition icons_inv :: "(string \<Rightarrow> string) \<Rightarrow> Icon list \<Rightarrow> bool" where
  "icons_inv ul is \<longleftrightarrow>
     distinct (map icID is) \<and> list_all (isSafeStoredIcon ul) is
     \<and> length (filter icActive is) = (if is = [] then 0 else 1)"

lemma filterSafeIcons_all: "list_all (isSafeStoredIcon ul) is \<Longrightarrow> filterSafeIcons ul is = is"
  by (induction "is") auto

lemma filterSafeIcons_safe: "list_all (isSafeStoredIcon ul) (filterSafeIcons ul is)"
  by (induction "is") auto

lemma set_active_eqs:
  "snd (set_active i t is b) = (b \<or> i \<in> icID ` set is)"
  "map icID (fst (set_active i t is b)) = map icID is"
  "map icActive (fst (set_active i t is b)) = map (\<lambda>x. icID x = i) is"
  "map icFilename (fst (set_active i t is b)) = map icFilename is"
  "map icContentType (fst (set_active i t is b)) = map icContentType is"
  by (induction "is" arbitrary: b) (auto simp: Let_def case_prod_unfold)

lemma set_active_facts:
  assumes "set_active i t is b = (js, found)"
  shows "map icID js = map icID is" "found = (b \<or> i \<in> icID ` set is)"
    "map icActive js = map (\<lambda>x. icID x = i) is"
    "map icFilename js = map icFilename is" "map icContentType js = map icContentType is"
  using set_active_eqs [of i t "is" b] assms by simp_all

lemma isSafeStoredIcon_fields:
  "icFilename a = icFilename b \<Longrightarrow> icContentType a = icContentType b \<Longrightarrow> isSafeStoredIcon ul a = isSafeStoredIcon ul b"
  by (simp add: isSafeStoredIcon_def split: sum.split)

lemma safe_fields:
  "map icFilename js = map icFilename is \<Longrightarrow> map icContentType js = map icContentType is
     \<Longrightarrow> list_all (isSafeStoredIcon ul) js = list_all (isSafeStoredIcon ul) is"
proof (induction js arbitrary: "is")
  case (Cons j js)
  obtain i is' where i: "is = i # is'" using Cons.prems(1) by (cases "is") auto
  have "isSafeStoredIcon ul j = isSafeStoredIcon ul i"
    using Cons.prems i by (intro isSafeStoredIcon_fields) simp_all
  moreover have "list_all (isSafeStoredIcon ul) js = list_all (isSafeStoredIcon ul) is'"
    using Cons i by simp
  ultimately show ?case using i by simp
qed simp

lemma count_active: "length (filter icActive js) = length (filter id (map icActive js))"
  by (simp add: filter_map comp_def)

lemma count_id: "distinct (map icID is) \<Longrightarrow> length (filter (\<lambda>x. icID x = i) is) = (if i \<in> icID ` set is then 1 else 0)"
  by (induction "is") (auto simp: filter_empty_conv)

lemma set_active_inv: "icons_inv ul is \<Longrightarrow> set_active i t is False = (js, True) \<Longrightarrow> icons_inv ul js"
proof -
  assume inv: "icons_inv ul is" and run: "set_active i t is False = (js, True)"
  note f = set_active_facts [OF run]
  have "length (filter icActive js) = length (filter (\<lambda>x. icID x = i) is)"
    by (simp add: count_active f(3) filter_map comp_def)
  also have "\<dots> = 1" using inv f(2) count_id [of "is" i] by (auto simp: icons_inv_def)
  finally have "length (filter icActive js) = 1" .
  moreover have "js \<noteq> []" using calculation by auto
  ultimately show ?thesis using inv f(1) safe_fields [OF f(4,5), of ul] by (simp add: icons_inv_def)
qed

lemma add_icon_inv:
  "icons_inv ul is \<Longrightarrow> i \<notin> icID ` set is \<Longrightarrow> isSafeStoredIcon ul (make_icon i fn orig ct t is)
     \<Longrightarrow> icons_inv ul (is @ [make_icon i fn orig ct t is])"
  by (auto simp: icons_inv_def make_icon_def)

lemma cut_first_active:
  "get_icon i is = Some x \<Longrightarrow>
     length (filter icActive (cut_first icID i is)) + of_bool (icActive x) = length (filter icActive is)"
  by (induction "is") (auto simp: get_icon_def split: if_splits)

lemma cut_icon_inv: "icons_inv ul is \<Longrightarrow> get_icon i is = Some x \<Longrightarrow> icons_inv ul (cut_icon i t x is)"
proof -
  assume inv: "icons_inv ul is" and x: "get_icon i is = Some x"
  let ?c = "cut_first icID i is"
  have "is \<noteq> []" using x by (auto simp: get_icon_def)
  then have one: "length (filter icActive ?c) + of_bool (icActive x) = 1"
    using cut_first_active [OF x] inv by (simp add: icons_inv_def)
  have d: "distinct (map icID ?c)" "list_all (isSafeStoredIcon ul) ?c"
    using inv set_cut_first [of icID i "is"] by (auto simp: icons_inv_def keys_cut_first list_all_iff)
  show ?thesis
  proof (cases "icActive x \<and> ?c \<noteq> []")
    case True
    then obtain y ys where c: "?c = y # ys" by (cases ?c) auto
    then have "filter icActive ys = []" "\<not> icActive y" using one True by (auto split: if_splits)
    moreover have "isSafeStoredIcon ul (y\<lparr>icActive := True, icUpdatedAt := t\<rparr>) = isSafeStoredIcon ul y"
      by (rule isSafeStoredIcon_fields) simp_all
    ultimately show ?thesis using True c d by (simp add: cut_icon_def icons_inv_def Let_def)
  next
    case False
    then show ?thesis using one d by (auto simp: cut_icon_def icons_inv_def Let_def split: if_splits)
  qed
qed

subsection \<open>New icons are safe\<close>

lemma hex_digit_code: "k < 16 \<Longrightarrow> (of_char (hex_digit k) :: nat) = (if k < 10 then 48 + k else 87 + k)"
  by (simp add: hex_digit_def digit_def)

lemma hex_encode_codes: "c \<in> set (hex_encode r) \<Longrightarrow> 48 \<le> (of_char c :: nat) \<and> (of_char c :: nat) < 103"
proof -
  assume "c \<in> set (hex_encode r)"
  then obtain k where k: "c = hex_digit k" "k < 16"
    using nat_of_char_less_256 by (auto simp: hex_encode_def less_mult_imp_div_less)
  then show ?thesis by (simp add: hex_digit_code)
qed

lemma icon_name_trimmed:
  assumes "e \<in> {''ico'', ''icon'', ''png'', ''jpg'', ''jpeg''}"
  shows "TrimSpace (hex_encode r @ CHR ''.'' # e) = hex_encode r @ CHR ''.'' # e"
proof -
  have e: "is_ascii e" "\<not> ascii_space (last e)" "e \<noteq> []"
    using assms by (auto simp: is_ascii_def ascii_space_def)
  have "is_ascii (hex_encode r)" unfolding is_ascii_def using hex_encode_codes by fastforce
  then have "is_ascii (hex_encode r @ CHR ''.'' # e)" using e(1) by (auto simp: is_ascii_def)
  moreover have "\<not> ascii_space (hd (hex_encode r @ CHR ''.'' # e))"
  proof (cases "hex_encode r")
    case (Cons c cs)
    then show ?thesis using hex_encode_codes [of c r] by (auto simp: ascii_space_def)
  qed (simp add: ascii_space_def)
  ultimately show ?thesis using e by (simp add: TrimSpace_ascii)
qed

lemma icon_name_ext:
  assumes "e \<in> {''ico'', ''icon'', ''png'', ''jpg'', ''jpeg''}"
  shows "Ext (hex_encode r @ CHR ''.'' # e) = CHR ''.'' # e"
proof -
  let ?n = "hex_encode r @ CHR ''.'' # e"
  have e: "CHR ''/'' \<notin> set e" "CHR ''.'' \<notin> set e" using assms by auto
  have "CHR ''/'' \<notin> set (hex_encode r)" using hex_encode_codes [of "CHR ''/''" r] by auto
  then have "\<forall>c \<in> set (rev ?n). c \<noteq> CHR ''/''" using e by auto
  then have "last_element ?n = ?n" by (simp only: last_element_def takeWhile_eq_all_conv [THEN iffD2] rev_rev_ident)
  moreover have "takeWhile (\<lambda>c. c \<noteq> CHR ''.'') (rev e @ CHR ''.'' # rev (hex_encode r)) = rev e"
    using e(2) by (subst takeWhile_append2) auto
  ultimately show ?thesis by (simp add: Ext_def Let_def)
qed

lemma new_icon_name:
  assumes "validateIconName ul name = Inr (ext, ct)"
  shows "validateIconName ul (hex_encode r @ ext) = Inr (ext, ct)"
proof -
  have ext: "ext \<in> {''.ico'', ''.icon'', ''.png'', ''.jpg'', ''.jpeg''}"
    using assms by (auto simp: validateIconName_def Let_def split: if_splits)
  then obtain e where e: "ext = CHR ''.'' # e" "e \<in> {''ico'', ''icon'', ''png'', ''jpg'', ''jpeg''}" by auto
  have "ToLower ul ext = ext" using ext by (auto simp: ToLower_def is_ascii_def ascii_lower_def)
  then have "ToLower ul (Ext (TrimSpace (hex_encode r @ ext))) = ext"
    using e by (simp only: icon_name_trimmed icon_name_ext)
  moreover have "ToLower ul (Ext (TrimSpace name)) = ext"
    using assms by (auto simp: validateIconName_def Let_def split: if_splits)
  ultimately show ?thesis using assms by (simp add: validateIconName_def)
qed

lemma plain_icon: "validateIconName ul name = Inr (ext, ct) \<Longrightarrow> plain (hex_encode r @ ext)"
proof -
  assume "validateIconName ul name = Inr (ext, ct)"
  then have ext: "ext \<in> {''.ico'', ''.icon'', ''.png'', ''.jpg'', ''.jpeg''}"
    by (auto simp: validateIconName_def Let_def split: if_splits)
  have "CHR ''/'' \<notin> set (hex_encode r)" using hex_encode_codes [of "CHR ''/''" r] by auto
  moreover have "CHR ''/'' \<notin> set ext" "length ext > 2" using ext by auto
  ultimately show ?thesis by (auto simp: plain_def dest: arg_cong [where f = length])
qed

lemma new_icon_safe:
  "validateIconName ul name = Inr (ext, ct) \<Longrightarrow> isSafeStoredIcon ul (make_icon i (hex_encode r @ ext) orig ct t is)"
  using new_icon_name [of ul name ext ct r] by (simp add: isSafeStoredIcon_def make_icon_def)

subsection \<open>The icons on disk\<close>

definition stored_icons :: "Icon list codec \<Rightarrow> (string \<Rightarrow> string) \<Rightarrow> FileIconStore \<Rightarrow> disk \<Rightarrow> Icon list option" where
  "stored_icons C ul s d = map_option (filterSafeIcons ul) (read_metadata C (icMetadataPath s) d)"

definition icons_ok :: "os \<Rightarrow> FileIconStore \<Rightarrow> bool" where
  "icons_ok Q s \<longleftrightarrow>
     (\<forall>t. locate (temp_of Q (icMetadataPath s) ''icons-'' ''.tmp'' t) \<noteq> locate (icMetadataPath s))
     \<and> (\<forall>p. locate (ResolveIcon s p) \<noteq> locate (icMetadataPath s))"

lemma icons_readLocked_exact:
  assumes "icons_readLocked Q C ul s d = (r, d')"
  shows "nodes d' = nodes d" "r = Inr is \<Longrightarrow> stored_icons C ul s d = Some is"
  using assms
  by (auto simp: icons_readLocked_def stored_icons_def read_metadata_def os_ReadFile_def sys_def lookup_def Let_def
           split: option.splits node.splits if_splits)

lemma stored_icons_lookup:
  "lookup d' (icMetadataPath s) = lookup d (icMetadataPath s) \<Longrightarrow> stored_icons C ul s d' = stored_icons C ul s d"
  by (simp add: stored_icons_def read_metadata_def)

lemma icons_writeLocked_exact:
  assumes ok: "icons_ok Q s" and C: "faithful C js" and safe: "list_all (isSafeStoredIcon ul) js"
    and run: "icons_writeLocked Q C s js d = (r, d')"
  shows "stored_icons C ul s d' = (if r = Inr () then Some js else stored_icons C ul s d)"
proof -
  have tmp: "locate (temp_of Q (icMetadataPath s) ''icons-'' ''.tmp'' (ticks d)) \<noteq> locate (icMetadataPath s)"
    using ok by (simp add: icons_ok_def)
  have w: "write_metadata Q C (icMetadataPath s) ''icons-'' js d = (r, d')" using run by (simp add: icons_writeLocked_def)
  show ?thesis
  proof (cases r)
    case (Inl e)
    have "read_metadata C (icMetadataPath s) d' = read_metadata C (icMetadataPath s) d"
      using w Inl tmp by (intro write_metadata_failed) simp_all
    then show ?thesis using Inl by (simp add: stored_icons_def)
  next
    case (Inr u)
    have "read_metadata C (icMetadataPath s) d' = Some js"
      using w Inr tmp C by (intro write_metadata_read) simp_all
    then show ?thesis using Inr safe by (simp add: stored_icons_def filterSafeIcons_all)
  qed
qed

datatype icon_op = OpSave string string | OpActivate string | OpRemove string

fun icons_run ::
    "os \<Rightarrow> Icon list codec \<Rightarrow> (string \<Rightarrow> string) \<Rightarrow> (string \<Rightarrow> string option) \<Rightarrow> FileIconStore \<Rightarrow> icon_op
      \<Rightarrow> (store_error, unit) io" where
  "icons_run Q C ul fmt s (OpSave name data) = io_bind (SaveIcon Q C ul fmt s name data) (\<lambda>_. io_return ())"
| "icons_run Q C ul fmt s (OpActivate i) = SetActiveIcon Q C ul s i"
| "icons_run Q C ul fmt s (OpRemove i) = DeleteIcon Q C ul s i"

text \<open>The lists an operation may leave behind, for any clock and any random identifier.\<close>

fun icon_results :: "(string \<Rightarrow> string) \<Rightarrow> icon_op \<Rightarrow> Icon list \<Rightarrow> Icon list set" where
  "icon_results ul (OpSave name data) is =
     {js. \<exists>ext ct r t. validateIconName ul name = Inr (ext, ct)
            \<and> js = is @ [make_icon (hex_encode r) (hex_encode r @ ext) name ct t is]}"
| "icon_results ul (OpActivate i) is = {js. \<exists>t. set_active (TrimSpace i) t is False = (js, True)}"
| "icon_results ul (OpRemove i) is = {js. \<exists>t x. get_icon (TrimSpace i) is = Some x \<and> js = cut_icon (TrimSpace i) t x is}"

definition fresh_ids :: "os \<Rightarrow> Icon list \<Rightarrow> bool" where
  "fresh_ids Q is \<longleftrightarrow> (\<forall>t. hex_encode (os_rand Q t) \<notin> icID ` set is)"

text \<open>An operation that reads the list, maybe fails, and otherwise writes one of its results.\<close>

lemma io_bind_cases:
  assumes "io_bind m f d = (r, d')"
  obtains e where "m d = (Inl e, d')" "r = Inl e" | x d1 where "m d = (Inr x, d1)" "f x d1 = (r, d')"
  using assms by (auto simp: io_bind_def split: prod.splits sum.splits)

lemma SetActiveIcon_list:
  assumes ok: "icons_ok Q s" and "is": "stored_icons C ul s d = Some is" "icons_inv ul is"
    and C: "\<forall>js \<in> icon_results ul (OpActivate i) is. faithful C js" and run: "SetActiveIcon Q C ul s i d = (r, d')"
  shows "if r = Inr () then \<exists>js \<in> icon_results ul (OpActivate i) is. icons_inv ul js \<and> stored_icons C ul s d' = Some js
         else stored_icons C ul s d' = Some is"
proof (cases "TrimSpace i = []")
  case True
  then show ?thesis using run "is" by (auto simp: SetActiveIcon_def io_fail_def)
next
  case False
  obtain y d1 where y: "icons_readLocked Q C ul s d = (y, d1)" by (cases "icons_readLocked Q C ul s d")
  have same: "stored_icons C ul s d1 = Some is"
    using "is"(1) stored_icons_lookup [OF lookup_nodes [OF icons_readLocked_exact(1) [OF y]]] by simp
  show ?thesis
  proof (cases y)
    case (Inl e)
    then show ?thesis using run False y same by (auto simp: SetActiveIcon_def io_bind_def)
  next
    case (Inr v)
    then have v: "v = is" using icons_readLocked_exact(2) [OF y] "is"(1) by auto
    let ?t = "os_clock Q (ticks d1)"
    obtain js found where js: "set_active (TrimSpace i) ?t is False = (js, found)"
      by (cases "set_active (TrimSpace i) ?t is False")
    show ?thesis
    proof (cases found)
      case False
      then show ?thesis using run \<open>TrimSpace i \<noteq> []\<close> y Inr v js same
        by (auto simp: SetActiveIcon_def io_bind_def io_fail_def)
    next
      case True
      have "icons_writeLocked Q C s js d1 = (r, d')"
        using run \<open>TrimSpace i \<noteq> []\<close> y Inr v js True by (simp add: SetActiveIcon_def io_bind_def)
      moreover have "js \<in> icon_results ul (OpActivate i) is" using js True by auto
      moreover have "icons_inv ul js" using set_active_inv [OF "is"(2), of "TrimSpace i" ?t js] js True by simp
      ultimately show ?thesis
        using icons_writeLocked_exact [OF ok, of C js ul d1 r d'] C same by (auto simp: icons_inv_def)
    qed
  qed
qed

lemma DeleteIcon_list:
  assumes ok: "icons_ok Q s" and "is": "stored_icons C ul s d = Some is" "icons_inv ul is"
    and C: "\<forall>js \<in> icon_results ul (OpRemove i) is. faithful C js" and run: "DeleteIcon Q C ul s i d = (r, d')"
  shows "if r = Inr () then \<exists>js \<in> icon_results ul (OpRemove i) is. icons_inv ul js \<and> stored_icons C ul s d' = Some js
         else stored_icons C ul s d' = Some is"
proof (cases "TrimSpace i = []")
  case True
  then show ?thesis using run "is" by (auto simp: DeleteIcon_def Let_def io_fail_def)
next
  case False
  obtain y d1 where y: "icons_readLocked Q C ul s d = (y, d1)" by (cases "icons_readLocked Q C ul s d")
  have same: "stored_icons C ul s d1 = Some is"
    using "is"(1) stored_icons_lookup [OF lookup_nodes [OF icons_readLocked_exact(1) [OF y]]] by simp
  show ?thesis
  proof (cases y)
    case (Inl e)
    then show ?thesis using run False y same by (auto simp: DeleteIcon_def Let_def io_bind_def)
  next
    case (Inr v)
    then have v: "v = is" using icons_readLocked_exact(2) [OF y] "is"(1) by auto
    show ?thesis
    proof (cases "get_icon (TrimSpace i) is")
      case None
      then show ?thesis using run False y Inr v same by (auto simp: DeleteIcon_def Let_def io_bind_def io_fail_def)
    next
      case (Some x)
      let ?js = "cut_icon (TrimSpace i) (os_clock Q (ticks d1)) x is"
      obtain w d2 where w: "icons_writeLocked Q C s ?js d1 = (w, d2)" by (cases "icons_writeLocked Q C s ?js d1")
      have inv: "icons_inv ul ?js" by (rule cut_icon_inv [OF "is"(2) Some])
      have mem: "?js \<in> icon_results ul (OpRemove i) is" using Some by auto
      have st: "stored_icons C ul s d2 = (if w = Inr () then Some ?js else Some is)"
        using icons_writeLocked_exact [OF ok, of C ?js ul d1 w d2] w C mem inv same by (auto simp: icons_inv_def)
      let ?drop = "\<lambda>d. io_ignore (removeUploadFile Q (ResolveIcon s (icFilename x))) d"
      have "io_bind (icons_writeLocked Q C s ?js) (\<lambda>_ d. (Inr (), ?drop d)) d1 = (r, d')"
        using run False y Inr v Some by (simp add: DeleteIcon_def Let_def io_bind_def [of "icons_readLocked Q C ul s"])
      then have "r = w \<and> (d' = d2 \<or> d' = ?drop d2)"
        using w by (cases w) (simp_all add: io_bind_def)
      moreover have "lookup (?drop d2) (icMetadataPath s) = lookup d2 (icMetadataPath s)"
        using ok unfolding icons_ok_def
        by (auto simp: removeUploadFile_def io_defs Let_def dest: not_sym split: sum.splits io_error.splits)
      then have "stored_icons C ul s (?drop d2) = stored_icons C ul s d2" by (rule stored_icons_lookup)
      ultimately have "r = w" "stored_icons C ul s d' = stored_icons C ul s d2" by auto
      then show ?thesis using st inv mem by auto
    qed
  qed
qed

lemma os_WriteFile_keeps: "locate q \<noteq> locate p \<Longrightarrow> lookup (snd (os_WriteFile Q p data d)) q = lookup d q"
  by (auto simp: io_defs Let_def split: if_splits option.splits node.splits)

lemma newIconID_run: "newIconID Q d = (z, d') \<Longrightarrow> nodes d' = nodes d \<and> (\<forall>i. z = Inr i \<longrightarrow> (\<exists>t. i = hex_encode (os_rand Q t)))"
  by (auto simp: newIconID_def io_defs Let_def split: if_splits)

lemma os_Remove_keeps: "locate q \<noteq> locate p \<Longrightarrow> lookup (snd (os_Remove Q p d)) q = lookup d q"
  by (auto simp: io_defs Let_def)

text \<open>
  Everything in \<open>SaveIcon\<close> before the metadata is written leaves the metadata alone: either it
  fails there, or it comes to the write with a fresh safe icon.
\<close>

lemma SaveIcon_steps:
  assumes ok: "icons_ok Q s" and "is": "stored_icons C ul s d = Some is" and run: "SaveIcon Q C ul fmt s name data d = (r, d')"
  obtains e where "r = Inl e" "stored_icons C ul s d' = Some is"
  | ext ct t t' d1 p where "validateIconName ul name = Inr (ext, ct)" "stored_icons C ul s d1 = Some is" "plain p"
      "(case icons_writeLocked Q C s (is @ [make_icon (hex_encode (os_rand Q t)) (hex_encode (os_rand Q t) @ ext) name ct t' is]) d1 of
          (Inl e, d) \<Rightarrow> (Inl e, io_ignore (os_Remove Q (Join [iconDir s, p])) d)
        | (Inr _, d) \<Rightarrow> (Inr (make_icon (hex_encode (os_rand Q t)) (hex_encode (os_rand Q t) @ ext) name ct t' is), d)) = (r, d')"
proof (cases "validateIconName ul name")
  case (Inl err)
  then show ?thesis using run "is" that(1) [of err] by (auto simp: SaveIcon_def io_fail_def)
next
  case (Inr v)
  obtain ext ct where v: "validateIconName ul name = Inr (ext, ct)" using Inr by (cases v) auto
  show ?thesis
  proof (cases "length data = 0 \<or> validateIconContent fmt ct data \<noteq> None")
    case True
    then show ?thesis using run v "is" that(1) by (cases "length data = 0") (auto simp: SaveIcon_def io_fail_def)
  next
    case False
    let ?path = "\<lambda>i. Join [iconDir s, i @ ext]"
    let ?fin = "\<lambda>i icons d. let icon = make_icon i (i @ ext) name ct (os_clock Q (ticks d)) icons
                     in (case icons_writeLocked Q C s (icons @ [icon]) d of
                           (Inl e, d) \<Rightarrow> (Inl e, io_ignore (os_Remove Q (?path i)) d)
                         | (Inr _, d) \<Rightarrow> (Inr icon, d))"
    have "io_bind (icons_readLocked Q C ul s) (\<lambda>icons.
        io_bind (enforceFileQuota Q (iconDir s) (MaxIcons s) (icMaxStorageBytes s) (int (length data)) ''icon upload'') (\<lambda>_.
        io_bind (newIconID Q) (\<lambda>i.
        io_bind (io_check ''write icon file'' id (os_WriteFile Q (?path i) data)) (\<lambda>_. ?fin i icons)))) d = (r, d')"
      using run v False by (simp add: SaveIcon_def Let_def)
    then show ?thesis
    proof (cases rule: io_bind_cases)
      case (1 e)
      then show ?thesis
        using stored_icons_lookup [OF lookup_nodes [OF icons_readLocked_exact(1)]] "is" that(1) by metis
    next
      case (2 icons d1)
      then have icons: "icons = is" and d1: "stored_icons C ul s d1 = Some is"
        using icons_readLocked_exact(2) [of Q C ul s d "Inr icons" d1 icons] "is"
          stored_icons_lookup [OF lookup_nodes [OF icons_readLocked_exact(1) [OF 2(1)]]] by auto
      from 2(2) show ?thesis
      proof (cases rule: io_bind_cases)
        case (1 e)
        then show ?thesis
          using stored_icons_lookup [OF lookup_nodes [OF enforceFileQuota_keeps]] d1 that(1) by metis
      next
        case (2 u d2)
        have d2: "stored_icons C ul s d2 = Some is"
          using d1 stored_icons_lookup [OF lookup_nodes [OF enforceFileQuota_keeps [OF 2(1)]]] by simp
        from 2(2) show ?thesis
        proof (cases rule: io_bind_cases)
          case (1 e)
          then show ?thesis
            using stored_icons_lookup [OF lookup_nodes [OF newIconID_run [THEN conjunct1]]] d2 that(1) by metis
        next
          case (2 i d3)
          have d3: "stored_icons C ul s d3 = Some is"
            using d2 stored_icons_lookup [OF lookup_nodes [OF newIconID_run [OF 2(1), THEN conjunct1]]] by simp
          obtain t where i: "i = hex_encode (os_rand Q t)" using newIconID_run [OF 2(1)] by auto
          obtain w d4 where w: "os_WriteFile Q (?path i) data d3 = (w, d4)" by (cases "os_WriteFile Q (?path i) data d3")
          have "locate (icMetadataPath s) \<noteq> locate (?path i)" 
            using ok Base_plain [OF plain_icon [OF v, of "os_rand Q t"]] i by (metis icons_ok_def ResolveIcon_def)
          then have "lookup d4 (icMetadataPath s) = lookup d3 (icMetadataPath s)"
            using os_WriteFile_keeps [of "icMetadataPath s" "?path i" Q data d3] w by simp
          then have d4: "stored_icons C ul s d4 = Some is" using stored_icons_lookup d3 by metis
          show ?thesis
          proof (cases w)
            case (Inl e)
            then show ?thesis using 2(2) w d4 that(1) by (auto simp: io_bind_def io_check_def)
          next
            case (Inr u)
            then have "?fin (hex_encode (os_rand Q t)) is d4 = (r, d')"
              using 2(2) w icons unfolding i by (simp add: io_bind_def io_check_def)
            then show ?thesis using that(2) [OF v d4 plain_icon [OF v, of "os_rand Q t"], of t "os_clock Q (ticks d4)"] by (simp add: Let_def)
          qed
        qed
      qed
    qed
  qed
qed


lemma SaveIcon_list:
  assumes ok: "icons_ok Q s" and "is": "stored_icons C ul s d = Some is" "icons_inv ul is"
    and ids: "fresh_ids Q is" and C: "\<forall>js \<in> icon_results ul (OpSave name data) is. faithful C js"
    and run: "SaveIcon Q C ul fmt s name data d = (z, d')"
  shows "case z of Inl e \<Rightarrow> stored_icons C ul s d' = Some is
    | Inr icon \<Rightarrow> stored_icons C ul s d' = Some (is @ [icon]) \<and> icons_inv ul (is @ [icon])
        \<and> is @ [icon] \<in> icon_results ul (OpSave name data) is"
  using ok "is"(1) run
proof (cases rule: SaveIcon_steps)
  case (1 e)
  then show ?thesis by simp
next
  case (2 ext ct t t' d1 p)
  let ?icon = "make_icon (hex_encode (os_rand Q t)) (hex_encode (os_rand Q t) @ ext) name ct t' is"
  have inv: "icons_inv ul (is @ [?icon])"
    using "is"(2) ids new_icon_safe [OF 2(1)] by (intro add_icon_inv) (simp_all add: fresh_ids_def)
  have mem: "is @ [?icon] \<in> icon_results ul (OpSave name data) is" using 2(1) by auto
  obtain w d2 where w: "icons_writeLocked Q C s (is @ [?icon]) d1 = (w, d2)"
    by (cases "icons_writeLocked Q C s (is @ [?icon]) d1")
  have st: "stored_icons C ul s d2 = (if w = Inr () then Some (is @ [?icon]) else Some is)"
    using icons_writeLocked_exact [OF ok _ _ w] inv mem C 2(2) by (auto simp: icons_inv_def)
  have rm: "lookup (io_ignore (os_Remove Q (Join [iconDir s, p])) d2) (icMetadataPath s) = lookup d2 (icMetadataPath s)"
    using ok Base_plain [OF 2(3)] unfolding icons_ok_def ResolveIcon_def
    by (metis io_ignore_def os_Remove_keeps)
  show ?thesis
  proof (cases w)
    case (Inl e)
    then have "z = Inl e" "d' = io_ignore (os_Remove Q (Join [iconDir s, p])) d2" using 2(4) w by auto
    then show ?thesis using stored_icons_lookup [OF rm, of C ul] st Inl by simp
  next
    case (Inr u)
    then have "z = Inr ?icon" "d' = d2" using 2(4) w by auto
    then show ?thesis using st Inr inv mem by simp
  qed
qed

lemma icons_run_list:
  assumes ok: "icons_ok Q s" and "is": "stored_icons C ul s d = Some is" "icons_inv ul is"
    and ids: "fresh_ids Q is" and C: "\<forall>js \<in> icon_results ul op is. faithful C js"
    and run: "icons_run Q C ul fmt s op d = (r, d')"
  shows "\<exists>js. stored_icons C ul s d' = Some js \<and> icons_inv ul js
     \<and> (if r = Inr () then js \<in> icon_results ul op is else js = is)"
proof (cases op)
  case (OpActivate i)
  then show ?thesis using SetActiveIcon_list [OF ok "is", of i r d'] C run "is"(2) by (cases "r = Inr ()") auto
next
  case (OpRemove i)
  then show ?thesis using DeleteIcon_list [OF ok "is", of i r d'] C run "is"(2) by (cases "r = Inr ()") auto
next
  case (OpSave name data)
  then obtain z where z: "SaveIcon Q C ul fmt s name data d = (z, d')" "r = map_sum id (\<lambda>_. ()) z"
    using run by (auto simp: io_bind_def io_return_def split: prod.splits sum.splits)
  then show ?thesis
    using SaveIcon_list [OF ok "is" ids _ z(1)] C OpSave "is"(2) by (cases z) (auto simp del: icon_results.simps)
qed

text \<open>
  One active icon: from a store whose icons have distinct identifiers, are safe to serve and
  include exactly one active icon (none when the store is empty), every operation leads to
  such a store again, whichever system calls fail; an operation that succeeds leaves one of
  the lists it promises, one that fails leaves the list as it was.
\<close>

theorem icons_one_active:
  assumes ok: "icons_ok Q s" and "is": "stored_icons C ul s d = Some is" "icons_inv ul is"
    and ids: "fresh_ids Q is" and C: "\<forall>js \<in> icon_results ul op is. faithful C js"
    and run: "icons_run Q C ul fmt s op d = (r, d')"
  shows "\<exists>js. stored_icons C ul s d' = Some js \<and> icons_inv ul js
     \<and> (if r = Inr () then js \<in> icon_results ul op is else js = is)"
  using icons_run_list [OF assms] .

subsection \<open>Witness\<close>

definition demo_icon :: Icon where
  "demo_icon = \<lparr>icID = ''a'', icFilename = ''a.png'', icOriginalName = ''a.png'', icContentType = ''image/png'',
     icActive = True, icCreatedAt = 1, icUpdatedAt = 1\<rparr>"

definition demo_icons :: FileIconStore where
  "demo_icons = \<lparr>icMetadataPath = ''m'', iconDir = ''u'', MaxIcons = 4, icMaxStorageBytes = 0\<rparr>"

definition demo_icon_codec :: "Icon list codec" where
  "demo_icon_codec = \<lparr>enc = (\<lambda>is. Some ''x''), dec = (\<lambda>s. Some [demo_icon])\<rparr>"

definition demo_icon_disk :: disk where
  "demo_icon_disk = \<lparr>nodes = [((False, [''m'']), File ''x'')], ticks = 0\<rparr>"

lemma demo_icons_ok: "icons_ok calm demo_icons"
proof -
  have m: "locate (icMetadataPath demo_icons) = (False, [''m''])" by (simp add: demo_icons_def locate_plain plain_def)
  have "locate (ResolveIcon demo_icons p) \<noteq> (False, [''m''])" for p
    using Base_cases [of p]
  proof (elim disjE)
    assume "plain (Base p)"
    then show ?thesis by (simp add: ResolveIcon_def demo_icons_def locate_Join locate_plain plain_def)
  qed (simp_all add: ResolveIcon_def demo_icons_def Join_def,
       simp_all add: locate_def HasPrefix_def path_step_def)
  moreover have "locate (temp_of calm (icMetadataPath demo_icons) ''icons-'' ''.tmp'' t) \<noteq> (False, [''m''])" for t
    by (simp add: temp_of_def demo_icons_def Dir_of_def Clean_def locate_def HasPrefix_def path_step_def)
  ultimately show ?thesis by (simp add: icons_ok_def m)
qed

theorem icons_one_active_witness:
  "\<exists>js. stored_icons demo_icon_codec (\<lambda>s. []) demo_icons
       (snd (icons_run calm demo_icon_codec (\<lambda>s. []) (\<lambda>s. None) demo_icons (OpActivate ''a'') demo_icon_disk)) = Some js
     \<and> icons_inv (\<lambda>s. []) js"
proof -
  let ?ul = "\<lambda>s :: string. [] :: string"
  have trim: "TrimSpace ''a.png'' = ''a.png''" "TrimSpace ''a'' = ''a''"
    by (simp_all add: TrimSpace_ascii is_ascii_def ascii_space_def)
  have safe: "isSafeStoredIcon ?ul demo_icon"
    by (simp add: isSafeStoredIcon_def validateIconName_def demo_icon_def trim Ext_def last_element_def ToLower_def
                  is_ascii_def ascii_lower_def)
  have inv: "icons_inv ?ul [demo_icon]" using safe by (simp add: icons_inv_def demo_icon_def)
  have "lookup demo_icon_disk (icMetadataPath demo_icons) = Some (File ''x'')"
    by (simp add: lookup_def demo_icon_disk_def demo_icons_def locate_plain plain_def)
  then have st: "stored_icons demo_icon_codec ?ul demo_icons demo_icon_disk = Some [demo_icon]"
    using safe by (simp add: stored_icons_def read_metadata_def demo_icon_codec_def)
  have "fresh_ids calm [demo_icon]" by (simp add: fresh_ids_def demo_icon_def hex_encode_def)
  moreover have "\<forall>js \<in> icon_results ?ul (OpActivate ''a'') [demo_icon]. faithful demo_icon_codec js"
    by (auto simp: trim demo_icon_def faithful_def demo_icon_codec_def)
  moreover obtain r d' where
    "icons_run calm demo_icon_codec ?ul (\<lambda>s. None) demo_icons (OpActivate ''a'') demo_icon_disk = (r, d')"
    by (rule prod.exhaust)
  ultimately show ?thesis using icons_one_active [OF demo_icons_ok st inv] by fastforce
qed

end
