(* ===== verification/Web_Admin.thy ===== *)
theory Web_Admin
  imports Web_Download Dashboard_Users Dashboard_Icons
begin

text \<open>
  The administration of the dashboard (\<open>web/admin_handlers.go\<close>): the origin check, the handlers
  for entries and for users, and the configuration of the authentication helper they rewrite.

  A handler is an operation on the disk that ends with the status of an error or with a status
  and the value it answers as JSON. The decoded request body is a parameter, \<open>None\<close> when
  decoding fails; so is the multipart form that \<open>ParseMultipartForm\<close> delivers under a limit.
\<close>

subsection \<open>The handler and its environment\<close>

record AdminHandler = Handler +
  adminGroups :: "string list"
  dashboardAuthUserStore :: "string option"
  dashboardIconStore :: "FileIconStore option"
  dashboardMaxUploadBytes :: int
  authHelperConfigPath :: string
  gatewayAddress :: "url option"

record admin_env =
  aOs :: os
  aEntries :: "Entry list codec"
  aUsers :: "AuthUser list codec"
  aIcons :: "Icon list codec"
  aYaml :: "helperUser list \<Rightarrow> string option"
  aLower :: "string \<Rightarrow> string"
  aParse :: "string \<Rightarrow> url option"
  aFold :: "string \<Rightarrow> string \<Rightarrow> bool"
  aFormat :: "string \<Rightarrow> string option"

text \<open>\<open>http.Error\<close> with a status that depends on the error.\<close>

definition or_status :: "('e \<Rightarrow> nat) \<Rightarrow> ('e, 'a) io \<Rightarrow> (nat, 'a) io" where
  "or_status st m d = (case m d of (Inl e, d') \<Rightarrow> (Inl (st e), d') | (Inr x, d') \<Rightarrow> (Inr x, d'))"

subsection \<open>The origin check\<close>

definition admin_effectiveOriginPort :: "(string \<Rightarrow> string) \<Rightarrow> url \<Rightarrow> string" where
  "admin_effectiveOriginPort ul u =
     (if Port_of u \<noteq> [] then Port_of u
      else if ToLower ul (uScheme u) = ''https'' then ''443''
      else if ToLower ul (uScheme u) = ''http'' then ''80''
      else [])"

definition admin_sameOriginHost :: "(string \<Rightarrow> string \<Rightarrow> bool) \<Rightarrow> url \<Rightarrow> string \<Rightarrow> bool" where
  "admin_sameOriginHost uf target requestHost = EqualFold uf (uHost target) requestHost"

definition sameConfiguredOrigin :: "(string \<Rightarrow> string) \<Rightarrow> (string \<Rightarrow> string \<Rightarrow> bool) \<Rightarrow> url \<Rightarrow> url \<Rightarrow> bool" where
  "sameConfiguredOrigin ul uf target configured =
     (if Hostname configured = [] then False
      else let configuredScheme = (if uScheme configured = [] then uScheme target else uScheme configured)
           in if \<not> EqualFold uf (uScheme target) configuredScheme then False
              else if \<not> EqualFold uf (Hostname target) (Hostname configured) then False
              else admin_effectiveOriginPort ul target = admin_effectiveOriginPort ul configured)"

definition sameOriginAllowed :: "admin_env \<Rightarrow> AdminHandler \<Rightarrow> url \<Rightarrow> Request \<Rightarrow> bool" where
  "sameOriginAllowed E h target r =
     (case gatewayAddress h of
        None \<Rightarrow> admin_sameOriginHost (aFold E) target (rHost r)
      | Some g \<Rightarrow> if uHost g \<noteq> [] then sameConfiguredOrigin (aLower E) (aFold E) target g
                  else admin_sameOriginHost (aFold E) target (rHost r))"

definition requestOriginURL :: "(string \<Rightarrow> url option) \<Rightarrow> Request \<Rightarrow> url option" where
  "requestOriginURL P r =
     (let rawOrigin = TrimSpace (Header_Get r ''Origin'') in
      if rawOrigin = [] \<or> rawOrigin = ''null'' then None
      else (case P rawOrigin of None \<Rightarrow> None | Some u \<Rightarrow> if uHost u = [] then None else Some u))"

definition requestRefererURL :: "(string \<Rightarrow> url option) \<Rightarrow> Request \<Rightarrow> url option" where
  "requestRefererURL P r =
     (let rawReferer = TrimSpace (Header_Get r ''Referer'') in
      if rawReferer = [] then None
      else (case P rawReferer of None \<Rightarrow> None | Some u \<Rightarrow> if uHost u = [] then None else Some u))"

definition sameOriginAdminRequest :: "admin_env \<Rightarrow> AdminHandler \<Rightarrow> Request \<Rightarrow> bool" where
  "sameOriginAdminRequest E h r =
     (case requestOriginURL (aParse E) r of
        Some target \<Rightarrow> sameOriginAllowed E h target r
      | None \<Rightarrow>
          (case requestRefererURL (aParse E) r of
             Some target \<Rightarrow> sameOriginAllowed E h target r
           | None \<Rightarrow> False))"

subsection \<open>Helpers of the entry handlers\<close>

definition newEntryID :: "os \<Rightarrow> (io_error, string) io" where
  "newEntryID Q = io_bind (rand_Read Q) (\<lambda>b. io_return (hex_encode b))"

primrec keep_parts :: "string list \<Rightarrow> string list" where
  "keep_parts [] = []"
| "keep_parts (part # parts) =
     (let part = TrimSpace part in if part = [] then keep_parts parts else part # keep_parts parts)"

definition splitCSV :: "string \<Rightarrow> string list" where
  "splitCSV v = keep_parts (Split v CHR '','')"

definition statusForStorePutError :: "store_error \<Rightarrow> nat" where
  "statusForStorePutError err = (if IsValidationError err then StatusBadRequest else StatusInternalServerError)"

text \<open>Of the errors that come here, \<open>Failed\<close> ones carry the text that is searched.\<close>

definition statusForEntryIconError :: "store_error \<Rightarrow> nat" where
  "statusForEntryIconError err =
     (if err = IconNotFound \<or> (case err of Failed m \<Rightarrow> Contains m ''uploaded entry icon'' | _ \<Rightarrow> False)
      then StatusBadRequest else StatusInternalServerError)"

definition normalizeAdminEntryIcon :: "admin_env \<Rightarrow> AdminHandler \<Rightarrow> string \<Rightarrow> (store_error, string) io" where
  "normalizeAdminEntryIcon E h v =
     (let icon = NormalizeEntryIcon (aLower E) v in
      case UploadedEntryIconID (aLower E) icon of
        None \<Rightarrow> io_return icon
      | Some iconID \<Rightarrow>
          (case dashboardIconStore h of
             None \<Rightarrow> io_fail (Failed ''uploaded entry icon store is not configured'')
           | Some s \<Rightarrow>
               io_bind (ListIcons (aOs E) (aIcons E) (aLower E) s) (\<lambda>icons.
                 if list_ex (\<lambda>uploadedIcon. icID uploadedIcon = iconID) icons then io_return icon
                 else io_fail IconNotFound)))"

record adminEntryResponse =
  erID :: string
  erType :: string
  erName :: string
  erDescription :: string
  erIcon :: string
  erAllowedGroups :: "string list"
  erEnabled :: bool
  erHost :: string
  erTargetHostOverride :: string
  erTargetIPOverride :: string
  erForceTargetIPOverride :: bool
  erHasUploadedTemplate :: bool
  erCreatedAt :: instant
  erUpdatedAt :: instant

definition newAdminEntryResponse :: "(string \<Rightarrow> string) \<Rightarrow> Entry \<Rightarrow> adminEntryResponse" where
  "newAdminEntryResponse ul e =
     \<lparr>erID = ID e, erType = Type e, erName = Name e, erDescription = Description e,
      erIcon = NormalizeEntryIcon ul (Icon e), erAllowedGroups = AllowedGroups e, erEnabled = Enabled e,
      erHost = Host e, erTargetHostOverride = TargetHostOverride e, erTargetIPOverride = TargetIPOverride e,
      erForceTargetIPOverride = ForceTargetIPOverride e,
      erHasUploadedTemplate = (TrimSpace (UploadedTemplatePath e) \<noteq> []),
      erCreatedAt = CreatedAt e, erUpdatedAt = UpdatedAt e\<rparr>"

definition adminEntryResponses :: "(string \<Rightarrow> string) \<Rightarrow> Entry list \<Rightarrow> adminEntryResponse list" where
  "adminEntryResponses ul entries = map (newAdminEntryResponse ul) entries"

subsection \<open>The handlers for entries\<close>

definition HandleAdminListEntries :: "admin_env \<Rightarrow> AdminHandler \<Rightarrow> (nat, nat \<times> adminEntryResponse list) io" where
  "HandleAdminListEntries E h =
     (case dashboardStore h of
        None \<Rightarrow> io_fail StatusServiceUnavailable
      | Some s \<Rightarrow>
          io_bind (or_status (\<lambda>_. StatusInternalServerError) (store_List (aOs E) (aEntries E) (aLower E) s)) (\<lambda>entries.
            io_return (StatusOK, adminEntryResponses (aLower E) entries)))"

record adminCreateHostEntryRequest =
  hrName :: string
  hrDescription :: string
  hrIcon :: string
  hrAllowedGroups :: "string list"
  hrHost :: string
  hrTargetIPOverride :: string
  hrForceTargetIPOverride :: bool

definition host_entry :: "adminCreateHostEntryRequest \<Rightarrow> string \<Rightarrow> string \<Rightarrow> Entry" where
  "host_entry req i entryIcon =
     \<lparr>ID = i, Type = EntryTypeHost, Name = TrimSpace (hrName req), Description = TrimSpace (hrDescription req),
      Icon = entryIcon, AllowedGroups = hrAllowedGroups req, Enabled = True, Host = TrimSpace (hrHost req),
      UploadedTemplatePath = [], TargetHostOverride = [], TargetIPOverride = TrimSpace (hrTargetIPOverride req),
      ForceTargetIPOverride = hrForceTargetIPOverride req, CreatedAt = 0, UpdatedAt = 0\<rparr>"

definition HandleAdminCreateHostEntry ::
    "admin_env \<Rightarrow> AdminHandler \<Rightarrow> Request \<Rightarrow> adminCreateHostEntryRequest option
      \<Rightarrow> (nat, nat \<times> adminEntryResponse) io" where
  "HandleAdminCreateHostEntry E h r body =
     (if \<not> sameOriginAdminRequest E h r then io_fail StatusForbidden
      else case dashboardStore h of
        None \<Rightarrow> io_fail StatusServiceUnavailable
      | Some s \<Rightarrow>
          (case body of
             None \<Rightarrow> io_fail StatusBadRequest
           | Some req \<Rightarrow>
               io_bind (or_status (\<lambda>_. StatusInternalServerError) (newEntryID (aOs E))) (\<lambda>i.
               io_bind (or_status statusForEntryIconError (normalizeAdminEntryIcon E h (hrIcon req))) (\<lambda>entryIcon.
                 let e = host_entry req i entryIcon in
                 io_bind (or_status statusForStorePutError (store_Put (aOs E) (aEntries E) (aLower E) s e)) (\<lambda>_.
                   io_return (StatusCreated, newAdminEntryResponse (aLower E) e))))))"

text \<open>
  A multipart form: the uploaded file, if there is one, with its name and what reading it yields,
  and the values, empty when missing.
\<close>

record form =
  fFile :: "string \<Rightarrow> (string \<times> string option) option"
  fValue :: "string \<Rightarrow> string"

definition upload_limit :: "AdminHandler \<Rightarrow> int" where
  "upload_limit h = (if dashboardMaxUploadBytes h \<le> 0 then 10 * 2 ^ 20 else dashboardMaxUploadBytes h)"

definition template_entry :: "(string \<Rightarrow> string \<Rightarrow> bool) \<Rightarrow> form \<Rightarrow> string \<Rightarrow> string \<Rightarrow> string \<Rightarrow> Entry" where
  "template_entry uf f i entryIcon uploadedPath =
     \<lparr>ID = i, Type = EntryTypeTemplate, Name = TrimSpace (fValue f ''name''),
      Description = TrimSpace (fValue f ''description''), Icon = entryIcon,
      AllowedGroups = splitCSV (fValue f ''allowedGroups''), Enabled = True, Host = [],
      UploadedTemplatePath = uploadedPath, TargetHostOverride = TrimSpace (fValue f ''targetHostOverride''),
      TargetIPOverride = TrimSpace (fValue f ''targetIPOverride''),
      ForceTargetIPOverride = (fValue f ''forceTargetIPOverride'' = ''on''
        \<or> EqualFold uf (fValue f ''forceTargetIPOverride'') ''true''),
      CreatedAt = 0, UpdatedAt = 0\<rparr>"

text \<open>The parts after the upload is saved: a failure removes the saved file again.\<close>

definition removing :: "os \<Rightarrow> string \<Rightarrow> ('e, 'a) io \<Rightarrow> ('e, 'a) io" where
  "removing Q path m d =
     (case m d of (Inl e, d') \<Rightarrow> (Inl e, io_ignore (os_Remove Q path) d') | (Inr x, d') \<Rightarrow> (Inr x, d'))"

definition put_template :: "admin_env \<Rightarrow> FileStore \<Rightarrow> string \<Rightarrow> Entry \<Rightarrow> (nat, unit) io" where
  "put_template E s uploadFilePath e d =
     (case store_Put (aOs E) (aEntries E) (aLower E) s e d of
        (Inr _, d) \<Rightarrow> (Inr (), d)
      | (Inl err, d) \<Rightarrow>
          (case os_Remove (aOs E) uploadFilePath d of
             (Inl IOFailed, d) \<Rightarrow> (Inl StatusInternalServerError, d)
           | (_, d) \<Rightarrow> (Inl (statusForStorePutError err), d)))"

definition HandleAdminCreateTemplateEntry ::
    "admin_env \<Rightarrow> AdminHandler \<Rightarrow> Request \<Rightarrow> (int \<Rightarrow> form option) \<Rightarrow> (nat, nat \<times> adminEntryResponse) io" where
  "HandleAdminCreateTemplateEntry E h r parse =
     (if \<not> sameOriginAdminRequest E h r then io_fail StatusForbidden
      else case dashboardStore h of
        None \<Rightarrow> io_fail StatusServiceUnavailable
      | Some s \<Rightarrow>
          (case parse (upload_limit h) of
             None \<Rightarrow> io_fail StatusBadRequest
           | Some f \<Rightarrow>
               (case fFile f ''template'' of
                  None \<Rightarrow> io_fail StatusBadRequest
                | Some (filename, content) \<Rightarrow>
                    if ToLower (aLower E) (Ext filename) \<noteq> ''.rdp'' then io_fail StatusBadRequest
                    else (case content of
                      None \<Rightarrow> io_fail StatusBadRequest
                    | Some data \<Rightarrow>
                        (case rdp_Unmarshal data of
                           Inl err \<Rightarrow> io_fail StatusBadRequest
                         | Inr es \<Rightarrow>
                             io_bind (or_status statusForStorePutError (SaveUpload (aOs E) s (Some data))) (\<lambda>uploadedPath.
                               let uploadFilePath = ResolveUpload s uploadedPath in
                               io_bind (removing (aOs E) uploadFilePath
                                 (or_status (\<lambda>_. StatusInternalServerError) (newEntryID (aOs E)))) (\<lambda>i.
                               io_bind (removing (aOs E) uploadFilePath
                                 (or_status statusForEntryIconError (normalizeAdminEntryIcon E h (fValue f ''icon'')))) (\<lambda>entryIcon.
                                 let e = template_entry (aFold E) f i entryIcon uploadedPath in
                                 io_bind (put_template E s uploadFilePath e) (\<lambda>_.
                                   io_return (StatusCreated, newAdminEntryResponse (aLower E) e))))))))))"

record adminUpdateEntryRequest =
  urName :: "string option"
  urDescription :: "string option"
  urIcon :: "string option"
  urAllowedGroups :: "string list option"
  urEnabled :: "bool option"
  urHost :: "string option"
  urTargetHostOverride :: "string option"
  urTargetIPOverride :: "string option"
  urForceTargetIPOverride :: "bool option"

text \<open>The fields that are given; the icon, already checked, is the first argument.\<close>

definition update_entry :: "string \<Rightarrow> adminUpdateEntryRequest \<Rightarrow> Entry \<Rightarrow> Entry" where
  "update_entry entryIcon req e =
     e\<lparr>Name := (case urName req of None \<Rightarrow> Name e | Some v \<Rightarrow> TrimSpace v),
       Description := (case urDescription req of None \<Rightarrow> Description e | Some v \<Rightarrow> TrimSpace v),
       Icon := entryIcon,
       AllowedGroups := (case urAllowedGroups req of None \<Rightarrow> AllowedGroups e | Some v \<Rightarrow> v),
       Enabled := (case urEnabled req of None \<Rightarrow> Enabled e | Some v \<Rightarrow> v),
       Host := (case urHost req of None \<Rightarrow> Host e | Some v \<Rightarrow> if Type e = EntryTypeHost then TrimSpace v else Host e),
       TargetHostOverride := (case urTargetHostOverride req of None \<Rightarrow> TargetHostOverride e
         | Some v \<Rightarrow> if Type e = EntryTypeTemplate then TrimSpace v else TargetHostOverride e),
       TargetIPOverride := (case urTargetIPOverride req of None \<Rightarrow> TargetIPOverride e | Some v \<Rightarrow> TrimSpace v),
       ForceTargetIPOverride := (case urForceTargetIPOverride req of None \<Rightarrow> ForceTargetIPOverride e | Some v \<Rightarrow> v)\<rparr>"

definition load_error :: "store_error \<Rightarrow> nat" where
  "load_error err = (if err = EntryNotFound then StatusNotFound else StatusInternalServerError)"

definition HandleAdminUpdateEntry ::
    "admin_env \<Rightarrow> AdminHandler \<Rightarrow> Request \<Rightarrow> string \<Rightarrow> adminUpdateEntryRequest option
      \<Rightarrow> (nat, nat \<times> adminEntryResponse) io" where
  "HandleAdminUpdateEntry E h r entryID body =
     (if \<not> sameOriginAdminRequest E h r then io_fail StatusForbidden
      else case dashboardStore h of
        None \<Rightarrow> io_fail StatusServiceUnavailable
      | Some s \<Rightarrow>
          if TrimSpace entryID = [] then io_fail StatusBadRequest
          else
            io_bind (or_status load_error (store_Get (aOs E) (aEntries E) (aLower E) s entryID)) (\<lambda>e.
              case body of
                None \<Rightarrow> io_fail StatusBadRequest
              | Some req \<Rightarrow>
                  io_bind (case urIcon req of
                             None \<Rightarrow> io_return (Icon e)
                           | Some v \<Rightarrow> or_status statusForEntryIconError (normalizeAdminEntryIcon E h v)) (\<lambda>entryIcon.
                    let e = update_entry entryIcon req e in
                    io_bind (or_status statusForStorePutError (store_Put (aOs E) (aEntries E) (aLower E) s e)) (\<lambda>_.
                      io_return (StatusOK, newAdminEntryResponse (aLower E) e)))))"

definition HandleAdminDeleteEntry :: "admin_env \<Rightarrow> AdminHandler \<Rightarrow> Request \<Rightarrow> string \<Rightarrow> (nat, nat) io" where
  "HandleAdminDeleteEntry E h r entryID =
     (if \<not> sameOriginAdminRequest E h r then io_fail StatusForbidden
      else case dashboardStore h of
        None \<Rightarrow> io_fail StatusServiceUnavailable
      | Some s \<Rightarrow>
          if TrimSpace entryID = [] then io_fail StatusBadRequest
          else
            io_bind (or_status load_error (store_Get (aOs E) (aEntries E) (aLower E) s entryID)) (\<lambda>_.
            io_bind (or_status (\<lambda>_. StatusInternalServerError) (store_Delete (aOs E) (aEntries E) (aLower E) s entryID)) (\<lambda>_.
              io_return StatusNoContent)))"

subsection \<open>The handlers for users\<close>

record adminAuthUserResponse =
  arUsername :: string
  arEnabled :: bool
  arCreatedAt :: instant
  arUpdatedAt :: instant

definition newAdminAuthUserResponse :: "AuthUser \<Rightarrow> adminAuthUserResponse" where
  "newAdminAuthUserResponse u =
     \<lparr>arUsername = auUsername u, arEnabled = auEnabled u, arCreatedAt = auCreatedAt u, arUpdatedAt = auUpdatedAt u\<rparr>"

definition adminAuthUserResponses :: "AuthUser list \<Rightarrow> adminAuthUserResponse list" where
  "adminAuthUserResponses users = map newAdminAuthUserResponse users"

definition regenerateAuthHelperConfig :: "admin_env \<Rightarrow> AdminHandler \<Rightarrow> string \<Rightarrow> (store_error, unit) io" where
  "regenerateAuthHelperConfig E h path =
     io_bind (users_List (aOs E) (aUsers E) path)
       (WriteAuthHelperConfig (aOs E) (aYaml E) (authHelperConfigPath h))"

definition HandleAdminListAuthUsers :: "admin_env \<Rightarrow> AdminHandler \<Rightarrow> (nat, nat \<times> adminAuthUserResponse list) io" where
  "HandleAdminListAuthUsers E h =
     (case dashboardAuthUserStore h of
        None \<Rightarrow> io_fail StatusServiceUnavailable
      | Some path \<Rightarrow>
          io_bind (or_status (\<lambda>_. StatusInternalServerError) (users_List (aOs E) (aUsers E) path)) (\<lambda>users.
            io_return (StatusOK, adminAuthUserResponses users)))"

definition load_user_error :: "store_error \<Rightarrow> nat" where
  "load_user_error err = (if err = AuthUserNotFound then StatusNotFound else StatusInternalServerError)"

record adminCreateAuthUserRequest =
  cuUsername :: string
  cuPassword :: string
  cuEnabled :: "bool option"

definition created_user :: "adminCreateAuthUserRequest \<Rightarrow> AuthUser" where
  "created_user req =
     \<lparr>auUsername = TrimSpace (cuUsername req), auPassword = cuPassword req,
      auEnabled = (case cuEnabled req of None \<Rightarrow> True | Some v \<Rightarrow> v), auCreatedAt = 0, auUpdatedAt = 0\<rparr>"

text \<open>The end that creating and updating share: store, rewrite the helper's file, read back.\<close>

definition put_user_and_reply ::
    "admin_env \<Rightarrow> AdminHandler \<Rightarrow> string \<Rightarrow> AuthUser \<Rightarrow> string \<Rightarrow> nat \<Rightarrow> (nat, nat \<times> adminAuthUserResponse) io" where
  "put_user_and_reply E h path u username status =
     io_bind (or_status statusForStorePutError (users_Put (aOs E) (aUsers E) path u)) (\<lambda>_.
     io_bind (or_status (\<lambda>_. StatusInternalServerError) (regenerateAuthHelperConfig E h path)) (\<lambda>_.
     io_bind (or_status (\<lambda>_. StatusInternalServerError) (users_Get (aOs E) (aUsers E) path username)) (\<lambda>stored.
       io_return (status, newAdminAuthUserResponse stored))))"

definition HandleAdminCreateAuthUser ::
    "admin_env \<Rightarrow> AdminHandler \<Rightarrow> Request \<Rightarrow> adminCreateAuthUserRequest option
      \<Rightarrow> (nat, nat \<times> adminAuthUserResponse) io" where
  "HandleAdminCreateAuthUser E h r body =
     (if \<not> sameOriginAdminRequest E h r then io_fail StatusForbidden
      else case dashboardAuthUserStore h of
        None \<Rightarrow> io_fail StatusServiceUnavailable
      | Some path \<Rightarrow>
          if authHelperConfigPath h = [] then io_fail StatusServiceUnavailable
          else (case body of
            None \<Rightarrow> io_fail StatusBadRequest
          | Some req \<Rightarrow>
              (let u = created_user req in put_user_and_reply E h path u (auUsername u) StatusCreated)))"

record adminUpdateAuthUserRequest =
  uuPassword :: "string option"
  uuEnabled :: "bool option"

definition update_user :: "adminUpdateAuthUserRequest \<Rightarrow> AuthUser \<Rightarrow> AuthUser" where
  "update_user req u =
     u\<lparr>auPassword := (case uuPassword req of None \<Rightarrow> auPassword u | Some v \<Rightarrow> v),
       auEnabled := (case uuEnabled req of None \<Rightarrow> auEnabled u | Some v \<Rightarrow> v)\<rparr>"

definition HandleAdminUpdateAuthUser ::
    "admin_env \<Rightarrow> AdminHandler \<Rightarrow> Request \<Rightarrow> string \<Rightarrow> adminUpdateAuthUserRequest option
      \<Rightarrow> (nat, nat \<times> adminAuthUserResponse) io" where
  "HandleAdminUpdateAuthUser E h r name body =
     (if \<not> sameOriginAdminRequest E h r then io_fail StatusForbidden
      else case dashboardAuthUserStore h of
        None \<Rightarrow> io_fail StatusServiceUnavailable
      | Some path \<Rightarrow>
          if authHelperConfigPath h = [] then io_fail StatusServiceUnavailable
          else let username = TrimSpace name in
            if username = [] then io_fail StatusBadRequest
            else
              io_bind (or_status load_user_error (users_Get (aOs E) (aUsers E) path username)) (\<lambda>u.
                case body of
                  None \<Rightarrow> io_fail StatusBadRequest
                | Some req \<Rightarrow> put_user_and_reply E h path (update_user req u) username StatusOK))"

definition HandleAdminDeleteAuthUser :: "admin_env \<Rightarrow> AdminHandler \<Rightarrow> Request \<Rightarrow> string \<Rightarrow> (nat, nat) io" where
  "HandleAdminDeleteAuthUser E h r name =
     (if \<not> sameOriginAdminRequest E h r then io_fail StatusForbidden
      else case dashboardAuthUserStore h of
        None \<Rightarrow> io_fail StatusServiceUnavailable
      | Some path \<Rightarrow>
          if authHelperConfigPath h = [] then io_fail StatusServiceUnavailable
          else let username = TrimSpace name in
            if username = [] then io_fail StatusBadRequest
            else
              io_bind (or_status load_user_error (users_Get (aOs E) (aUsers E) path username)) (\<lambda>_.
              io_bind (or_status (\<lambda>_. StatusInternalServerError) (users_Delete (aOs E) (aUsers E) path username)) (\<lambda>_.
              io_bind (or_status (\<lambda>_. StatusInternalServerError) (regenerateAuthHelperConfig E h path)) (\<lambda>_.
                io_return StatusNoContent))))"

subsection \<open>Operations that change a part of the disk at most once\<close>

text \<open>
  \<open>keeps v m\<close>: the view \<open>v\<close> of the disk is left alone. \<open>steps v x R m\<close>: where the view is \<open>x\<close>, an
  error leaves it so, and a success leaves a view that satisfies \<open>R\<close>.
\<close>

definition keeps :: "(disk \<Rightarrow> 'x) \<Rightarrow> ('e, 'a) io \<Rightarrow> bool" where
  "keeps v m \<longleftrightarrow> (\<forall>d. v (snd (m d)) = v d)"

definition steps :: "(disk \<Rightarrow> 'x) \<Rightarrow> 'x \<Rightarrow> ('x \<Rightarrow> bool) \<Rightarrow> ('e, 'a) io \<Rightarrow> bool" where
  "steps v x R m \<longleftrightarrow>
     (\<forall>d. v d = x \<longrightarrow> (case m d of (Inl e, d') \<Rightarrow> v d' = x | (Inr a, d') \<Rightarrow> R (v d')))"

named_theorems framed \<open>operations that keep a view, and how they combine\<close>

lemma keeps_return [framed]: "keeps v (io_return x)" by (simp add: keeps_def io_return_def)
lemma keeps_fail [framed]: "keeps v (io_fail e)" by (simp add: keeps_def io_fail_def)
lemma keepsD: "keeps v m \<Longrightarrow> m d = (r, d') \<Longrightarrow> v d' = v d" by (metis keeps_def snd_conv)
lemma keepsI: "(\<And>d r d'. m d = (r, d') \<Longrightarrow> v d' = v d) \<Longrightarrow> keeps v m" by (metis keeps_def surjective_pairing)

lemma keeps_status [framed]: "keeps v m \<Longrightarrow> keeps v (or_status st m)"
  by (rule keepsI) (auto simp: or_status_def dest: keepsD split: prod.splits sum.splits)

lemma keeps_bind [framed]:
  assumes m: "keeps v m" and f: "\<And>x. keeps v (f x)" shows "keeps v (io_bind m f)"
proof -
  have "v (snd (io_bind m f d)) = v d" for d
  proof (cases "m d")
    case (Pair r d')
    then have "v d' = v d" using m unfolding keeps_def by (metis snd_conv)
    then show ?thesis using Pair f unfolding keeps_def by (cases r) (simp_all add: io_bind_def)
  qed
  then show ?thesis by (simp add: keeps_def)
qed

lemma stepsI:
  assumes "\<And>d r d'. v d = x \<Longrightarrow> m d = (r, d') \<Longrightarrow> if isl r then v d' = x else R (v d')" shows "steps v x R m"
  unfolding steps_def
proof (intro allI impI)
  fix d assume d: "v d = x"
  obtain r d' where md: "m d = (r, d')" by (rule prod.exhaust)
  show "case m d of (Inl e, d') \<Rightarrow> v d' = x | (Inr a, d') \<Rightarrow> R (v d')"
    using assms [OF d md] by (cases r) (simp_all add: md)
qed

lemma stepsD: "steps v x R m \<Longrightarrow> v d = x \<Longrightarrow> m d = (r, d') \<Longrightarrow> if isl r then v d' = x else R (v d')"
  unfolding steps_def by (cases r) auto

lemma steps_fail: "steps v x R (io_fail e)" by (simp add: steps_def io_fail_def)

lemma steps_status: "steps v x R m \<Longrightarrow> steps v x R (or_status st m)"
  by (fastforce simp: steps_def or_status_def split: prod.splits sum.splits)

lemma steps_mono: "steps v x R m \<Longrightarrow> (\<And>y. R y \<Longrightarrow> S y) \<Longrightarrow> steps v x S m"
  by (fastforce simp: steps_def split: prod.splits sum.splits)

lemma steps_after:
  assumes m: "keeps v m" and f: "\<And>a d. v d = x \<Longrightarrow> fst (m d) = Inr a \<Longrightarrow> steps v x R (f a)"
  shows "steps v x R (io_bind m f)"
proof (rule stepsI)
  fix d r d' assume d: "v d = x" and run: "io_bind m f d = (r, d')"
  obtain z d1 where md: "m d = (z, d1)" by (rule prod.exhaust)
  then have d1: "v d1 = x" using m d unfolding keeps_def by (metis snd_conv)
  show "if isl r then v d' = x else R (v d')"
  proof (cases z)
    case (Inl e)
    then show ?thesis using run md d1 by (auto simp: io_bind_def)
  next
    case (Inr a)
    then have "f a d1 = (r, d')" "steps v x R (f a)" using run md f [OF d, of a] by (simp_all add: io_bind_def)
    then show ?thesis using stepsD [of v x R "f a" d1 r d'] d1 by blast
  qed
qed

lemma steps_then_return:
  assumes "steps v x R m" shows "steps v x R (io_bind m (\<lambda>a. io_return (g a)))"
proof (rule stepsI)
  fix d r d' assume d: "v d = x" and run: "io_bind m (\<lambda>a. io_return (g a)) d = (r, d')"
  obtain z d1 where md: "m d = (z, d1)" by (rule prod.exhaust)
  then have "d' = d1" "isl r = isl z" using run by (cases z; auto simp: io_bind_def io_return_def)+
  then show "if isl r then v d' = x else R (v d')" using stepsD [OF assms d md] by simp
qed

subsection \<open>Handlers and the entries\<close>

abbreviation entries_of :: "admin_env \<Rightarrow> FileStore \<Rightarrow> disk \<Rightarrow> Entry list option" where
  "entries_of E s \<equiv> stored_entries (aEntries E) (aLower E) s"

lemma entries_nodes: "nodes d' = nodes d \<Longrightarrow> entries_of E s d' = entries_of E s d"
  by (simp add: stored_entries_def read_metadata_def lookup_def)

lemma keeps_nodes: "keeps nodes m \<Longrightarrow> keeps (entries_of E s) m"
  unfolding keeps_def using entries_nodes by blast

lemma keeps_rand [framed]: "keeps nodes (rand_Read Q)"
  by (simp add: keeps_def io_defs Let_def)

lemma keeps_newEntryID [framed]: "keeps nodes (newEntryID Q)"
  unfolding newEntryID_def by (intro framed)

lemma keeps_ListIcons [framed]: "keeps nodes (ListIcons Q C ul s)"
  unfolding keeps_def ListIcons_def by (metis icons_readLocked_exact(1) surjective_pairing)

lemma keeps_icon [framed]: "keeps nodes (normalizeAdminEntryIcon E h v)"
  unfolding normalizeAdminEntryIcon_def Let_def
  by (auto intro!: framed split: option.split)

lemma keeps_Get [framed]: "keeps nodes (store_Get Q C ul s i)"
proof -
  have r: "keeps nodes (readLocked Q C ul s)"
    unfolding keeps_def by (metis readLocked_exact(1) surjective_pairing)
  have "keeps nodes (case get_entry i es of Some e \<Rightarrow> io_return e | None \<Rightarrow> io_fail EntryNotFound)" for es
    by (auto intro: framed split: option.split)
  with r show ?thesis unfolding store_Get_def by (rule keeps_bind)
qed

text \<open>The store, the coder and case conversion behave as the store needs it.\<close>

definition entries_ok :: "admin_env \<Rightarrow> FileStore \<Rightarrow> bool" where
  "entries_ok E s \<longleftrightarrow> store_ok (aOs E) s \<and> case_stable (aLower E) \<and> (\<forall>es. faithful (aEntries E) es)"

definition put_done :: "(string \<Rightarrow> string) \<Rightarrow> Entry list \<Rightarrow> Entry \<Rightarrow> Entry list option \<Rightarrow> bool" where
  "put_done ul es e v \<longleftrightarrow> Validate_entry ul (normalized ul e) = None \<and> (\<exists>t. v = Some (put_entry t (normalized ul e) es))"

lemma Put_steps:
  assumes "entries_ok E s"
  shows "steps (entries_of E s) (Some es) (put_done (aLower E) es e) (store_Put (aOs E) (aEntries E) (aLower E) s e)"
proof (rule stepsI)
  fix d r d' assume "entries_of E s d = Some es" "store_Put (aOs E) (aEntries E) (aLower E) s e d = (r, d')"
  then show "if isl r then entries_of E s d' = Some es else put_done (aLower E) es e (entries_of E s d')"
    using store_Put_list [of "aOs E" s "aLower E" "aEntries E" d es e r d'] assms
    by (cases r) (auto simp: entries_ok_def put_done_def)
qed

lemma Delete_steps:
  assumes "entries_ok E s"
  shows "steps (entries_of E s) (Some es) (\<lambda>v. v = Some (cut_first ID i es)) (store_Delete (aOs E) (aEntries E) (aLower E) s i)"
proof (rule stepsI)
  fix d r d' assume "entries_of E s d = Some es" "store_Delete (aOs E) (aEntries E) (aLower E) s i d = (r, d')"
  then show "if isl r then entries_of E s d' = Some es else entries_of E s d' = Some (cut_first ID i es)"
    using store_Delete_list [of "aOs E" s "aLower E" "aEntries E" d es i r d'] assms
    by (cases r) (auto simp: entries_ok_def)
qed

lemma Get_found:
  assumes "entries_of E s d = Some es" "fst (or_status st (store_Get (aOs E) (aEntries E) (aLower E) s i) d) = Inr e"
  shows "get_entry i es = Some e"
proof -
  obtain y d1 where y: "readLocked (aOs E) (aEntries E) (aLower E) s d = (y, d1)" by (rule prod.exhaust)
  then obtain v where "y = Inr v" "get_entry i v = Some e"
    using assms(2) by (auto simp: or_status_def store_Get_def io_defs split: sum.splits option.splits prod.splits)
  moreover from this have "v = es" using readLocked_exact(2) [OF y] assms(1) by auto
  ultimately show ?thesis by simp
qed

text \<open>Saving an upload and removing it do not touch the entries.\<close>

lemma uploads_apart:
  "store_ok Q s \<Longrightarrow> plain nm \<Longrightarrow> locate (metadataPath s) \<noteq> locate (Join [uploadDir s, nm])"
  using Base_plain by (metis ResolveUpload_def store_ok_def)

lemma keeps_SaveUpload: "store_ok (aOs E) s \<Longrightarrow> keeps (entries_of E s) (SaveUpload (aOs E) s src)"
  unfolding keeps_def
  by (metis SaveUpload_keeps read_metadata_same stored_entries_def surjective_pairing uploads_apart)

lemma keeps_Remove: "store_ok (aOs E) s \<Longrightarrow> keeps (entries_of E s) (os_Remove Q (ResolveUpload s p))"
  unfolding keeps_def stored_entries_def
  using os_Remove_keeps [of "metadataPath s" "ResolveUpload s p"] by (metis read_metadata_same store_ok_def)

lemma keeps_removing:
  "keeps v m \<Longrightarrow> keeps v (os_Remove Q p :: (io_error, unit) io) \<Longrightarrow> keeps v (removing Q p m)"
  unfolding io_ignore_def by (rule keepsI) (auto simp: removing_def io_ignore_def keeps_def [of v "os_Remove Q p"] dest: keepsD split: prod.splits sum.splits)

lemma steps_put_template:
  assumes "entries_ok E s"
  shows "steps (entries_of E s) (Some es) (put_done (aLower E) es e) (put_template E s (ResolveUpload s p) e)"
proof (rule stepsI)
  fix d r d' assume d: "entries_of E s d = Some es" and run: "put_template E s (ResolveUpload s p) e d = (r, d')"
  obtain z d1 where z: "store_Put (aOs E) (aEntries E) (aLower E) s e d = (z, d1)" by (rule prod.exhaust)
  note put = stepsD [OF Put_steps [OF assms] d z]
  have "entries_of E s (snd (os_Remove (aOs E) (ResolveUpload s p) d1)) = entries_of E s d1"
    using keeps_Remove assms unfolding keeps_def entries_ok_def by blast
  then show "if isl r then entries_of E s d' = Some es else put_done (aLower E) es e (entries_of E s d')"
    using run put z by (auto simp: put_template_def split: sum.splits prod.splits io_error.splits)
qed

text \<open>What each handler does to the entries when it succeeds.\<close>

datatype entry_change =
    CreateHost "adminCreateHostEntryRequest option"
  | CreateTemplate "int \<Rightarrow> form option"
  | UpdateEntry string "adminUpdateEntryRequest option"
  | DeleteEntry string

fun entry_request :: "admin_env \<Rightarrow> AdminHandler \<Rightarrow> Request \<Rightarrow> entry_change \<Rightarrow> (nat, nat) io" where
  "entry_request E h r (CreateHost body) = io_bind (HandleAdminCreateHostEntry E h r body) (\<lambda>a. io_return (fst a))"
| "entry_request E h r (CreateTemplate parse) = io_bind (HandleAdminCreateTemplateEntry E h r parse) (\<lambda>a. io_return (fst a))"
| "entry_request E h r (UpdateEntry i body) = io_bind (HandleAdminUpdateEntry E h r i body) (\<lambda>a. io_return (fst a))"
| "entry_request E h r (DeleteEntry i) = HandleAdminDeleteEntry E h r i"

fun entry_result :: "admin_env \<Rightarrow> entry_change \<Rightarrow> Entry list \<Rightarrow> Entry list \<Rightarrow> bool" where
  "entry_result E (CreateHost body) es es' =
     (\<exists>req i icon. body = Some req \<and> put_done (aLower E) es (host_entry req i icon) (Some es'))"
| "entry_result E (CreateTemplate parse) es es' =
     (\<exists>limit f i icon p. parse limit = Some f \<and> put_done (aLower E) es (template_entry (aFold E) f i icon p) (Some es'))"
| "entry_result E (UpdateEntry i body) es es' =
     (\<exists>req e icon. body = Some req \<and> get_entry i es = Some e \<and> put_done (aLower E) es (update_entry icon req e) (Some es'))"
| "entry_result E (DeleteEntry i) es es' = (es' = cut_first ID i es)"

lemma keeps_SaveUpload_status:
  "entries_ok E s \<Longrightarrow> keeps (entries_of E s) (or_status st (SaveUpload (aOs E) s src))"
  by (intro keeps_status keeps_SaveUpload) (simp add: entries_ok_def)

lemma keeps_removing_upload:
  "entries_ok E s \<Longrightarrow> keeps nodes m \<Longrightarrow> keeps (entries_of E s) (removing (aOs E) (ResolveUpload s p) m)"
  by (intro keeps_removing keeps_nodes keeps_Remove) (auto simp: entries_ok_def)

lemma CreateHost_steps:
  assumes ok: "entries_ok E s" and s: "dashboardStore h = Some s"
  shows "steps (entries_of E s) (Some es) (\<lambda>v. \<exists>es'. v = Some es' \<and> entry_result E (CreateHost body) es es')
    (HandleAdminCreateHostEntry E h r body)"
proof (cases "sameOriginAdminRequest E h r \<and> body \<noteq> None")
  case False
  then show ?thesis by (auto simp: HandleAdminCreateHostEntry_def s steps_fail split: option.split)
next
  case True
  then obtain req where req: "body = Some req" by auto
  have put: "steps (entries_of E s) (Some es) (\<lambda>v. \<exists>es'. v = Some es' \<and> entry_result E (CreateHost body) es es')
      (or_status st (store_Put (aOs E) (aEntries E) (aLower E) s (host_entry req i icon)))" for st i icon
    by (intro steps_status steps_mono [OF Put_steps [OF ok]]) (auto simp: req put_done_def)
  show ?thesis
    unfolding HandleAdminCreateHostEntry_def s req option.case Let_def using True
    by (simp only: if_False not_True_eq_False) (intro steps_after keeps_nodes framed steps_then_return put [unfolded req])
qed

lemma UpdateEntry_steps:
  assumes ok: "entries_ok E s" and s: "dashboardStore h = Some s"
  shows "steps (entries_of E s) (Some es) (\<lambda>v. \<exists>es'. v = Some es' \<and> entry_result E (UpdateEntry i body) es es')
    (HandleAdminUpdateEntry E h r i body)"
proof (cases "sameOriginAdminRequest E h r \<and> TrimSpace i \<noteq> []")
  case False
  then show ?thesis by (auto simp: HandleAdminUpdateEntry_def s steps_fail)
next
  case True
  let ?R = "\<lambda>v. \<exists>es'. v = Some es' \<and> entry_result E (UpdateEntry i body) es es'"
  have put: "steps (entries_of E s) (Some es) ?R (or_status st (store_Put (aOs E) (aEntries E) (aLower E) s (update_entry icon req e)))"
    if "get_entry i es = Some e" "body = Some req" for e req icon st
    using that by (intro steps_status steps_mono [OF Put_steps [OF ok]]) (auto simp: put_done_def)
  have icon: "keeps nodes (case urIcon req of None \<Rightarrow> io_return (Icon e) | Some v \<Rightarrow> or_status st (normalizeAdminEntryIcon E h v))" for req e st
    by (auto intro: framed split: option.split)
  have tail: "steps (entries_of E s) (Some es) ?R
      (case body of None \<Rightarrow> io_fail StatusBadRequest
       | Some req \<Rightarrow>
           io_bind (case urIcon req of None \<Rightarrow> io_return (Icon e)
                    | Some v \<Rightarrow> or_status statusForEntryIconError (normalizeAdminEntryIcon E h v)) (\<lambda>entryIcon.
             io_bind (or_status statusForStorePutError (store_Put (aOs E) (aEntries E) (aLower E) s (update_entry entryIcon req e)))
               (\<lambda>_. io_return (StatusOK, newAdminEntryResponse (aLower E) (update_entry entryIcon req e)))))"
    if "get_entry i es = Some e" for e
  proof (cases body)
    case None
    then show ?thesis by (simp add: steps_fail)
  next
    case (Some req)
    show ?thesis
      unfolding Some option.case
      by (intro steps_after keeps_nodes icon steps_then_return put [OF that Some, unfolded Some])
  qed
  show ?thesis
    unfolding HandleAdminUpdateEntry_def s option.case Let_def using True
    by (simp only: if_False not_True_eq_False) (rule steps_after, intro keeps_nodes framed, rule tail, rule Get_found)
qed

lemma DeleteEntry_steps:
  assumes ok: "entries_ok E s" and s: "dashboardStore h = Some s"
  shows "steps (entries_of E s) (Some es) (\<lambda>v. \<exists>es'. v = Some es' \<and> entry_result E (DeleteEntry i) es es')
    (HandleAdminDeleteEntry E h r i)"
proof (cases "sameOriginAdminRequest E h r \<and> TrimSpace i \<noteq> []")
  case False
  then show ?thesis by (auto simp: HandleAdminDeleteEntry_def s steps_fail)
next
  case True
  have "steps (entries_of E s) (Some es) (\<lambda>v. \<exists>es'. v = Some es' \<and> entry_result E (DeleteEntry i) es es')
      (or_status st (store_Delete (aOs E) (aEntries E) (aLower E) s i))" for st
    by (intro steps_status steps_mono [OF Delete_steps [OF ok]]) simp
  then show ?thesis using True unfolding HandleAdminDeleteEntry_def s
    by (simp, intro steps_after keeps_nodes framed steps_then_return) auto
qed

lemma CreateTemplate_steps:
  assumes ok: "entries_ok E s" and s: "dashboardStore h = Some s"
  shows "steps (entries_of E s) (Some es) (\<lambda>v. \<exists>es'. v = Some es' \<and> entry_result E (CreateTemplate parse) es es')
    (HandleAdminCreateTemplateEntry E h r parse)"
proof (cases "\<exists>f filename data rdp. sameOriginAdminRequest E h r \<and> parse (upload_limit h) = Some f
    \<and> fFile f ''template'' = Some (filename, Some data) \<and> ToLower (aLower E) (Ext filename) = ''.rdp''
    \<and> rdp_Unmarshal data = Inr rdp")
  case False
  then have "\<exists>st. HandleAdminCreateTemplateEntry E h r parse = io_fail st"
    unfolding HandleAdminCreateTemplateEntry_def s by (auto split: option.split prod.split sum.split)
  then show ?thesis by (auto simp: steps_fail)
next
  case True
  then obtain f filename data rdp where g: "sameOriginAdminRequest E h r" "parse (upload_limit h) = Some f"
      "fFile f ''template'' = Some (filename, Some data)" "ToLower (aLower E) (Ext filename) = ''.rdp''"
      "rdp_Unmarshal data = Inr rdp" by blast
  have put: "steps (entries_of E s) (Some es) (\<lambda>v. \<exists>es'. v = Some es' \<and> entry_result E (CreateTemplate parse) es es')
      (put_template E s (ResolveUpload s p) (template_entry (aFold E) f i icon p))" for p i icon
  proof (rule steps_mono [OF steps_put_template [OF ok]])
    fix y assume y: "put_done (aLower E) es (template_entry (aFold E) f i icon p) y"
    then obtain es' where "y = Some es'" by (auto simp: put_done_def)
    then show "\<exists>es'. y = Some es' \<and> entry_result E (CreateTemplate parse) es es'" using y g(2) unfolding entry_result.simps by blast
  qed
  show ?thesis
    unfolding HandleAdminCreateTemplateEntry_def s g option.case prod.case sum.case Let_def
    using g(1) by (simp only: simp_thms if_False)
      (intro steps_after keeps_SaveUpload_status keeps_removing_upload framed steps_then_return put ok)
qed


text \<open>An update leaves the identifier, the type and the uploaded file of an entry alone.\<close>

lemma update_entry_keeps:
  "ID (update_entry icon req e) = ID e" "Type (update_entry icon req e) = Type e"
  "UploadedTemplatePath (update_entry icon req e) = UploadedTemplatePath e"
  "CreatedAt (update_entry icon req e) = CreatedAt e"
  by (simp_all add: update_entry_def)

text \<open>An icon that the handlers accept is one of the built-in ones or an icon of the icon store.\<close>

lemma normalizeAdminEntryIcon_known:
  assumes "normalizeAdminEntryIcon E h v d = (Inr icon, d')"
  shows "icon = NormalizeEntryIcon (aLower E) v \<and> nodes d' = nodes d
    \<and> (\<forall>i. UploadedEntryIconID (aLower E) icon = Some i \<longrightarrow>
         (\<exists>s icons. dashboardIconStore h = Some s \<and> stored_icons (aIcons E) (aLower E) s d = Some icons \<and> i \<in> icID ` set icons))"
proof -
  have n: "nodes d' = nodes d" using keepsD [OF keeps_icon assms] .
  have icon: "icon = NormalizeEntryIcon (aLower E) v"
    using assms by (auto simp: normalizeAdminEntryIcon_def Let_def io_defs split: option.splits prod.splits sum.splits if_splits)
  have "\<exists>s icons. dashboardIconStore h = Some s \<and> stored_icons (aIcons E) (aLower E) s d = Some icons \<and> i \<in> icID ` set icons"
    if i: "UploadedEntryIconID (aLower E) icon = Some i" for i
  proof -
    obtain s where s: "dashboardIconStore h = Some s"
      using assms i icon by (cases "dashboardIconStore h") (auto simp: normalizeAdminEntryIcon_def Let_def io_defs)
    obtain y d1 where y: "icons_readLocked (aOs E) (aIcons E) (aLower E) s d = (y, d1)" by (rule prod.exhaust)
    obtain icons where icons: "y = Inr icons" "list_ex (\<lambda>x. icID x = i) icons"
      using assms i icon s y by (cases y) (auto simp: normalizeAdminEntryIcon_def ListIcons_def Let_def io_defs split: if_splits)
    then show ?thesis using s icons_readLocked_exact(2) [OF y icons(1)] by (auto simp: list_ex_iff)
  qed
  then show ?thesis using n icon by blast
qed

subsection \<open>Users and the configuration of the helper\<close>

abbreviation users_of :: "admin_env \<Rightarrow> string \<Rightarrow> disk \<Rightarrow> AuthUser list option" where
  "users_of E path \<equiv> read_metadata (aUsers E) path"

text \<open>The two files and the temporary ones beside them are different files; the coder is faithful.\<close>

definition helper_ok :: "admin_env \<Rightarrow> AdminHandler \<Rightarrow> string \<Rightarrow> bool" where
  "helper_ok E h path \<longleftrightarrow>
     users_ok (aOs E) path \<and> locate (authHelperConfigPath h) \<noteq> locate path
     \<and> (\<forall>t. locate (temp_of (aOs E) (authHelperConfigPath h) ''auth-helper-'' ''.tmp'' t)
              \<notin> {locate (authHelperConfigPath h), locate path})
     \<and> (\<forall>t. locate (temp_of (aOs E) path ''json-'' ''.tmp'' t) \<noteq> locate (authHelperConfigPath h))
     \<and> (\<forall>us. faithful (aUsers E) us)"

text \<open>The helper's file holds exactly the enabled users of the list.\<close>

definition synced :: "admin_env \<Rightarrow> AdminHandler \<Rightarrow> AuthUser list \<Rightarrow> disk \<Rightarrow> bool" where
  "synced E h us d \<longleftrightarrow>
     (\<exists>data. aYaml E (helper_users us) = Some data \<and> lookup d (authHelperConfigPath h) = Some (File data))"

lemma users_read:
  assumes "readJSONFile Q C path [] d = (y, d1)" "read_metadata C path d = Some us"
  shows "nodes d1 = nodes d" "y = Inr v \<Longrightarrow> v = us"
  using readJSONFile_exact [OF assms(1)] assms(2) by auto

lemma regenerate_exact:
  assumes ok: "helper_ok E h path" and us: "users_of E path d = Some us" and run: "regenerateAuthHelperConfig E h path d = (r, d')"
  shows "users_of E path d' = Some us"
    "if isl r then lookup d' (authHelperConfigPath h) = lookup d (authHelperConfigPath h) else synced E h us d'"
proof -
  obtain y d1 where y: "readJSONFile (aOs E) (aUsers E) path [] d = (y, d1)" by (rule prod.exhaust)
  have d1: "lookup d1 q = lookup d q" for q using users_read(1) [OF y us] by (rule lookup_nodes)
  have "users_of E path d' = Some us
      \<and> (if isl r then lookup d' (authHelperConfigPath h) = lookup d (authHelperConfigPath h) else synced E h us d')"
  proof (cases y)
    case (Inl e)
    then have "r = Inl e" "d' = d1"
      using run y by (auto simp: regenerateAuthHelperConfig_def users_List_def users_readLocked_def io_bind_def)
    then show ?thesis using us d1 by (simp add: read_metadata_def)
  next
    case (Inr v)
    then have "WriteAuthHelperConfig (aOs E) (aYaml E) (authHelperConfigPath h) us d1 = (r, d')"
      using run y users_read(2) [OF y us Inr]
      by (simp add: regenerateAuthHelperConfig_def users_List_def users_readLocked_def io_bind_def)
    note w = WriteAuthHelperConfig_exact [OF this]
    have tmp: "\<forall>t. locate (temp_of (aOs E) (authHelperConfigPath h) ''auth-helper-'' ''.tmp'' t) \<noteq> locate (authHelperConfigPath h)"
      and other: "\<forall>t. locate path \<noteq> locate (temp_of (aOs E) (authHelperConfigPath h) ''auth-helper-'' ''.tmp'' t)"
        "locate path \<noteq> locate (authHelperConfigPath h)"
      using ok unfolding helper_ok_def by (blast, metis insertCI, metis)
    have "r = Inr () \<Longrightarrow> aYaml E (helper_users us) \<noteq> None"
      using \<open>WriteAuthHelperConfig (aOs E) (aYaml E) (authHelperConfigPath h) us d1 = (r, d')\<close>
      by (auto simp: WriteAuthHelperConfig_def io_bind_def io_fail_def split: sum.splits prod.splits option.splits)
    then show ?thesis
      using w(1) [OF tmp] w(2) [OF tmp other] us d1 by (cases r) (auto simp: read_metadata_def synced_def)
  qed
  then show "users_of E path d' = Some us"
    "if isl r then lookup d' (authHelperConfigPath h) = lookup d (authHelperConfigPath h) else synced E h us d'" by simp_all
qed

lemma or_statusD: "or_status st m d = (r, d') \<Longrightarrow> \<exists>r'. m d = (r', d') \<and> isl r = isl r' \<and> (\<forall>x. r = Inr x \<longleftrightarrow> r' = Inr x)"
  by (auto simp: or_status_def split: prod.splits sum.splits)

lemma users_Get_keeps:
  assumes run: "users_Get Q C path n d = (r, d')"
  shows "nodes d' = nodes d" "read_metadata C path d = Some us \<Longrightarrow> r = Inr u \<Longrightarrow> get_user n us = Some u"
proof -
  obtain y d1 where y: "readJSONFile Q C path [] d = (y, d1)" by (rule prod.exhaust)
  have d1: "d' = d1" using run y by (auto simp: users_Get_def users_readLocked_def io_defs split: sum.splits option.splits)
  then show "nodes d' = nodes d" using readJSONFile_exact(1) [OF y] by simp
  assume us: "read_metadata C path d = Some us" and "r = Inr u"
  then obtain v where "y = Inr v" "get_user n v = Some u"
    using run y by (auto simp: users_Get_def users_readLocked_def io_defs split: sum.splits option.splits)
  then show "get_user n us = Some u" using users_read(2) [OF y us] by simp
qed

text \<open>The common end of creating and updating.\<close>

definition user_put :: "AuthUser \<Rightarrow> AuthUser list \<Rightarrow> AuthUser list \<Rightarrow> bool" where
  "user_put u us us' \<longleftrightarrow> validateAuthUser u = None \<and> (\<exists>t. us' = put_user t u us)"

lemma put_user_and_reply_effect:
  assumes ok: "helper_ok E h path" and us: "users_of E path d = Some us"
    and run: "put_user_and_reply E h path u n st d = (res, d')"
  shows "\<exists>us'. users_of E path d' = Some us' \<and> (us' = us \<or> user_put u us us')
     \<and> (\<not> isl res \<longrightarrow> user_put u us us' \<and> synced E h us' d')"
proof -
  obtain z d1 where put: "users_Put (aOs E) (aUsers E) path u d = (z, d1)" by (rule prod.exhaust)
  have "users_ok (aOs E) path" "\<forall>t. faithful (aUsers E) (put_user t u us)" using ok by (auto simp: helper_ok_def)
  note p = users_Put_list [OF this(1) us this(2) put]
  show ?thesis
  proof (cases z)
    case (Inl e)
    then have "isl res" "d' = d1" using run put by (auto simp: put_user_and_reply_def or_status_def io_bind_def)
    then show ?thesis using p Inl by auto
  next
    case (Inr x)
    then obtain us' where us': "users_of E path d1 = Some us'" "user_put u us us'" using p by (auto simp: user_put_def)
    obtain w d2 where w: "regenerateAuthHelperConfig E h path d1 = (w, d2)" by (rule prod.exhaust)
    note g = regenerate_exact [OF ok us'(1) w]
    show ?thesis
    proof (cases w)
      case (Inl e)
      then have "isl res" "d' = d2" using run put Inr w by (auto simp: put_user_and_reply_def or_status_def io_bind_def)
      then show ?thesis using us' g by auto
    next
      case w2: (Inr y)
      obtain a d3 where a: "users_Get (aOs E) (aUsers E) path n d2 = (a, d3)" by (rule prod.exhaust)
      have "d' = d3" using run put Inr w w2 a by (auto simp: put_user_and_reply_def or_status_def io_defs split: sum.splits)
      then have "users_of E path d' = Some us'" "synced E h us' d'"
        using g w2 users_Get_keeps(1) [OF a] by (auto simp: synced_def read_metadata_def lookup_def)
      then show ?thesis using us' by blast
    qed
  qed
qed

datatype user_change =
    CreateUser "adminCreateAuthUserRequest option"
  | UpdateUser string "adminUpdateAuthUserRequest option"
  | DeleteUser string

fun user_request :: "admin_env \<Rightarrow> AdminHandler \<Rightarrow> Request \<Rightarrow> user_change \<Rightarrow> (nat, nat) io" where
  "user_request E h r (CreateUser body) = io_bind (HandleAdminCreateAuthUser E h r body) (\<lambda>a. io_return (fst a))"
| "user_request E h r (UpdateUser n body) = io_bind (HandleAdminUpdateAuthUser E h r n body) (\<lambda>a. io_return (fst a))"
| "user_request E h r (DeleteUser n) = HandleAdminDeleteAuthUser E h r n"

fun user_result :: "user_change \<Rightarrow> AuthUser list \<Rightarrow> AuthUser list \<Rightarrow> bool" where
  "user_result (CreateUser body) us us' = (\<exists>req. body = Some req \<and> user_put (created_user req) us us')"
| "user_result (UpdateUser n body) us us' =
     (\<exists>req u. body = Some req \<and> get_user (TrimSpace n) us = Some u \<and> user_put (update_user req u) us us')"
| "user_result (DeleteUser n) us us' = (get_user (TrimSpace n) us \<noteq> None \<and> us' = cut_first auUsername (TrimSpace n) us)"

definition user_effect :: "admin_env \<Rightarrow> AdminHandler \<Rightarrow> string \<Rightarrow> user_change \<Rightarrow> AuthUser list \<Rightarrow> bool \<Rightarrow> disk \<Rightarrow> bool" where
  "user_effect E h path c us failed d' \<longleftrightarrow>
     (\<exists>us'. users_of E path d' = Some us' \<and> (us' = us \<or> user_result c us us')
        \<and> (\<not> failed \<longrightarrow> user_result c us us' \<and> synced E h us' d'))"

lemma user_effect_same: "users_of E path d' = Some us \<Longrightarrow> user_effect E h path c us True d'"
  by (simp add: user_effect_def)

lemma users_of_nodes: "nodes d' = nodes d \<Longrightarrow> users_of E path d = Some us \<Longrightarrow> users_of E path d' = Some us"
  by (simp add: read_metadata_def lookup_def)

lemma fst_return: "io_bind m (\<lambda>a. io_return (fst a)) d = (r, d') \<Longrightarrow> \<exists>r'. m d = (r', d') \<and> isl r' = isl r"
  by (auto simp: io_bind_def io_return_def split: prod.splits sum.splits)

lemma CreateUser_effect:
  assumes ok: "helper_ok E h path" and p: "dashboardAuthUserStore h = Some path" and us: "users_of E path d = Some us"
    and run: "HandleAdminCreateAuthUser E h r body d = (res, d')"
  shows "user_effect E h path (CreateUser body) us (isl res) d'"
proof (cases "sameOriginAdminRequest E h r \<and> authHelperConfigPath h \<noteq> [] \<and> body \<noteq> None")
  case False
  then have "isl res" "d' = d" using run p by (auto simp: HandleAdminCreateAuthUser_def io_fail_def split: if_splits)
  then show ?thesis using us by (simp add: user_effect_same)
next
  case True
  then obtain req where req: "body = Some req" by auto
  then have "put_user_and_reply E h path (created_user req) (auUsername (created_user req)) StatusCreated d = (res, d')"
    using run True p by (simp add: HandleAdminCreateAuthUser_def Let_def)
  from put_user_and_reply_effect [OF ok us this] show ?thesis by (auto simp: user_effect_def req)
qed

lemma UpdateUser_effect:
  assumes ok: "helper_ok E h path" and p: "dashboardAuthUserStore h = Some path" and us: "users_of E path d = Some us"
    and run: "HandleAdminUpdateAuthUser E h r n body d = (res, d')"
  shows "user_effect E h path (UpdateUser n body) us (isl res) d'"
proof (cases "sameOriginAdminRequest E h r \<and> authHelperConfigPath h \<noteq> [] \<and> TrimSpace n \<noteq> []")
  case False
  then have "isl res" "d' = d" using run p by (auto simp: HandleAdminUpdateAuthUser_def io_fail_def Let_def split: if_splits)
  then show ?thesis using us by (simp add: user_effect_same)
next
  case True
  obtain z d1 where g: "users_Get (aOs E) (aUsers E) path (TrimSpace n) d = (z, d1)" by (rule prod.exhaust)
  have us1: "users_of E path d1 = Some us" by (rule users_of_nodes [OF users_Get_keeps(1) [OF g] us])
  show ?thesis
  proof (cases "isl z \<or> body = None")
    case True': True
    then have "isl res" "d' = d1"
      using run True p g by (auto simp: HandleAdminUpdateAuthUser_def or_status_def io_bind_def io_fail_def Let_def split: sum.splits)
    then show ?thesis using us1 by (simp add: user_effect_same)
  next
    case False
    then obtain u req where u: "z = Inr u" "body = Some req" by (cases z) auto
    then have "put_user_and_reply E h path (update_user req u) (TrimSpace n) StatusOK d1 = (res, d')"
      using run True p g by (simp add: HandleAdminUpdateAuthUser_def or_status_def io_bind_def Let_def)
    from put_user_and_reply_effect [OF ok us1 this] show ?thesis
      using u users_Get_keeps(2) [OF g us u(1)] by (auto simp: user_effect_def)
  qed
qed

lemma DeleteUser_effect:
  assumes ok: "helper_ok E h path" and p: "dashboardAuthUserStore h = Some path" and us: "users_of E path d = Some us"
    and run: "HandleAdminDeleteAuthUser E h r n d = (res, d')"
  shows "user_effect E h path (DeleteUser n) us (isl res) d'"
proof (cases "sameOriginAdminRequest E h r \<and> authHelperConfigPath h \<noteq> [] \<and> TrimSpace n \<noteq> []")
  case False
  then have "isl res" "d' = d" using run p by (auto simp: HandleAdminDeleteAuthUser_def io_fail_def Let_def split: if_splits)
  then show ?thesis using us by (simp add: user_effect_same)
next
  case True
  let ?us = "cut_first auUsername (TrimSpace n) us"
  obtain z d1 where g: "users_Get (aOs E) (aUsers E) path (TrimSpace n) d = (z, d1)" by (rule prod.exhaust)
  have us1: "users_of E path d1 = Some us" by (rule users_of_nodes [OF users_Get_keeps(1) [OF g] us])
  obtain y d2 where del: "users_Delete (aOs E) (aUsers E) path (TrimSpace n) d1 = (y, d2)" by (rule prod.exhaust)
  have us2: "users_of E path d2 = Some (if y = Inr () then ?us else us)"
    using ok us1 del by (intro users_Delete_list) (auto simp: helper_ok_def)
  obtain w d3 where w: "regenerateAuthHelperConfig E h path d2 = (w, d3)" by (rule prod.exhaust)
  note done3 = regenerate_exact [OF ok us2 w]
  have run': "res = (if isl z then Inl (load_user_error (projl z)) else if isl y \<or> isl w then Inl StatusInternalServerError
      else Inr StatusNoContent)" "d' = (if isl z then d1 else if isl y then d2 else d3)"
    using run True p g del w
    by (auto simp: HandleAdminDeleteAuthUser_def or_status_def io_bind_def io_return_def Let_def split: sum.splits)
  show ?thesis
  proof (cases "isl z")
    case True
    then show ?thesis using run' us1 by (simp add: user_effect_same)
  next
    case False
    then obtain u where u: "z = Inr u" by (cases z) auto
    have found: "get_user (TrimSpace n) us \<noteq> None" using users_Get_keeps(2) [OF g us u] by simp
    show ?thesis
    proof (cases y)
      case (Inl e)
      then show ?thesis using run' us2 u by (simp add: user_effect_same)
    next
      case (Inr a)
      then show ?thesis using run' done3 found u by (auto simp: user_effect_def)
    qed
  qed
qed

lemma user_request_effect:
  assumes ok: "helper_ok E h path" and p: "dashboardAuthUserStore h = Some path" and us: "users_of E path d = Some us"
    and run: "user_request E h r c d = (res, d')"
  shows "user_effect E h path c us (isl res) d'"
  using CreateUser_effect [OF ok p us] UpdateUser_effect [OF ok p us] DeleteUser_effect [OF ok p us] run
  by (cases c) (auto dest!: fst_return, metis+)

text \<open>
  After an administration request for users that succeeds, the list of users is the one the
  request asks for, and the configuration of the authentication helper holds exactly its enabled
  users. A request that fails leaves the list as it was or as it asked for it.
\<close>

theorem user_requests_synced:
  assumes "helper_ok E h path" "dashboardAuthUserStore h = Some path" "users_of E path d = Some us"
    and "user_request E h r c d = (res, d')"
  shows "\<exists>us'. users_of E path d' = Some us' \<and> (us' = us \<or> user_result c us us')
     \<and> (\<not> isl res \<longrightarrow> user_result c us us' \<and> synced E h us' d')"
  using user_request_effect [OF assms] by (simp add: user_effect_def)

subsection \<open>A deletion that fails half-way\<close>

lemma users_Delete_keeps:
  assumes run: "users_Delete Q C path n d = (r, d')" and q: "locate q \<noteq> locate path"
    and tmp: "\<forall>t. locate (temp_of Q path ''json-'' ''.tmp'' t) \<notin> {locate q, locate path}"
  shows "lookup d' q = lookup d q"
proof -
  obtain y d1 where y: "readJSONFile Q C path [] d = (y, d1)" by (rule prod.exhaust)
  have d1: "lookup d1 q = lookup d q" by (rule lookup_nodes [OF readJSONFile_exact(1) [OF y]])
  consider "d' = d1" | data where "writeFileAtomic Q path data ''json-'' ''.tmp'' d1 = (r, d')"
    using run y by (auto simp: users_Delete_def users_readLocked_def writeJSONAtomic_def io_bind_def io_return_def io_fail_def
        split: sum.splits option.splits)
  then show ?thesis
  proof cases
    case 1
    then show ?thesis using d1 by simp
  next
    case 2
    have t: "locate (temp_of Q path ''json-'' ''.tmp'' (ticks d1)) \<noteq> locate path"
        "locate q \<noteq> locate (temp_of Q path ''json-'' ''.tmp'' (ticks d1))"
      using tmp by (simp, metis insertCI)
    have "lookup d' q = lookup d1 q" using writeFileAtomic_effect [OF 2 t] q by simp
    then show ?thesis using d1 by simp
  qed
qed

lemma delete_missing_user:
  assumes p: "dashboardAuthUserStore h = Some path" and us: "users_of E path d = Some us" "get_user (TrimSpace n) us = None"
    and run: "HandleAdminDeleteAuthUser E h r n d = (res, d')"
  shows "isl res \<and> nodes d' = nodes d"
proof (cases "sameOriginAdminRequest E h r \<and> authHelperConfigPath h \<noteq> [] \<and> TrimSpace n \<noteq> []")
  case False
  then show ?thesis using run p by (auto simp: HandleAdminDeleteAuthUser_def io_fail_def Let_def split: if_splits)
next
  case True
  obtain z d1 where g: "users_Get (aOs E) (aUsers E) path (TrimSpace n) d = (z, d1)" by (rule prod.exhaust)
  have "isl z" using users_Get_keeps(2) [OF g us(1)] us(2) by (cases z) auto
  then show ?thesis
    using run True p g users_Get_keeps(1) [OF g]
    by (auto simp: HandleAdminDeleteAuthUser_def or_status_def io_bind_def Let_def split: sum.splits)
qed

lemma failed_delete_keeps_helper:
  assumes ok: "helper_ok E h path" and p: "dashboardAuthUserStore h = Some path" and us: "users_of E path d = Some us"
    and run: "HandleAdminDeleteAuthUser E h r n d = (res, d')" and failed: "isl res"
  shows "lookup d' (authHelperConfigPath h) = lookup d (authHelperConfigPath h)"
proof (cases "sameOriginAdminRequest E h r \<and> authHelperConfigPath h \<noteq> [] \<and> TrimSpace n \<noteq> []")
  case False
  then have "d' = d" using run p by (auto simp: HandleAdminDeleteAuthUser_def io_fail_def Let_def split: if_splits)
  then show ?thesis by simp
next
  case True
  let ?q = "authHelperConfigPath h"
  obtain z d1 where g: "users_Get (aOs E) (aUsers E) path (TrimSpace n) d = (z, d1)" by (rule prod.exhaust)
  have d1: "lookup d1 ?q = lookup d ?q" by (rule lookup_nodes [OF users_Get_keeps(1) [OF g]])
  obtain y d2 where del: "users_Delete (aOs E) (aUsers E) path (TrimSpace n) d1 = (y, d2)" by (rule prod.exhaust)
  have d2: "lookup d2 ?q = lookup d1 ?q"
    using ok by (intro users_Delete_keeps [OF del]) (auto simp: helper_ok_def users_ok_def)
  have "users_of E path d2 \<noteq> None"
    using users_Delete_list [OF _ users_of_nodes [OF users_Get_keeps(1) [OF g] us] _ del] ok by (auto simp: helper_ok_def)
  then obtain us2 where us2: "users_of E path d2 = Some us2" by auto
  obtain w d3 where w: "regenerateAuthHelperConfig E h path d2 = (w, d3)" by (rule prod.exhaust)
  note g3 = regenerate_exact(2) [OF ok us2 w]
  consider "d' = d1" | "d' = d2" | "d' = d3" "isl w"
    using run True p g del w failed
    by (auto simp: HandleAdminDeleteAuthUser_def or_status_def io_bind_def io_return_def Let_def split: sum.splits)
  then show ?thesis using d1 d2 g3 by cases simp_all
qed

text \<open>
  C35: A deletion of a user that answers an error leaves the helper's configuration as it was, even
  when the user is already gone from the list. In that case no repetition of the request can
  bring the two together: it answers an error and changes nothing, so the deleted user can still
  log in until another user is changed.
\<close>

theorem deleted_user_lingers:
  assumes "helper_ok E h path" "dashboardAuthUserStore h = Some path" "users_of E path d = Some us"
    and "HandleAdminDeleteAuthUser E h r n d = (res, d1)" "isl res"
  shows "lookup d1 (authHelperConfigPath h) = lookup d (authHelperConfigPath h)
    \<and> (\<forall>E' r' res' d2 us1. users_of E' path d1 = Some us1 \<longrightarrow> get_user (TrimSpace n) us1 = None
         \<longrightarrow> HandleAdminDeleteAuthUser E' h r' n d1 = (res', d2) \<longrightarrow> isl res' \<and> nodes d2 = nodes d1)"
  using failed_delete_keeps_helper [OF assms] delete_missing_user [OF assms(2)] by blast

subsection \<open>A dashboard with one entry and one user\<close>

definition window_entry :: Entry where "window_entry = demo_entry\<lparr>Icon := ''window''\<rparr>"

definition demo_bob :: AuthUser where
  "demo_bob = \<lparr>auUsername = ''bob'', auPassword = ''pw'', auEnabled = True, auCreatedAt = 1, auUpdatedAt = 1\<rparr>"

text \<open>Coders that can write the empty list only.\<close>

definition empty_codec :: "'a \<Rightarrow> 'a list codec" where
  "empty_codec x = \<lparr>enc = (\<lambda>xs. if xs = [] then Some ''[]'' else None), dec = (\<lambda>s. Some (if s = ''[]'' then [] else [x]))\<rparr>"

definition demo_env :: "os \<Rightarrow> admin_env" where
  "demo_env Q =
     \<lparr>aOs = Q, aEntries = empty_codec window_entry, aUsers = empty_codec demo_bob,
      aIcons = \<lparr>enc = (\<lambda>is. None), dec = (\<lambda>s. None)\<rparr>, aYaml = (\<lambda>us. Some (concat (map huUsername us))),
      aLower = (\<lambda>s. []), aParse = (\<lambda>s. Some \<lparr>uScheme = ''https'', uHost = ''gw''\<rparr>), aFold = (\<lambda>s t. False), aFormat = (\<lambda>s. None)\<rparr>"

definition demo_admin :: AdminHandler where
  "demo_admin = (Handler.extend sample_handler (AdminHandler.fields [''staff''] (Some ''users'') None 0 ''helper'' None))
     \<lparr>dashboardStore := Some demo_store\<rparr>"

definition demo_request :: Request where
  "demo_request = sample_get\<lparr>rHeader := (\<lambda>k. if k = ''Origin'' then [''https://gw''] else [])\<rparr>"

definition users_disk :: disk where
  "users_disk = \<lparr>nodes = [((False, [''users'']), File ''x''), ((False, [''helper'']), File ''bob'')], ticks = 0\<rparr>"

text \<open>The tenth call fails: the one that prepares the directory of the helper's file.\<close>

definition flaky :: os where "flaky = calm\<lparr>os_fault := (\<lambda>t. t = 9)\<rparr>"

lemma demo_env_simps [simp]:
  "aOs (demo_env Q) = Q" "aEntries (demo_env Q) = empty_codec window_entry" "aUsers (demo_env Q) = empty_codec demo_bob"
  "aYaml (demo_env Q) us = Some (concat (map huUsername us))" "aLower (demo_env Q) = (\<lambda>s. [])"
  by (simp_all add: demo_env_def)

lemma demo_admin_simps [simp]:
  "dashboardStore demo_admin = Some demo_store" "dashboardAuthUserStore demo_admin = Some ''users''"
  "authHelperConfigPath demo_admin = ''helper''" "gatewayAddress demo_admin = None"
  by (simp_all add: demo_admin_def sample_handler_def Handler.defs AdminHandler.defs)

lemma empty_codec_faithful: "faithful (empty_codec x) xs"
  by (simp add: faithful_def empty_codec_def)

lemma demo_same_origin: "sameOriginAdminRequest (demo_env Q) demo_admin demo_request"
proof -
  have "TrimSpace ''https://gw'' = ''https://gw''" by (simp add: TrimSpace_ascii is_ascii_def ascii_space_def)
  then show ?thesis
    by (simp add: sameOriginAdminRequest_def requestOriginURL_def sameOriginAllowed_def admin_sameOriginHost_def Header_Get_def
        demo_request_def sample_get_def demo_env_def is_ascii_def EqualFold_def ascii_lower_def Let_def)
qed

lemma demo_entries_ok: "entries_ok (demo_env calm) demo_store"
  using demo_store_ok demo_lower(1) by (simp add: entries_ok_def empty_codec_faithful)

lemma write_metadata_succeeds:
  assumes "\<And>t. t < ticks d + 5 \<Longrightarrow> \<not> os_fault Q t" "enc C v = Some data"
    and "lookup d (temp_of Q path pre ''.tmp'' (ticks d)) = None" "lookup d path \<noteq> Some Dir"
    and "locate path \<noteq> locate (temp_of Q path pre ''.tmp'' (ticks d))"
  shows "\<exists>d'. write_metadata Q C path pre v d = (Inr (), d') \<and> ticks d' = ticks d + 5"
  using assms by (simp add: write_metadata_def io_defs temp_of_def Let_def)

lemma writeFileAtomic_succeeds:
  assumes "\<And>t. t < ticks d + 6 \<Longrightarrow> \<not> os_fault Q t"
    and "lookup d (temp_of Q path pre suf (ticks d)) = None" "lookup d path \<noteq> Some Dir"
    and "locate path \<noteq> locate (temp_of Q path pre suf (ticks d))"
  shows "\<exists>d'. writeFileAtomic Q path data pre suf d = (Inr (), d') \<and> ticks d' = ticks d + 6"
  using assms by (simp add: writeFileAtomic_def io_defs temp_of_def Let_def)

lemma demo_deleted:
  "\<exists>d'. store_Delete calm (empty_codec window_entry) (\<lambda>s. []) demo_store ''1'' (demo_disk\<lparr>ticks := 1\<rparr>) = (Inr (), d')"
proof -
  let ?d = "demo_disk\<lparr>ticks := Suc (Suc 0)\<rparr>"
  have "locate ''m'' = (False, [''m''])" by (simp add: locate_plain plain_def)
  moreover have "locate (temp_of calm ''m'' ''entries-'' ''.tmp'' (ticks ?d)) = (False, [''entries-1.tmp''])"
    by (simp add: temp_of_def Dir_of_def Clean_def locate_def HasPrefix_def path_step_def)
  ultimately obtain d' where "write_metadata calm (empty_codec window_entry) ''m'' ''entries-'' [] ?d = (Inr (), d')"
    using write_metadata_succeeds [of ?d calm "empty_codec window_entry" "[]" "''[]''" "''m''" "''entries-''"]
    by (auto simp: empty_codec_def lookup_def demo_disk_def)
  then show ?thesis
    by (simp add: store_Delete_def readLocked_def writeLocked_def drop_upload_def io_defs lookup_def demo_disk_def demo_store_def
        locate_plain plain_def get_entry_def empty_codec_def window_entry_def demo_entry_def demo_normalized [unfolded demo_entry_def]
        normalized_def Let_def)
qed

lemma demo_delete_run:
  "\<exists>d'. entry_request (demo_env calm) demo_admin demo_request (DeleteEntry ''1'') demo_disk = (Inr 204, d')"
proof -
  have "store_Get calm (empty_codec window_entry) (\<lambda>s. []) demo_store ''1'' demo_disk = (Inr window_entry, demo_disk\<lparr>ticks := 1\<rparr>)"
    using demo_file demo_normalized
    by (simp add: store_Get_def readLocked_def io_defs empty_codec_def get_entry_def window_entry_def Let_def)
      (simp add: demo_entry_def demo_disk_def)
  then show ?thesis
    using demo_deleted
    by (auto simp: HandleAdminDeleteEntry_def demo_same_origin or_status_def io_defs status_defs)
qed


lemma demo_locations:
  "locate ''users'' = (False, [''users''])" "locate ''helper'' = (False, [''helper''])"
  "locate ''./json-1.tmp'' = (False, [''json-1.tmp''])" "locate ''./auth-helper-1.tmp'' = (False, [''auth-helper-1.tmp''])"
  by (simp_all add: locate_def HasPrefix_def path_step_def)

lemma demo_temps:
  assumes "os_temp Q = (\<lambda>t. ''1'')"
  shows "temp_of Q ''users'' ''json-'' ''.tmp'' t = ''./json-1.tmp''"
    "temp_of Q ''helper'' ''auth-helper-'' ''.tmp'' t = ''./auth-helper-1.tmp''"
  using assms by (simp_all add: temp_of_def Dir_of_def Clean_def locate_def HasPrefix_def path_step_def)

lemma demo_helper_ok:
  "os_temp Q = (\<lambda>t. ''1'') \<Longrightarrow> helper_ok (demo_env Q) demo_admin ''users''"
  by (simp add: helper_ok_def users_ok_def demo_temps demo_locations empty_codec_faithful)

lemma users_there: "users_of (demo_env Q) ''users'' users_disk = Some [demo_bob]"
  by (simp add: read_metadata_def lookup_def demo_locations users_disk_def empty_codec_def)

text \<open>Reading and deleting bob takes eight calls and leaves an empty list.\<close>

lemma bob_deleted:
  assumes calm8: "\<And>t. t < 8 \<Longrightarrow> \<not> os_fault Q t" and "os_temp Q = (\<lambda>t. ''1'')"
  shows "\<exists>d1 d2. users_Get Q (empty_codec demo_bob) ''users'' ''bob'' users_disk = (Inr demo_bob, d1)
    \<and> users_Delete Q (empty_codec demo_bob) ''users'' ''bob'' d1 = (Inr (), d2)
    \<and> ticks d2 = 8 \<and> users_of (demo_env Q) ''users'' d2 = Some [] \<and> lookup d2 ''./auth-helper-1.tmp'' = None
    \<and> lookup d2 ''helper'' = Some (File ''bob'')"
proof -
  let ?d1 = "users_disk\<lparr>ticks := 1\<rparr>" and ?d2 = "users_disk\<lparr>ticks := 2\<rparr>" and ?C = "empty_codec demo_bob"
  have look: "lookup (users_disk\<lparr>ticks := k\<rparr>) ''users'' = Some (File ''x'')" "lookup (users_disk\<lparr>ticks := k\<rparr>) ''./json-1.tmp'' = None"
      "lookup (users_disk\<lparr>ticks := k\<rparr>) ''helper'' = Some (File ''bob'')" "lookup (users_disk\<lparr>ticks := k\<rparr>) ''./auth-helper-1.tmp'' = None" for k
    by (simp_all add: lookup_def users_disk_def demo_locations)
  have nofault: "\<not> os_fault Q 0" "\<not> os_fault Q (Suc 0)" using calm8 [of 0] calm8 [of "Suc 0"] by simp_all
  have t0: "ticks users_disk = 0" by (simp add: users_disk_def)
  have rd: "readJSONFile Q ?C ''users'' [] (users_disk\<lparr>ticks := k\<rparr>) = (Inr [demo_bob], users_disk\<lparr>ticks := Suc k\<rparr>)" if "k < 2" for k
    using nofault that look by (auto simp: readJSONFile_def io_defs empty_codec_def Let_def less_Suc_eq numeral_2_eq_2)
  have get: "users_Get Q ?C ''users'' ''bob'' users_disk = (Inr demo_bob, ?d1)"
    using rd [of 0] t0 by (simp add: users_Get_def users_readLocked_def io_bind_def io_return_def get_user_def demo_bob_def users_disk_def)
  obtain d2 where w: "writeFileAtomic Q ''users'' ''[]'' ''json-'' ''.tmp'' ?d2 = (Inr (), d2)" "ticks d2 = 8"
    using writeFileAtomic_succeeds [of ?d2 Q "''users''" "''json-''" "''.tmp''" "''[]''"] calm8 look
    by (auto simp: demo_temps [OF assms(2)] demo_locations)
  have del: "users_Delete Q ?C ''users'' ''bob'' ?d1 = (Inr (), d2)"
    using rd [of 1] w(1)
    by (simp add: users_Delete_def users_readLocked_def io_bind_def get_user_def demo_bob_def writeJSONAtomic_def empty_codec_def numeral_2_eq_2)
  have eff: "lookup d2 q = (if locate q = locate ''users'' then Some (File ''[]'') else lookup ?d2 q)" if "locate q \<noteq> locate ''./json-1.tmp''" for q
    using writeFileAtomic_effect [OF w(1), of q] that by (simp add: demo_temps [OF assms(2)] demo_locations)
  have "users_of (demo_env Q) ''users'' d2 = Some []" "lookup d2 ''./auth-helper-1.tmp'' = None" "lookup d2 ''helper'' = Some (File ''bob'')"
    using eff [of "''users''"] eff [of "''./auth-helper-1.tmp''"] eff [of "''helper''"] look
    by (simp_all add: read_metadata_def empty_codec_def demo_locations)
  then show ?thesis using get del w(2) by blast
qed

lemma bob_name_trimmed: "TrimSpace ''bob'' = ''bob''"
  by (simp add: TrimSpace_ascii is_ascii_def ascii_space_def)

lemma delete_request_steps:
  assumes "users_Get Q (empty_codec demo_bob) ''users'' ''bob'' users_disk = (Inr demo_bob, d1)"
    and "users_Delete Q (empty_codec demo_bob) ''users'' ''bob'' d1 = (Inr (), d2)"
    and "regenerateAuthHelperConfig (demo_env Q) demo_admin ''users'' d2 = (w, d3)"
  shows "HandleAdminDeleteAuthUser (demo_env Q) demo_admin demo_request ''bob'' users_disk
     = (if isl w then Inl 500 else Inr 204, d3)"
  using assms
  by (cases w) (simp_all add: HandleAdminDeleteAuthUser_def demo_same_origin bob_name_trimmed or_status_def io_bind_def io_return_def status_defs Let_def)

lemma demo_deletes_bob:
  "\<exists>d'. user_request (demo_env calm) demo_admin demo_request (DeleteUser ''bob'') users_disk = (Inr 204, d')"
proof -
  have temp: "os_temp calm = (\<lambda>t. ''1'')" by (simp add: calm_def)
  obtain d1 d2 where d2: "users_Get calm (empty_codec demo_bob) ''users'' ''bob'' users_disk = (Inr demo_bob, d1)"
      "users_Delete calm (empty_codec demo_bob) ''users'' ''bob'' d1 = (Inr (), d2)"
      "ticks d2 = 8" "users_of (demo_env calm) ''users'' d2 = Some []" "lookup d2 ''./auth-helper-1.tmp'' = None"
      "lookup d2 ''helper'' = Some (File ''bob'')"
    using bob_deleted [of calm, OF _ temp] by auto
  have there: "lookup d2 ''users'' = Some (File ''[]'') \<or> lookup d2 ''users'' = None \<or> (\<exists>s. lookup d2 ''users'' = Some (File s))"
    using d2(4) by (auto simp: read_metadata_def split: option.splits node.splits)
  then have "readJSONFile calm (empty_codec demo_bob) ''users'' [] d2 = (Inr [], d2\<lparr>ticks := 9\<rparr>)"
    using d2(3,4) by (auto simp: readJSONFile_def read_metadata_def io_defs Let_def)
  moreover obtain d3 where "writeFileAtomic calm ''helper'' [] ''auth-helper-'' ''.tmp'' (d2\<lparr>ticks := 10\<rparr>) = (Inr (), d3)"
    using writeFileAtomic_succeeds [of "d2\<lparr>ticks := 10\<rparr>" calm "''helper''" "''auth-helper-''" "''.tmp''" "[]"] d2(5,6)
    by (auto simp: demo_temps [OF temp] demo_locations)
  ultimately have "regenerateAuthHelperConfig (demo_env calm) demo_admin ''users'' d2 = (Inr (), d3)"
    by (simp add: regenerateAuthHelperConfig_def users_List_def users_readLocked_def WriteAuthHelperConfig_def io_bind_def io_check_def
        os_MkdirAll_def sys_def io_return_def)
  then have run: "user_request (demo_env calm) demo_admin demo_request (DeleteUser ''bob'') users_disk = (Inr 204, d3)"
    using delete_request_steps [OF d2(1,2)] by simp
  then show ?thesis by blast
qed

lemma user_requests_synced_witness:
  "\<exists>d'. user_request (demo_env calm) demo_admin demo_request (DeleteUser ''bob'') users_disk = (Inr 204, d')
     \<and> users_of (demo_env calm) ''users'' d' = Some [] \<and> lookup d' ''helper'' = Some (File [])"
proof -
  have temp: "os_temp calm = (\<lambda>t. ''1'')" by (simp add: calm_def)
  obtain d3 where run: "user_request (demo_env calm) demo_admin demo_request (DeleteUser ''bob'') users_disk = (Inr 204, d3)"
    using demo_deletes_bob by blast
  from user_requests_synced [OF demo_helper_ok [OF temp] demo_admin_simps(2) users_there run]
  show ?thesis using run by (auto simp: synced_def bob_name_trimmed demo_bob_def)
qed

lemma deleted_user_lingers_witness:
  "\<exists>d1. HandleAdminDeleteAuthUser (demo_env flaky) demo_admin demo_request ''bob'' users_disk = (Inl 500, d1)
     \<and> users_of (demo_env flaky) ''users'' d1 = Some [] \<and> lookup d1 ''helper'' = Some (File ''bob'')
     \<and> (\<forall>res d2. HandleAdminDeleteAuthUser (demo_env calm) demo_admin demo_request ''bob'' d1 = (res, d2)
           \<longrightarrow> isl res \<and> nodes d2 = nodes d1)"
proof -
  have temp: "os_temp flaky = (\<lambda>t. ''1'')" by (simp add: flaky_def calm_def)
  have fault: "os_fault flaky t = (t = 9)" for t by (simp add: flaky_def)
  obtain d1 d2 where d2: "users_Get flaky (empty_codec demo_bob) ''users'' ''bob'' users_disk = (Inr demo_bob, d1)"
      "users_Delete flaky (empty_codec demo_bob) ''users'' ''bob'' d1 = (Inr (), d2)"
      "ticks d2 = 8" "users_of (demo_env flaky) ''users'' d2 = Some []" "lookup d2 ''helper'' = Some (File ''bob'')"
    using bob_deleted [of flaky, OF _ temp] fault by auto
  have "\<exists>s. lookup d2 ''users'' = None \<or> lookup d2 ''users'' = Some (File s)"
    using d2(4) by (auto simp: read_metadata_def split: option.splits node.splits)
  then have "readJSONFile flaky (empty_codec demo_bob) ''users'' [] d2 = (Inr [], d2\<lparr>ticks := 9\<rparr>)"
    using d2(3,4) by (auto simp: readJSONFile_def read_metadata_def io_defs Let_def fault)
  then have "regenerateAuthHelperConfig (demo_env flaky) demo_admin ''users'' d2 = (Inl (Failed ''ensure auth helper config directory''), d2\<lparr>ticks := 10\<rparr>)"
    by (simp add: regenerateAuthHelperConfig_def users_List_def users_readLocked_def WriteAuthHelperConfig_def io_bind_def io_check_def
        os_MkdirAll_def sys_def fault)
  then have run: "HandleAdminDeleteAuthUser (demo_env flaky) demo_admin demo_request ''bob'' users_disk = (Inl 500, d2\<lparr>ticks := 10\<rparr>)"
    using delete_request_steps [OF d2(1,2)] by simp
  have gone: "users_of (demo_env flaky) ''users'' (d2\<lparr>ticks := 10\<rparr>) = Some []" using d2(4) by (simp add: read_metadata_def)
  note lingers = deleted_user_lingers [OF demo_helper_ok [OF temp] demo_admin_simps(2) users_there run]
  have "isl res \<and> nodes d' = nodes d2"
    if "HandleAdminDeleteAuthUser (demo_env calm) demo_admin demo_request ''bob'' (d2\<lparr>ticks := 10\<rparr>) = (res, d')" for res d'
    using lingers [THEN conjunct2, rule_format, of "demo_env calm" "[]" demo_request res d'] that gone by (simp add: get_user_def)
  then have "\<forall>res d'. HandleAdminDeleteAuthUser (demo_env calm) demo_admin demo_request ''bob'' (d2\<lparr>ticks := 10\<rparr>) = (res, d')
      \<longrightarrow> isl res \<and> nodes d' = nodes (d2\<lparr>ticks := 10\<rparr>)" by (metis disk.select_convs(1) disk.surjective disk.update_convs(2))
  moreover have "lookup (d2\<lparr>ticks := 10\<rparr>) ''helper'' = Some (File ''bob'')" using d2(5) by (simp only: lookup_ticks)
  ultimately show ?thesis using run gone by blast
qed
end
