(* ===== verification/Web_Admin_Icons.thy ===== *)
theory Web_Admin_Icons
  imports Web_Admin
begin

text \<open>
  The icons of the dashboard over HTTP (\<open>web/admin_icon_handlers.go\<close>), the files of the web
  interface that are served from disk (\<open>resolveTemplateFile\<close>, \<open>ServeStaticFile\<close> and
  \<open>ServeAssetFile\<close> of \<open>web/web.go\<close>), and all state-changing administration requests together.
\<close>

subsection \<open>Administration of icons\<close>

record adminIconResponse =
  irID :: string
  irFilename :: string
  irOriginalName :: string
  irContentType :: string
  irActive :: bool
  irURL :: string
  irCreatedAt :: instant
  irUpdatedAt :: instant

definition newAdminIconResponse :: "Icon \<Rightarrow> adminIconResponse" where
  "newAdminIconResponse icon =
     \<lparr>irID = icID icon, irFilename = icFilename icon, irOriginalName = icOriginalName icon,
      irContentType = icContentType icon, irActive = icActive icon, irURL = ''/assets/icons/'' @ icID icon,
      irCreatedAt = icCreatedAt icon, irUpdatedAt = icUpdatedAt icon\<rparr>"

definition adminIconResponses :: "Icon list \<Rightarrow> adminIconResponse list" where
  "adminIconResponses icons = map newAdminIconResponse icons"

definition statusForIconStoreError :: "store_error \<Rightarrow> nat" where
  "statusForIconStoreError err =
     (if err = IconNotFound then StatusNotFound
      else if IsValidationError err then StatusBadRequest
      else StatusInternalServerError)"

definition wantsHTMLAdminResponse :: "(string \<Rightarrow> string) \<Rightarrow> Request \<Rightarrow> bool" where
  "wantsHTMLAdminResponse ul r =
     (let accept = ToLower ul (Header_Get r ''Accept'')
      in Contains accept ''text/html'' \<and> \<not> Contains accept ''application/json'')"

definition HandleAdminListIcons :: "admin_env \<Rightarrow> AdminHandler \<Rightarrow> (nat, nat \<times> adminIconResponse list) io" where
  "HandleAdminListIcons E h =
     (case dashboardIconStore h of
        None \<Rightarrow> io_fail StatusServiceUnavailable
      | Some s \<Rightarrow>
          io_bind (or_status (\<lambda>_. StatusInternalServerError) (ListIcons (aOs E) (aIcons E) (aLower E) s)) (\<lambda>icons.
            io_return (StatusOK, adminIconResponses icons)))"

text \<open>\<open>None\<close> in the answer is the redirect to the admin page.\<close>

definition HandleAdminUploadIcon ::
    "admin_env \<Rightarrow> AdminHandler \<Rightarrow> Request \<Rightarrow> (int \<Rightarrow> form option) \<Rightarrow> (nat, nat \<times> adminIconResponse option) io" where
  "HandleAdminUploadIcon E h r parse =
     (if \<not> sameOriginAdminRequest E h r then io_fail StatusForbidden
      else case dashboardIconStore h of
        None \<Rightarrow> io_fail StatusServiceUnavailable
      | Some s \<Rightarrow>
          (case parse (upload_limit h) of
             None \<Rightarrow> io_fail StatusBadRequest
           | Some f \<Rightarrow>
               (case fFile f ''icon'' of
                  None \<Rightarrow> io_fail StatusBadRequest
                | Some (filename, content) \<Rightarrow>
                    (case content of
                       None \<Rightarrow> io_fail StatusBadRequest
                     | Some data \<Rightarrow>
                         io_bind (or_status statusForIconStoreError
                           (SaveIcon (aOs E) (aIcons E) (aLower E) (aFormat E) s filename data)) (\<lambda>icon.
                         io_bind (or_status statusForIconStoreError
                           (SetActiveIcon (aOs E) (aIcons E) (aLower E) s (icID icon))) (\<lambda>_.
                           let icon = icon\<lparr>icActive := True\<rparr> in
                           io_return (if wantsHTMLAdminResponse (aLower E) r then (StatusSeeOther, None)
                                      else (StatusCreated, Some (newAdminIconResponse icon)))))))))"

definition HandleAdminSelectIcon ::
    "admin_env \<Rightarrow> AdminHandler \<Rightarrow> Request \<Rightarrow> string option \<Rightarrow> (nat, nat \<times> adminIconResponse) io" where
  "HandleAdminSelectIcon E h r body =
     (if \<not> sameOriginAdminRequest E h r then io_fail StatusForbidden
      else case dashboardIconStore h of
        None \<Rightarrow> io_fail StatusServiceUnavailable
      | Some s \<Rightarrow>
          (case body of
             None \<Rightarrow> io_fail StatusBadRequest
           | Some iconID \<Rightarrow>
               io_bind (or_status statusForIconStoreError (SetActiveIcon (aOs E) (aIcons E) (aLower E) s iconID)) (\<lambda>_.
               io_bind (or_status statusForIconStoreError (ActiveIcon (aOs E) (aIcons E) (aLower E) s)) (\<lambda>active.
                 io_return (StatusOK, newAdminIconResponse active)))))"

definition HandleAdminDeleteIcon :: "admin_env \<Rightarrow> AdminHandler \<Rightarrow> Request \<Rightarrow> string \<Rightarrow> (nat, nat) io" where
  "HandleAdminDeleteIcon E h r iconID =
     (if \<not> sameOriginAdminRequest E h r then io_fail StatusForbidden
      else case dashboardIconStore h of
        None \<Rightarrow> io_fail StatusServiceUnavailable
      | Some s \<Rightarrow>
          if TrimSpace iconID = [] then io_fail StatusBadRequest
          else io_bind (or_status statusForIconStoreError (DeleteIcon (aOs E) (aIcons E) (aLower E) s iconID)) (\<lambda>_.
                 io_return StatusNoContent))"

subsection \<open>Files of the web interface\<close>

text \<open>The file a request is answered with and its content type; \<open>None\<close> where the type is left open.\<close>

datatype served_file = NotServed nat | ServeFile string "string option"

primrec first_existing :: "os \<Rightarrow> string list \<Rightarrow> disk \<Rightarrow> string option \<times> disk" where
  "first_existing Q [] d = (None, d)"
| "first_existing Q (p # ps) d =
     (case os_Stat Q p d of
        (Inr _, d') \<Rightarrow> (Some p, d')
      | (Inl _, d') \<Rightarrow> first_existing Q ps d')"

text \<open>The loop over the candidates, with the cleaned paths already tried.\<close>

primrec first_candidate :: "os \<Rightarrow> string set \<Rightarrow> string list \<Rightarrow> disk \<Rightarrow> string option \<times> disk" where
  "first_candidate Q seen [] d = (None, d)"
| "first_candidate Q seen (candidate # cs) d =
     (if candidate = [] then first_candidate Q seen cs d
      else let cleaned = Clean candidate in
        if cleaned \<in> seen then first_candidate Q seen cs d
        else (case os_Stat Q cleaned d of
                (Inr _, d') \<Rightarrow> (Some cleaned, d')
              | (Inl _, d') \<Rightarrow> first_candidate Q (insert cleaned seen) cs d'))"

definition template_paths :: "string \<Rightarrow> string \<Rightarrow> string list" where
  "template_paths templatesPath filename =
     (if templatesPath \<noteq> [] then [Join [templatesPath, filename]] else [])
     @ [Join [''templates'', filename], Join [''cmd'', ''rdpgw'', ''templates'', filename],
        Join [''..'', ''templates'', filename], Join [''..'', ''cmd'', ''rdpgw'', ''templates'', filename],
        Join [''..'', ''..'', ''templates'', filename],
        Join [''..'', ''..'', ''cmd'', ''rdpgw'', ''templates'', filename],
        Join [''/app'', ''templates'', filename], Join [''/opt'', ''rdpgw'', ''templates'', filename]]"

definition resolveTemplateFile :: "os \<Rightarrow> string \<Rightarrow> string \<Rightarrow> disk \<Rightarrow> string option \<times> disk" where
  "resolveTemplateFile Q templatesPath filename =
     first_candidate Q {} (template_paths templatesPath filename)"

definition static_type :: "string \<Rightarrow> string option" where
  "static_type filename =
     (let e = Ext filename in
      if e = ''.css'' then Some ''text/css''
      else if e = ''.js'' then Some ''application/javascript''
      else if e = ''.svg'' then Some ''image/svg+xml''
      else if e = ''.png'' then Some ''image/png''
      else if e = ''.jpg'' \<or> e = ''.jpeg'' then Some ''image/jpeg''
      else if filename = ''logo.png'' \<or> filename = ''logo_light_background.png'' \<or> filename = ''logo_dark_background.png''
        then Some ''image/png''
      else None)"

definition ServeStaticFile :: "os \<Rightarrow> string \<Rightarrow> string \<Rightarrow> disk \<Rightarrow> served_file \<times> disk" where
  "ServeStaticFile Q templatesPath filename d =
     (case resolveTemplateFile Q templatesPath filename d of
        (None, d') \<Rightarrow> (NotServed StatusNotFound, d')
      | (Some filePath, d') \<Rightarrow> (ServeFile filePath (static_type filename), d'))"

text \<open>Up to \<open>n\<close> directories above; \<open>Dir_of\<close> of the root is the root.\<close>

fun parents :: "nat \<Rightarrow> string \<Rightarrow> string list" where
  "parents 0 dir = []"
| "parents (Suc n) dir =
     (let parentDir = Dir_of dir in if parentDir = dir then [] else parentDir # parents n parentDir)"

text \<open>\<open>templatesDir\<close> is \<open>filepath.Abs\<close> of the templates path, when that is set and does not fail.\<close>

definition asset_paths :: "string option \<Rightarrow> string \<Rightarrow> string list" where
  "asset_paths templatesDir filename =
     [''./assets/'' @ filename, ''/app/assets/'' @ filename, ''/opt/rdpgw/assets/'' @ filename, Join [''assets'', filename]]
     @ (if filename = ''icon.svg'' then [''./icon.svg'', ''/app/icon.svg'', ''/opt/rdpgw/icon.svg''] else [])
     @ (case templatesDir of
          None \<Rightarrow> []
        | Some dir \<Rightarrow> map (\<lambda>parentDir. Join [parentDir, ''assets'', filename]) (parents 5 dir))"

definition asset_type :: "string \<Rightarrow> string option" where
  "asset_type filename =
     (let e = Ext filename in
      if e = ''.svg'' then Some ''image/svg+xml''
      else if e = ''.png'' then Some ''image/png''
      else if e = ''.jpg'' \<or> e = ''.jpeg'' then Some ''image/jpeg''
      else if filename = ''logo_light_background.png'' \<or> filename = ''logo_dark_background.png'' then Some ''image/png''
      else if filename = ''connect.svg'' then Some ''image/svg+xml''
      else None)"

definition ServeAssetFile :: "os \<Rightarrow> string option \<Rightarrow> string \<Rightarrow> disk \<Rightarrow> served_file \<times> disk" where
  "ServeAssetFile Q templatesDir filename d =
     (case first_existing Q (asset_paths templatesDir filename) d of
        (None, d) \<Rightarrow> (NotServed StatusNotFound, d)
      | (Some filePath, d) \<Rightarrow>
          (case os_Stat Q filePath d of
             (Inl NotExist, d) \<Rightarrow> (NotServed StatusNotFound, d)
           | (_, d) \<Rightarrow> (ServeFile filePath (asset_type filename), d)))"

definition ServeAppIcon :: "admin_env \<Rightarrow> AdminHandler \<Rightarrow> string option \<Rightarrow> disk \<Rightarrow> served_file \<times> disk" where
  "ServeAppIcon E h templatesDir d =
     (case dashboardIconStore h of
        None \<Rightarrow> ServeAssetFile (aOs E) templatesDir ''icon.svg'' d
      | Some s \<Rightarrow>
          (case ActiveIcon (aOs E) (aIcons E) (aLower E) s d of
             (Inl err, d) \<Rightarrow> ServeAssetFile (aOs E) templatesDir ''icon.svg'' d
           | (Inr icon, d) \<Rightarrow>
               (let path = ResolveIcon s (icFilename icon) in
                case os_Stat (aOs E) path d of
                  (Inr _, d) \<Rightarrow> (ServeFile path (Some (icContentType icon)), d)
                | (Inl _, d) \<Rightarrow> ServeAssetFile (aOs E) templatesDir ''icon.svg'' d)))"

definition ServeUploadedIcon :: "admin_env \<Rightarrow> AdminHandler \<Rightarrow> string \<Rightarrow> disk \<Rightarrow> served_file \<times> disk" where
  "ServeUploadedIcon E h i0 d =
     (case dashboardIconStore h of
        None \<Rightarrow> (NotServed StatusNotFound, d)
      | Some s \<Rightarrow>
          (let iconID = TrimSpace i0 in
           if iconID = [] then (NotServed StatusNotFound, d)
           else case ListIcons (aOs E) (aIcons E) (aLower E) s d of
             (Inl err, d) \<Rightarrow> (NotServed StatusInternalServerError, d)
           | (Inr icons, d) \<Rightarrow>
               (case find (\<lambda>icon. icID icon = iconID) icons of
                  None \<Rightarrow> (NotServed StatusNotFound, d)
                | Some icon \<Rightarrow>
                    (let path = ResolveIcon s (icFilename icon) in
                     case os_Stat (aOs E) path d of
                       (Inl _, d) \<Rightarrow> (NotServed StatusNotFound, d)
                     | (Inr _, d) \<Rightarrow> (ServeFile path (Some (icContentType icon)), d)))))"

subsection \<open>What the icon handlers do to the icons\<close>

abbreviation icons_of :: "admin_env \<Rightarrow> FileIconStore \<Rightarrow> disk \<Rightarrow> Icon list option" where
  "icons_of E s \<equiv> stored_icons (aIcons E) (aLower E) s"

datatype icon_change =
    UploadIcon "int \<Rightarrow> form option"
  | SelectIcon "string option"
  | RemoveIcon string

fun icon_request :: "admin_env \<Rightarrow> AdminHandler \<Rightarrow> Request \<Rightarrow> icon_change \<Rightarrow> (nat, nat) io" where
  "icon_request E h r (UploadIcon parse) = io_bind (HandleAdminUploadIcon E h r parse) (\<lambda>a. io_return (fst a))"
| "icon_request E h r (SelectIcon body) = io_bind (HandleAdminSelectIcon E h r body) (\<lambda>a. io_return (fst a))"
| "icon_request E h r (RemoveIcon i) = HandleAdminDeleteIcon E h r i"

text \<open>
  The coder is faithful and the random identifiers are new; both hold of every list of icons that
  a request can meet.
\<close>

definition icon_admin_ok :: "admin_env \<Rightarrow> FileIconStore \<Rightarrow> Icon list \<Rightarrow> bool" where
  "icon_admin_ok E s is \<longleftrightarrow> icons_ok (aOs E) s \<and> fresh_ids (aOs E) is \<and> (\<forall>js. faithful (aIcons E) js)"

definition active_is :: "string \<Rightarrow> Icon list \<Rightarrow> bool" where
  "active_is i js \<longleftrightarrow> (\<forall>x \<in> set js. icActive x \<longleftrightarrow> icID x = i) \<and> i \<in> icID ` set js"

text \<open>What a successful request leaves, from the icons there were.\<close>

fun icon_result :: "icon_change \<Rightarrow> Icon list \<Rightarrow> Icon list \<Rightarrow> bool" where
  "icon_result (UploadIcon parse) is js =
     (\<exists>i. i \<notin> icID ` set is \<and> map icID js = map icID is @ [i] \<and> active_is i js)"
| "icon_result (SelectIcon body) is js = (\<exists>i. body = Some i \<and> map icID js = map icID is \<and> active_is (TrimSpace i) js)"
| "icon_result (RemoveIcon i) is js = (map icID js = remove1 (TrimSpace i) (map icID is) \<and> TrimSpace i \<in> icID ` set is)"

lemma activated:
  assumes "set_active i t is False = (js, True)"
  shows "map icID js = map icID is" "active_is i js"
proof -
  have ids: "map icID js = map icID is" and act: "map icActive js = map (\<lambda>x. icID x = i) is" and found: "i \<in> icID ` set is"
    using set_active_facts [OF assms] by blast+
  have "map (\<lambda>x. icActive x) js = map (\<lambda>x. icID x = i) js"
    unfolding act using arg_cong [OF ids, of "map (\<lambda>k. k = i)"] by (simp add: comp_def)
  then have "\<forall>x \<in> set js. icActive x \<longleftrightarrow> icID x = i" by simp
  moreover have "icID ` set js = icID ` set is" using arg_cong [OF ids, of set] by simp
  ultimately show "map icID js = map icID is" "active_is i js" using ids found by (auto simp: active_is_def)
qed

lemma hex_trimmed: "TrimSpace (hex_encode r) = hex_encode r"
proof -
  have c: "48 \<le> (of_char c :: nat) \<and> (of_char c :: nat) < 103" if "c \<in> set (hex_encode r)" for c
    using that by (rule hex_encode_codes)
  have "is_ascii (hex_encode r)" using c by (fastforce simp: is_ascii_def)
  moreover have "\<not> ascii_space c" if "c \<in> set (hex_encode r)" for c
    using c [OF that] by (auto simp: ascii_space_def)
  ultimately show ?thesis by (cases "hex_encode r = []") (auto simp: TrimSpace_ascii)
qed

lemma SetActive_effect:
  assumes ok: "icons_ok (aOs E) s" "\<forall>js. faithful (aIcons E) js" and "is": "icons_of E s d = Some is" "icons_inv (aLower E) is"
    and run: "SetActiveIcon (aOs E) (aIcons E) (aLower E) s i d = (z, d')"
  shows "\<exists>js. icons_of E s d' = Some js \<and> icons_inv (aLower E) js
     \<and> (if isl z then js = is else map icID js = map icID is \<and> active_is (TrimSpace i) js)"
proof -
  have C: "\<forall>js \<in> icon_results (aLower E) (OpActivate i) is. faithful (aIcons E) js" using ok(2) by blast
  show ?thesis
  proof (cases z)
    case (Inl e)
    then show ?thesis using SetActiveIcon_list [OF ok(1) "is" C run] "is"(2) by simp
  next
    case (Inr u)
    then obtain js t where "set_active (TrimSpace i) t is False = (js, True)" "icons_of E s d' = Some js" "icons_inv (aLower E) js"
      using SetActiveIcon_list [OF ok(1) "is" C run] by auto
    then show ?thesis using activated Inr by auto
  qed
qed

definition icon_effect :: "admin_env \<Rightarrow> FileIconStore \<Rightarrow> icon_change \<Rightarrow> Icon list \<Rightarrow> bool \<Rightarrow> disk \<Rightarrow> bool" where
  "icon_effect E s c is failed d' \<longleftrightarrow>
     (\<exists>js. icons_of E s d' = Some js \<and> icons_inv (aLower E) js \<and> (\<not> failed \<longrightarrow> icon_result c is js)
        \<and> (failed \<longrightarrow> js = is \<or> (\<exists>parse icon. c = UploadIcon parse \<and> js = is @ [icon])))"

lemma icon_effect_same:
  "icons_of E s d' = Some is \<Longrightarrow> icons_inv (aLower E) is \<Longrightarrow> icon_effect E s c is True d'"
  by (simp add: icon_effect_def)

lemma Upload_effect:
  assumes ok: "icon_admin_ok E s is" and s: "dashboardIconStore h = Some s"
    and "is": "icons_of E s d = Some is" "icons_inv (aLower E) is"
    and run: "HandleAdminUploadIcon E h r parse d = (res, d')"
  shows "icon_effect E s (UploadIcon parse) is (isl res) d'"
proof (cases "\<exists>f filename data. sameOriginAdminRequest E h r \<and> parse (upload_limit h) = Some f \<and> fFile f ''icon'' = Some (filename, Some data)")
  case False
  then have "isl res \<and> d' = d"
    using run unfolding HandleAdminUploadIcon_def s by (auto simp: io_fail_def split: if_splits option.splits)
  then show ?thesis using "is" by (simp add: icon_effect_same)
next
  case True
  then obtain f filename data where g: "sameOriginAdminRequest E h r" "parse (upload_limit h) = Some f"
      "fFile f ''icon'' = Some (filename, Some data)" by blast
  have ok': "icons_ok (aOs E) s" "fresh_ids (aOs E) is" "\<forall>js. faithful (aIcons E) js" using ok by (simp_all add: icon_admin_ok_def)
  obtain z d1 where save: "SaveIcon (aOs E) (aIcons E) (aLower E) (aFormat E) s filename data d = (z, d1)" by (rule prod.exhaust)
  note saved = SaveIcon_list [OF ok'(1) "is" ok'(2) _ save]
  show ?thesis
  proof (cases z)
    case (Inl e)
    then have "isl res \<and> d' = d1" using run g save by (auto simp: HandleAdminUploadIcon_def s or_status_def io_bind_def)
    then show ?thesis using saved ok'(3) Inl "is"(2) by (simp add: icon_effect_same)
  next
    case (Inr icon)
    then have js: "icons_of E s d1 = Some (is @ [icon])" "icons_inv (aLower E) (is @ [icon])"
      and new: "is @ [icon] \<in> icon_results (aLower E) (OpSave filename data) is"
      using saved ok'(3) by simp_all
    have trim: "TrimSpace (icID icon) = icID icon" using new by (auto simp: make_icon_def hex_trimmed)
    have fresh: "icID icon \<notin> icID ` set is" using js(2) by (simp add: icons_inv_def)
    obtain w d2 where act: "SetActiveIcon (aOs E) (aIcons E) (aLower E) s (icID icon) d1 = (w, d2)" by (rule prod.exhaust)
    have d2: "d' = d2" "isl res = isl w"
      using run g save Inr act by (auto simp: HandleAdminUploadIcon_def s or_status_def io_bind_def io_return_def Let_def split: sum.splits)
    obtain ks where ks: "icons_of E s d' = Some ks" "icons_inv (aLower E) ks"
        "if isl w then ks = is @ [icon] else map icID ks = map icID (is @ [icon]) \<and> active_is (icID icon) ks"
      using SetActive_effect [OF ok'(1,3) js act] trim d2 by auto
    then show ?thesis using fresh d2 by (auto simp: icon_effect_def)
  qed
qed

lemma Select_effect:
  assumes ok: "icon_admin_ok E s is" and s: "dashboardIconStore h = Some s"
    and "is": "icons_of E s d = Some is" "icons_inv (aLower E) is"
    and run: "HandleAdminSelectIcon E h r body d = (res, d')"
    and found: "\<not> isl res"
  shows "icon_effect E s (SelectIcon body) is False d'"
proof -
  obtain i where i: "body = Some i" "sameOriginAdminRequest E h r"
    using run found by (auto simp: HandleAdminSelectIcon_def s io_fail_def split: if_splits option.splits)
  obtain w d1 where act: "SetActiveIcon (aOs E) (aIcons E) (aLower E) s i d = (w, d1)" by (rule prod.exhaust)
  obtain y d2 where y: "icons_readLocked (aOs E) (aIcons E) (aLower E) s d1 = (y, d2)" by (rule prod.exhaust)
  have w: "\<not> isl w" "d' = d2"
    using run i found act y
    by (auto simp: HandleAdminSelectIcon_def s ActiveIcon_def or_status_def io_defs split: sum.splits option.splits)
  have "icons_of E s d2 = icons_of E s d1" by (rule stored_icons_lookup [OF lookup_nodes [OF icons_readLocked_exact(1) [OF y]]])
  then show ?thesis
    using SetActive_effect [OF _ _ "is" act] ok w i by (auto simp: icon_admin_ok_def icon_effect_def)
qed

text \<open>Selecting may fail after the change, when the chosen icon cannot be read back.\<close>

lemma Select_failed:
  assumes ok: "icon_admin_ok E s is" and s: "dashboardIconStore h = Some s"
    and "is": "icons_of E s d = Some is" "icons_inv (aLower E) is"
    and run: "HandleAdminSelectIcon E h r body d = (res, d')"
  shows "\<exists>js. icons_of E s d' = Some js \<and> icons_inv (aLower E) js \<and> (js = is \<or> icon_result (SelectIcon body) is js)"
proof (cases "sameOriginAdminRequest E h r \<and> body \<noteq> None")
  case False
  then have "d' = d" using run by (auto simp: HandleAdminSelectIcon_def s io_fail_def split: if_splits)
  then show ?thesis using "is" by simp
next
  case True
  then obtain i where i: "body = Some i" "sameOriginAdminRequest E h r" by auto
  obtain w d1 where act: "SetActiveIcon (aOs E) (aIcons E) (aLower E) s i d = (w, d1)" by (rule prod.exhaust)
  obtain y d2 where y: "icons_readLocked (aOs E) (aIcons E) (aLower E) s d1 = (y, d2)" by (rule prod.exhaust)
  have "d' = d1 \<or> d' = d2"
    using run i act y
    by (auto simp: HandleAdminSelectIcon_def s ActiveIcon_def or_status_def io_defs split: sum.splits option.splits)
  moreover have "icons_of E s d2 = icons_of E s d1" by (rule stored_icons_lookup [OF lookup_nodes [OF icons_readLocked_exact(1) [OF y]]])
  ultimately have "icons_of E s d' = icons_of E s d1" by auto
  then show ?thesis
    using SetActive_effect [OF _ _ "is" act] ok i by (auto simp: icon_admin_ok_def split: if_splits)
qed

lemma Remove_effect:
  assumes ok: "icon_admin_ok E s is" and s: "dashboardIconStore h = Some s"
    and "is": "icons_of E s d = Some is" "icons_inv (aLower E) is"
    and run: "HandleAdminDeleteIcon E h r i d = (res, d')"
  shows "icon_effect E s (RemoveIcon i) is (isl res) d'"
proof (cases "sameOriginAdminRequest E h r \<and> TrimSpace i \<noteq> []")
  case False
  then have "isl res \<and> d' = d" using run by (auto simp: HandleAdminDeleteIcon_def s io_fail_def split: if_splits)
  then show ?thesis using "is" by (simp add: icon_effect_same)
next
  case True
  obtain z d1 where del: "DeleteIcon (aOs E) (aIcons E) (aLower E) s i d = (z, d1)" by (rule prod.exhaust)
  have z: "isl res = isl z" "d' = d1"
    using run True del by (auto simp: HandleAdminDeleteIcon_def s or_status_def io_bind_def io_return_def split: sum.splits)
  have C: "\<forall>js \<in> icon_results (aLower E) (OpRemove i) is. faithful (aIcons E) js" "icons_ok (aOs E) s"
    using ok by (simp_all add: icon_admin_ok_def)
  show ?thesis
  proof (cases z)
    case (Inl e)
    then show ?thesis using DeleteIcon_list [OF C(2) "is" C(1) del] z "is"(2) by (simp add: icon_effect_same)
  next
    case (Inr u)
    then obtain js t x where js: "get_icon (TrimSpace i) is = Some x" "js = cut_icon (TrimSpace i) t x is"
        "icons_of E s d' = Some js" "icons_inv (aLower E) js"
      using DeleteIcon_list [OF C(2) "is" C(1) del] z by auto
    have "map icID js = map icID (cut_first icID (TrimSpace i) is)"
      unfolding js(2) cut_icon_def Let_def by (cases "cut_first icID (TrimSpace i) is") simp_all
    moreover have "TrimSpace i \<in> icID ` set is" using js(1) by (auto simp: get_icon_def find_Some_iff intro: rev_image_eqI [OF nth_mem])
    ultimately show ?thesis using js z Inr by (auto simp: icon_effect_def keys_cut_first)
  qed
qed

text \<open>
  C37: Administration requests for icons keep the icon store in order (distinct identifiers, files
  that are safe to serve, exactly one active icon) whatever fails on the way. A successful
  upload adds one icon and makes it the active one; a successful selection changes nothing but
  which icon is active; a successful removal takes out that icon only.
\<close>

theorem icon_requests_exact:
  assumes "icon_admin_ok E s is" "dashboardIconStore h = Some s"
    and "icons_of E s d = Some is" "icons_inv (aLower E) is" and run: "icon_request E h r c d = (res, d')"
  shows "\<exists>js. icons_of E s d' = Some js \<and> icons_inv (aLower E) js \<and> (\<not> isl res \<longrightarrow> icon_result c is js)"
proof (cases c)
  case (UploadIcon parse)
  then obtain r' where "HandleAdminUploadIcon E h r parse d = (r', d')" "isl r' = isl res" using run by (auto dest: fst_return)
  then show ?thesis using Upload_effect [OF assms(1-4)] UploadIcon by (fastforce simp: icon_effect_def)
next
  case (SelectIcon body)
  then obtain r' where r': "HandleAdminSelectIcon E h r body d = (r', d')" "isl r' = isl res" using run by (auto dest: fst_return)
  show ?thesis
  proof (cases "isl res")
    case True
    then show ?thesis using Select_failed [OF assms(1-4) r'(1)] by auto
  next
    case False
    then show ?thesis using Select_effect [OF assms(1-4) r'(1)] r'(2) SelectIcon by (auto simp: icon_effect_def)
  qed
next
  case (RemoveIcon i)
  then show ?thesis using Remove_effect [OF assms(1-4)] run by (fastforce simp: icon_effect_def)
qed

subsection \<open>Who can change anything\<close>

datatype admin_change = EntryChange entry_change | UserChange user_change | IconChange icon_change

text \<open>The routes wrap every handler into \<open>AdminOnly\<close>.\<close>

definition admin_request :: "admin_env \<Rightarrow> AdminHandler \<Rightarrow> Request \<Rightarrow> User option \<Rightarrow> admin_change \<Rightarrow> (nat, nat) io" where
  "admin_request E h r ident c =
     (case AdminOnly (adminGroups h) ident of
        Next u \<Rightarrow>
          (case c of
             EntryChange e \<Rightarrow> entry_request E h r e
           | UserChange e \<Rightarrow> user_request E h r e
           | IconChange e \<Rightarrow> icon_request E h r e)
      | Reply st \<Rightarrow> io_fail st)"

lemma entry_request_foreign: "\<not> sameOriginAdminRequest E h r \<Longrightarrow> entry_request E h r c d = (Inl StatusForbidden, d)"
  by (cases c) (simp_all add: HandleAdminCreateHostEntry_def HandleAdminCreateTemplateEntry_def HandleAdminUpdateEntry_def
      HandleAdminDeleteEntry_def io_fail_def io_bind_def)

lemma user_request_foreign: "\<not> sameOriginAdminRequest E h r \<Longrightarrow> user_request E h r c d = (Inl StatusForbidden, d)"
  by (cases c) (simp_all add: HandleAdminCreateAuthUser_def HandleAdminUpdateAuthUser_def HandleAdminDeleteAuthUser_def
      io_fail_def io_bind_def)

lemma icon_request_foreign: "\<not> sameOriginAdminRequest E h r \<Longrightarrow> icon_request E h r c d = (Inl StatusForbidden, d)"
  by (cases c) (simp_all add: HandleAdminUploadIcon_def HandleAdminSelectIcon_def HandleAdminDeleteIcon_def
      io_fail_def io_bind_def)

text \<open>
  Where the browser says the request comes from: the gateway's configured address, or, when none
  is configured, the host the request was sent to.
\<close>

definition from_gateway :: "admin_env \<Rightarrow> AdminHandler \<Rightarrow> Request \<Rightarrow> url \<Rightarrow> bool" where
  "from_gateway E h r target \<longleftrightarrow>
     (case gatewayAddress h of
        Some g \<Rightarrow> if uHost g \<noteq> [] then EqualFold (aFold E) (Hostname target) (Hostname g)
              \<and> admin_effectiveOriginPort (aLower E) target = admin_effectiveOriginPort (aLower E) g
            else EqualFold (aFold E) (uHost target) (rHost r)
      | None \<Rightarrow> EqualFold (aFold E) (uHost target) (rHost r))"

lemma sameOriginAdminRequestD:
  "sameOriginAdminRequest E h r \<Longrightarrow>
     \<exists>target. (requestOriginURL (aParse E) r = Some target
         \<or> requestOriginURL (aParse E) r = None \<and> requestRefererURL (aParse E) r = Some target) \<and> from_gateway E h r target"
  by (auto simp: sameOriginAdminRequest_def sameOriginAllowed_def from_gateway_def sameConfiguredOrigin_def admin_sameOriginHost_def Let_def
      split: option.splits if_splits)

text \<open>
  C25: Only an administrator, acting from the gateway's own pages, changes anything: a request that
  answers success or touches the disk at all comes from an authenticated member of a configured
  administrator group, and its \<open>Origin\<close>, or without one its \<open>Referer\<close>, names the gateway.
\<close>

theorem admin_changes_guarded:
  assumes "admin_request E h r ident c d = (res, d')" "\<not> isl res \<or> d' \<noteq> d"
  shows "\<exists>u target. ident = Some u \<and> authenticated u
    \<and> (\<exists>g \<in> set (adminGroups h). TrimSpace g \<noteq> [] \<and> InGroup g u)
    \<and> (requestOriginURL (aParse E) r = Some target
        \<or> requestOriginURL (aParse E) r = None \<and> requestRefererURL (aParse E) r = Some target)
    \<and> from_gateway E h r target"
proof -
  obtain u where u: "ident = Some u" "authenticated u" "IsAdmin (Some u) (adminGroups h)"
    using assms by (auto simp: admin_request_def AdminOnly_def io_fail_def split: option.splits if_splits)
  have "sameOriginAdminRequest E h r"
    using assms u entry_request_foreign user_request_foreign icon_request_foreign
    by (cases "sameOriginAdminRequest E h r") (auto simp: admin_request_def AdminOnly_def split: admin_change.splits)
  then show ?thesis using sameOriginAdminRequestD u by (auto simp: IsAdmin_iff)
qed

subsection \<open>Served icons\<close>

lemma Base_suffix: "CHR ''/'' \<notin> set t \<Longrightarrow> t \<noteq> [] \<Longrightarrow> \<exists>r. Base (p @ t) = r @ t"
proof -
  assume t: "CHR ''/'' \<notin> set t" "t \<noteq> []"
  obtain ts c where c: "t = ts @ [c]" using t(2) by (cases t rule: rev_cases) auto
  then have "dropWhile (\<lambda>c. c = CHR ''/'') (rev (p @ t)) = rev (p @ t)" using t(1) by auto
  then have "Base (p @ t) = last_element (p @ t)" using t(2) by (simp add: Base_def Let_def)
  moreover have "takeWhile (\<lambda>c. c \<noteq> CHR ''/'') (rev t @ rev p) = rev t @ takeWhile (\<lambda>c. c \<noteq> CHR ''/'') (rev p)"
    using t(1) by (intro takeWhile_append2) auto
  ultimately show ?thesis by (simp add: last_element_def)
qed

lemma Ext_suffix: "Ext s \<noteq> [] \<Longrightarrow> \<exists>q. s = q @ Ext s \<and> CHR ''/'' \<notin> set (Ext s)"
proof -
  assume ne: "Ext s \<noteq> []"
  let ?n = "takeWhile (\<lambda>c. c \<noteq> CHR ''/'') (rev s)"
  have rev_last: "rev (last_element s) = ?n" by (simp add: last_element_def)
  have dot: "CHR ''.'' \<in> set ?n" using ne by (auto simp: Ext_def Let_def rev_last split: if_splits)
  then obtain a b where n: "?n = a @ CHR ''.'' # b" "CHR ''.'' \<notin> set a" by (auto dest: split_list_first)
  then have "takeWhile (\<lambda>c. c \<noteq> CHR ''.'') ?n = a" unfolding n(1) using n(2) by (subst takeWhile_append2) auto
  then have e: "Ext s = CHR ''.'' # rev a" using dot by (simp add: Ext_def Let_def rev_last)
  obtain c where "rev s = ?n @ c" by (metis takeWhile_dropWhile_id)
  then have "s = rev c @ rev ?n" by (metis rev_append rev_rev_ident)
  then have "s = rev c @ rev b @ CHR ''.'' # rev a" using n by simp
  moreover have "CHR ''/'' \<notin> set ?n" by (auto dest: set_takeWhileD)
  ultimately show ?thesis using e n by (intro exI [of _ "rev c @ rev b"]) auto
qed

lemma valid_icon_plain:
  assumes "validateIconName ul name = Inr (ext, ct)" shows "plain (Base name)"
proof -
  let ?x = "Ext (TrimSpace name)"
  have low: "ToLower ul ?x \<in> {''.ico'', ''.icon'', ''.png'', ''.jpg'', ''.jpeg''}"
    using assms by (auto simp: validateIconName_def Let_def split: if_splits)
  then have ne: "?x \<noteq> []" by (auto simp: ToLower_def is_ascii_def)
  then obtain q where q: "TrimSpace name = q @ ?x" "CHR ''/'' \<notin> set ?x" using Ext_suffix by blast
  obtain a b where ab: "name = a @ TrimSpace name @ b" "CHR ''/'' \<notin> set b"
    using TrimSpace_parts [of name] by (elim exE conjE) (rule that)
  have "name = (a @ q) @ (?x @ b)" using ab(1) q(1) by (metis append.assoc)
  then obtain r where r: "Base name = r @ ?x @ b"
    using Base_suffix [of "?x @ b" "a @ q"] q(2) ab(2) ne by auto
  have "\<not> (is_ascii ?x \<and> length ?x \<le> 2)"
  proof
    assume a: "is_ascii ?x \<and> length ?x \<le> 2"
    then have "length (ToLower ul ?x) \<le> 2" by (simp add: ToLower_def)
    then show False using low by auto
  qed
  moreover have "is_ascii ?x \<and> length ?x \<le> 2" if "Base name \<in> {''.'', ''/'', ''..''}"
  proof -
    have "is_ascii (Base name)" "length (Base name) \<le> 2" using that by (auto simp: is_ascii_def)
    then show ?thesis unfolding r by (auto simp: is_ascii_def)
  qed
  ultimately show ?thesis using Base_cases [of name] by blast
qed

lemma listed_icon_safe:
  assumes "icons_readLocked Q C ul s d = (Inr icons, d')" "icon \<in> set icons"
  shows "plain (Base (icFilename icon)) \<and> icContentType icon \<in> {''image/x-icon'', ''image/png'', ''image/jpeg''}"
proof -
  have "icons \<in> range (filterSafeIcons ul) \<or> icons = []"
    using assms(1) by (auto simp: icons_readLocked_def split: sum.splits io_error.splits prod.splits if_splits option.splits)
  then have "isSafeStoredIcon ul icon"
    using assms(2) filterSafeIcons_safe [of ul] by (auto simp: list_all_iff)
  then obtain ext where v: "validateIconName ul (icFilename icon) = Inr (ext, icContentType icon)"
    by (auto simp: isSafeStoredIcon_def split: sum.splits)
  then show ?thesis using valid_icon_plain [OF v] by (auto simp: validateIconName_def Let_def split: if_splits)
qed

text \<open>
  Whatever the metadata of the icon store says, the file served for an uploaded icon lies
  directly in the icon directory, and it is served as an image.
\<close>

theorem served_icon_safe:
  assumes "ServeUploadedIcon E h i d = (ServeFile path ct, d')"
  shows "\<exists>s nm. dashboardIconStore h = Some s \<and> plain nm
    \<and> locate path = (fst (locate (iconDir s)), snd (locate (iconDir s)) @ [nm])
    \<and> ct \<in> {Some ''image/x-icon'', Some ''image/png'', Some ''image/jpeg''}"
proof -
  obtain s icons d1 icon where s: "dashboardIconStore h = Some s"
      and l: "icons_readLocked (aOs E) (aIcons E) (aLower E) s d = (Inr icons, d1)"
      and f: "find (\<lambda>icon. icID icon = TrimSpace i) icons = Some icon"
      and p: "path = ResolveIcon s (icFilename icon)" "ct = Some (icContentType icon)"
    using assms by (auto simp: ServeUploadedIcon_def ListIcons_def Let_def split: option.splits prod.splits sum.splits if_splits)
  have "icon \<in> set icons" using f by (auto simp: find_Some_iff)
  from listed_icon_safe [OF l this] show ?thesis
    using s p by (auto simp: ResolveIcon_def locate_Join)
qed

subsection \<open>A store with one icon\<close>

definition icon_env :: admin_env where
  "icon_env = (demo_env calm)\<lparr>aIcons :=
     \<lparr>enc = (\<lambda>is. if is = [demo_icon] then Some ''x'' else None), dec = (\<lambda>s. Some [demo_icon])\<rparr>\<rparr>"

definition icon_admin :: AdminHandler where "icon_admin = demo_admin\<lparr>dashboardIconStore := Some demo_icons\<rparr>"

lemma demo_icon_safe: "isSafeStoredIcon (\<lambda>s. []) demo_icon"
proof -
  have "TrimSpace ''a.png'' = ''a.png''" by (simp add: TrimSpace_ascii is_ascii_def ascii_space_def)
  then show ?thesis
    by (simp add: isSafeStoredIcon_def validateIconName_def demo_icon_def Ext_def last_element_def ToLower_def is_ascii_def
        ascii_lower_def Let_def)
qed

lemma icon_env_ok: "icon_admin_ok icon_env demo_icons [demo_icon]"
  using demo_icons_ok
  by (simp add: icon_admin_ok_def icon_env_def fresh_ids_def faithful_def demo_icon_def hex_encode_def hex_digit_def digit_def
      char_of_def bit_0)

lemma icon_stored: "icons_of icon_env demo_icons (demo_icon_disk\<lparr>nodes := ns @ nodes demo_icon_disk\<rparr>) = Some [demo_icon]"
  if "(False, [''m'']) \<notin> fst ` set ns"
proof -
  have "map_of (ns @ nodes demo_icon_disk) (False, [''m'']) = Some (File ''x'')"
    using that map_of_eq_None_iff [of ns "(False, [''m''])"] by (simp add: map_add_def demo_icon_disk_def)
  then show ?thesis
    using demo_icon_safe
    by (simp add: stored_icons_def read_metadata_def lookup_def demo_icons_def locate_plain plain_def icon_env_def)
qed

lemma icon_requests_exact_witness:
  "\<exists>js. icons_of icon_env demo_icons (snd (icon_request icon_env icon_admin demo_request (SelectIcon (Some ''a'')) demo_icon_disk)) = Some js
     \<and> icons_inv (\<lambda>s. []) js"
proof -
  obtain res d' where run: "icon_request icon_env icon_admin demo_request (SelectIcon (Some ''a'')) demo_icon_disk = (res, d')"
    by (rule prod.exhaust)
  have "icons_inv (aLower icon_env) [demo_icon]" using demo_icon_safe by (simp add: icons_inv_def icon_env_def demo_icon_def)
  moreover have "icons_of icon_env demo_icons demo_icon_disk = Some [demo_icon]" using icon_stored [of "[]"] by simp
  moreover have "dashboardIconStore icon_admin = Some demo_icons" by (simp add: icon_admin_def)
  ultimately show ?thesis
    using icon_requests_exact [OF icon_env_ok _ _ _ run] run by (auto simp: icon_env_def)
qed

lemma admin_changes_guarded_witness:
  "\<exists>u target. Some staff_bob = Some u \<and> authenticated u \<and> from_gateway (demo_env calm) demo_admin demo_request target"
proof -
  obtain d' where "entry_request (demo_env calm) demo_admin demo_request (DeleteEntry ''1'') demo_disk = (Inr 204, d')"
    using demo_delete_run by blast
  moreover have "InGroup ''staff'' staff_bob" "authenticated staff_bob"
    using staff_group by (simp_all add: staff_bob_def InGroup_def SetGroups_def sample_bob_def SetUserName_def add_group_def Let_def)
  moreover have "adminGroups demo_admin = [''staff'']" by (simp add: demo_admin_def Handler.defs AdminHandler.defs)
  ultimately have "admin_request (demo_env calm) demo_admin demo_request (Some staff_bob) (EntryChange (DeleteEntry ''1'')) demo_disk
      = (Inr 204, d')"
    by (simp add: admin_request_def AdminOnly_def IsAdmin_iff staff_group)
  from admin_changes_guarded [OF this] show ?thesis by auto
qed

lemma served_icon_safe_witness:
  "\<exists>path ct d'. ServeUploadedIcon icon_env icon_admin ''a'' (demo_icon_disk\<lparr>nodes := [((False, [''u'', ''a.png'']), File ''p'')] @ nodes demo_icon_disk\<rparr>)
     = (ServeFile path ct, d') \<and> (\<exists>nm. plain nm \<and> locate path = (False, [''u'', nm])) \<and> ct = Some ''image/png''"
proof -
  let ?d = "demo_icon_disk\<lparr>nodes := [((False, [''u'', ''a.png'']), File ''p'')] @ nodes demo_icon_disk\<rparr>"
  have trim: "TrimSpace ''a'' = ''a''" by (simp add: TrimSpace_ascii is_ascii_def ascii_space_def)
  have base: "Base ''a.png'' = ''a.png''" by (simp add: Base_def last_element_def)
  have path: "locate (ResolveIcon demo_icons ''a.png'') = (False, [''u'', ''a.png''])"
    by (simp add: ResolveIcon_def base demo_icons_def locate_Join locate_plain plain_def)
  have "icons_readLocked calm (aIcons icon_env) (\<lambda>s. []) demo_icons ?d = (Inr [demo_icon], ?d\<lparr>ticks := 1\<rparr>)"
    using demo_icon_safe
    by (simp add: icons_readLocked_def io_defs lookup_def demo_icons_def locate_plain plain_def icon_env_def demo_icon_disk_def Let_def)
  then have run: "ServeUploadedIcon icon_env icon_admin ''a'' ?d
      = (ServeFile (ResolveIcon demo_icons ''a.png'') (Some ''image/png''), ?d\<lparr>ticks := 2\<rparr>)"
    by (simp add: ServeUploadedIcon_def icon_admin_def trim ListIcons_def icon_env_def demo_icon_def io_defs lookup_def path Let_def demo_icon_disk_def)
  from served_icon_safe [OF run] run path show ?thesis
    by (auto simp: icon_admin_def demo_icons_def locate_plain plain_def)
qed

end
