(* ===== verification/Auth_Service.thy ===== *)
theory Auth_Service
  imports Identity
begin

text \<open>
  The authentication helper (\<open>src/cmd/auth\<close>): its database of users, which follows a YAML file
  (\<open>database/config.go\<close>, \<open>config/configuration.go\<close>), the check of names and passwords
  (\<open>auth.go\<close>) and the NTLM exchange (\<open>ntlm/ntlm.go\<close>).

  A look at the file is a value: what \<open>os.Stat\<close> says of it and what loading it gives. The two can
  differ from one call to the next, because the gateway replaces the file while the helper runs.
  YAML parsing, bcrypt, base64 and the NTLM library are parameters.
\<close>

subsection \<open>The file\<close>

record UserConfig =
  ucUsername :: string
  ucPassword :: string

datatype stat_result = Missing | StatFailed | ModTime instant

record file_view =
  fvStat :: stat_result
  fvLoad :: "UserConfig list option"

text \<open>\<open>config.LoadFile\<close>: a missing file is no users.\<close>

definition LoadFile :: "file_view \<Rightarrow> UserConfig list option" where
  "LoadFile v = (if fvStat v = Missing then Some [] else fvLoad v)"

definition loadConfigFile :: "file_view \<Rightarrow> file_view \<Rightarrow> (UserConfig list \<times> instant) option" where
  "loadConfigFile v w =
     (case fvStat v of
        Missing \<Rightarrow> Some ([], 0)
      | StatFailed \<Rightarrow> None
      | ModTime t \<Rightarrow> map_option (\<lambda>us. (us, t)) (LoadFile w))"

subsection \<open>The database\<close>

record Config =
  cfUsers :: "UserConfig go_map"
  configFile :: string
  modTime :: instant

definition usersToMap :: "UserConfig list \<Rightarrow> UserConfig go_map" where
  "usersToMap users = foldl (\<lambda>m u. AList.update (ucUsername u) u m) [] users"

definition NewConfig :: "UserConfig list \<Rightarrow> Config" where
  "NewConfig users = \<lparr>cfUsers = usersToMap users, configFile = [], modTime = 0\<rparr>"

definition NewConfigFile :: "string \<Rightarrow> file_view \<Rightarrow> file_view \<Rightarrow> Config option" where
  "NewConfigFile path v w =
     map_option (\<lambda>(us, t). \<lparr>cfUsers = usersToMap us, configFile = path, modTime = t\<rparr>) (loadConfigFile v w)"

text \<open>The three looks: the first \<open>Stat\<close>, the one of \<open>loadConfigFile\<close>, and the loading.\<close>

definition reloadIfChanged :: "file_view \<Rightarrow> file_view \<Rightarrow> file_view \<Rightarrow> Config \<Rightarrow> Config" where
  "reloadIfChanged v1 v2 v3 c =
     (if configFile c = [] then c
      else case fvStat v1 of
        Missing \<Rightarrow> c
      | StatFailed \<Rightarrow> c
      | ModTime t1 \<Rightarrow>
          if \<not> t1 > modTime c then c
          else (case loadConfigFile v2 v3 of
                  None \<Rightarrow> c
                | Some (us, t) \<Rightarrow> if \<not> t > modTime c then c else c\<lparr>cfUsers := usersToMap us, modTime := t\<rparr>))"

definition password_of :: "Config \<Rightarrow> string \<Rightarrow> string" where
  "password_of c name = (case map_of (cfUsers c) name of None \<Rightarrow> [] | Some u \<Rightarrow> ucPassword u)"

definition GetPassword :: "file_view \<Rightarrow> file_view \<Rightarrow> file_view \<Rightarrow> Config \<Rightarrow> string \<Rightarrow> string \<times> Config" where
  "GetPassword v1 v2 v3 c username = (let c = reloadIfChanged v1 v2 v3 c in (password_of c username, c))"

subsection \<open>Names and passwords\<close>

record AuthResponse =
  arAuthenticated :: bool
  arError :: string

text \<open>\<open>bc\<close> is \<open>bcrypt.CompareHashAndPassword\<close>.\<close>

definition Authenticate :: "(string \<Rightarrow> string \<Rightarrow> bool) \<Rightarrow> string \<Rightarrow> string \<Rightarrow> AuthResponse" where
  "Authenticate bc storedPassword password =
     (if storedPassword = [] then \<lparr>arAuthenticated = False, arError = ''Authentication failure''\<rparr>
      else if bc storedPassword password then \<lparr>arAuthenticated = True, arError = []\<rparr>
      else if storedPassword = password then \<lparr>arAuthenticated = True, arError = []\<rparr>
      else \<lparr>arAuthenticated = False, arError = ''Authentication failure''\<rparr>)"

definition service_Authenticate ::
    "(string \<Rightarrow> string \<Rightarrow> bool) \<Rightarrow> file_view \<Rightarrow> file_view \<Rightarrow> file_view \<Rightarrow> Config \<Rightarrow> string \<Rightarrow> string
      \<Rightarrow> AuthResponse \<times> Config" where
  "service_Authenticate bc v1 v2 v3 c username password =
     (let (storedPassword, c) = GetPassword v1 v2 v3 c username in (Authenticate bc storedPassword password, c))"

lemma usersToMap_snoc: "usersToMap (us @ [u]) = AList.update (ucUsername u) u (usersToMap us)"
  by (simp add: usersToMap_def)

lemma usersToMap_lookup: "map_of (usersToMap us) name = find (\<lambda>u. ucUsername u = name) (rev us)"
  by (induction us rule: rev_induct) (auto simp: usersToMap_snoc update_conv' usersToMap_def)

lemma usersToMap_distinct:
  "distinct (map ucUsername us) \<Longrightarrow> map_of (usersToMap us) name = Some u \<longleftrightarrow> u \<in> set us \<and> ucUsername u = name"
proof (induction us rule: rev_induct)
  case (snoc x xs)
  then show ?case by (cases "name = ucUsername x") (auto simp: usersToMap_snoc update_conv' image_iff)
qed (simp add: usersToMap_def)

lemma Authenticate_iff:
  "arAuthenticated (Authenticate bc stored password) \<longleftrightarrow> stored \<noteq> [] \<and> (bc stored password \<or> stored = password)"
  by (simp add: Authenticate_def)

text \<open>
  The stored text of a password is itself accepted as the password: whoever reads a bcrypt hash
  from the file can log in with it, without knowing the password.
\<close>

theorem stored_hash_logs_in:
  "stored \<noteq> [] \<Longrightarrow> arAuthenticated (Authenticate bc stored stored)"
  by (simp add: Authenticate_iff)

lemma stored_hash_logs_in_witness:
  "arAuthenticated (Authenticate (\<lambda>h p. False) ''$2a$10$hash'' ''$2a$10$hash'')"
  by (rule stored_hash_logs_in) simp

subsection \<open>Following the file while it is replaced\<close>

text \<open>
  The file, its time and its users, is replaced by newer ones. Each caller of \<open>GetPassword\<close> runs
  \<open>reloadIfChanged\<close> in four pieces: the first \<open>Stat\<close>, the second, the reading, and the update
  under the lock. Pieces of different callers and replacements interleave freely.
\<close>

datatype reader = Idle | Checked | Timed instant | Loaded instant "UserConfig list"

record helper =
  hTime :: instant
  hFile :: "UserConfig list"
  hDb :: Config
  hReaders :: "nat \<Rightarrow> reader"

inductive helper_step :: "helper \<Rightarrow> helper \<Rightarrow> bool" where
  replaced: "t > hTime s \<Longrightarrow> helper_step s (s\<lparr>hTime := t, hFile := us\<rparr>)"
| unchanged: "hReaders s i = Idle \<Longrightarrow> \<not> hTime s > modTime (hDb s) \<Longrightarrow> helper_step s s"
| changed: "hReaders s i = Idle \<Longrightarrow> hTime s > modTime (hDb s) \<Longrightarrow> helper_step s (s\<lparr>hReaders := (hReaders s)(i := Checked)\<rparr>)"
| timed: "hReaders s i = Checked \<Longrightarrow> helper_step s (s\<lparr>hReaders := (hReaders s)(i := Timed (hTime s))\<rparr>)"
| loaded: "hReaders s i = Timed t \<Longrightarrow> helper_step s (s\<lparr>hReaders := (hReaders s)(i := Loaded t (hFile s))\<rparr>)"
| failed: "hReaders s i = Timed t \<Longrightarrow> helper_step s (s\<lparr>hReaders := (hReaders s)(i := Idle)\<rparr>)"
| installed: "hReaders s i = Loaded t us \<Longrightarrow> t > modTime (hDb s) \<Longrightarrow>
    helper_step s (s\<lparr>hDb := (hDb s)\<lparr>cfUsers := usersToMap us, modTime := t\<rparr>, hReaders := (hReaders s)(i := Idle)\<rparr>)"
| outdated: "hReaders s i = Loaded t us \<Longrightarrow> \<not> t > modTime (hDb s) \<Longrightarrow>
    helper_step s (s\<lparr>hReaders := (hReaders s)(i := Idle)\<rparr>)"

inductive_cases helper_stepE: "helper_step s s'"

text \<open>At the start the file may be replaced between \<open>Stat\<close> and reading, too.\<close>

definition start :: "string \<Rightarrow> instant \<Rightarrow> instant \<Rightarrow> UserConfig list \<Rightarrow> helper option" where
  "start path t0 t us =
     map_option (\<lambda>c. \<lparr>hTime = t, hFile = us, hDb = c, hReaders = (\<lambda>i. Idle)\<rparr>)
       (NewConfigFile path \<lparr>fvStat = ModTime t0, fvLoad = None\<rparr> \<lparr>fvStat = ModTime t, fvLoad = Some us\<rparr>)"

inductive helper_reach :: "helper \<Rightarrow> helper \<Rightarrow> bool" for s0 where
  base: "helper_reach s0 s0"
| step: "helper_reach s0 s \<Longrightarrow> helper_step s s' \<Longrightarrow> helper_reach s0 s'"

text \<open>The pieces are \<open>reloadIfChanged\<close>: run one after the other over the looks, they give its result.\<close>

definition view :: "helper \<Rightarrow> file_view" where "view s = \<lparr>fvStat = ModTime (hTime s), fvLoad = Some (hFile s)\<rparr>"

lemma pieces_reload:
  assumes path: "configFile (hDb s1) \<noteq> []" and idle: "hReaders s1 i = Idle"
    and same: "hDb s2 = hDb s1" "hDb s3 = hDb s1"
    and at: "hReaders s2 i = Checked" "hReaders s3 i = Timed (hTime s2)" "hReaders s4 i = Loaded (hTime s2) (hFile s3)"
    and changed: "hTime s1 > modTime (hDb s1)" and db4: "hDb s4 = hDb s1"
  shows "\<exists>s5. helper_step s4 s5 \<and> hDb s5 = reloadIfChanged (view s1) (view s2) (view s3) (hDb s1)"
proof (cases "hTime s2 > modTime (hDb s1)")
  case True
  then have "helper_step s4 (s4\<lparr>hDb := (hDb s4)\<lparr>cfUsers := usersToMap (hFile s3), modTime := hTime s2\<rparr>, hReaders := (hReaders s4)(i := Idle)\<rparr>)"
    using at(3) db4 by (intro installed) simp_all
  moreover have "reloadIfChanged (view s1) (view s2) (view s3) (hDb s1) = (hDb s1)\<lparr>cfUsers := usersToMap (hFile s3), modTime := hTime s2\<rparr>"
    using True path changed by (simp add: reloadIfChanged_def view_def loadConfigFile_def LoadFile_def)
  ultimately show ?thesis using db4 by fastforce
next
  case False
  then have "helper_step s4 (s4\<lparr>hReaders := (hReaders s4)(i := Idle)\<rparr>)"
    using at(3) db4 by (intro outdated) simp_all
  moreover have "reloadIfChanged (view s1) (view s2) (view s3) (hDb s1) = hDb s1"
    using False path changed by (simp add: reloadIfChanged_def view_def loadConfigFile_def LoadFile_def)
  ultimately show ?thesis using db4 by fastforce
qed

definition follows :: "helper \<Rightarrow> bool" where
  "follows s \<longleftrightarrow>
     modTime (hDb s) \<le> hTime s \<and> (modTime (hDb s) = hTime s \<longrightarrow> cfUsers (hDb s) = usersToMap (hFile s))
     \<and> (\<forall>i t. hReaders s i = Timed t \<longrightarrow> t \<le> hTime s)
     \<and> (\<forall>i t us. hReaders s i = Loaded t us \<longrightarrow> t \<le> hTime s \<and> (t = hTime s \<longrightarrow> us = hFile s))"

lemma follows_step: "helper_step s s' \<Longrightarrow> follows s \<Longrightarrow> follows s'"
  by (induction rule: helper_step.induct) (fastforce simp: follows_def split: if_splits)+

lemma follows_reach: "helper_reach s0 s \<Longrightarrow> follows s0 \<Longrightarrow> follows s"
  by (induction rule: helper_reach.induct) (auto intro: follows_step)

lemma follows_start: "start path t0 t us = Some s \<Longrightarrow> t0 \<le> t \<Longrightarrow> follows s"
  by (auto simp: start_def NewConfigFile_def loadConfigFile_def LoadFile_def follows_def)



text \<open>A list that is written at the time of the one before is not noticed.\<close>

lemma same_time_unnoticed:
  "fvStat v1 = ModTime (modTime c) \<Longrightarrow> reloadIfChanged v1 v2 v3 c = c"
  by (simp add: reloadIfChanged_def)

subsection \<open>NTLM\<close>

text \<open>
  The library: parsing (an error says whether there was a message of type 1), a server session, and
  its steps, each of which may change the session. The number given to \<open>createSession\<close> tells the
  random challenges of different calls apart.
\<close>

record ('s, 'n, 'a) ntlm_lib =
  decode64 :: "string \<Rightarrow> string option"
  encode64 :: "string \<Rightarrow> string"
  ParseNegotiateMessage :: "string \<Rightarrow> bool + 'n"
  ParseAuthenticateMessage :: "string \<Rightarrow> 'a option"
  amUserName :: "'a \<Rightarrow> string"
  createSession :: "nat \<Rightarrow> 's option"
  ProcessNegotiateMessage :: "'n \<Rightarrow> 's \<Rightarrow> bool \<times> 's"
  GenerateChallengeMessage :: "'s \<Rightarrow> string option \<times> 's"
  ProcessAuthenticateMessage :: "string \<Rightarrow> string \<Rightarrow> 'a \<Rightarrow> 's \<Rightarrow> bool \<times> 's"

text \<open>
  What a call answers: an error, a challenge (\<open>NtlmMessage\<close>), success with a name, or a response
  with nothing set.
\<close>

datatype ntlm_result = NtlmError string | NtlmChallenge string | NtlmAuthenticated string | NtlmRejected

definition ctx_negotiate :: "('s, 'n, 'a) ntlm_lib \<Rightarrow> nat \<Rightarrow> 'n \<Rightarrow> 's option \<times> ntlm_result" where
  "ctx_negotiate L k nm =
     (case createSession L k of
        None \<Rightarrow> (None, NtlmError ''Failed to create NTLM server session'')
      | Some s \<Rightarrow>
          (case ProcessNegotiateMessage L nm s of
             (False, s) \<Rightarrow> (Some s, NtlmError ''Failed to process NTLM negotiate message'')
           | (True, s) \<Rightarrow>
               (case GenerateChallengeMessage L s of
                  (None, s) \<Rightarrow> (Some s, NtlmError ''Failed to generate NTLM challenge message'')
                | (Some cm, s) \<Rightarrow> (Some s, NtlmChallenge (encode64 L cm)))))"

definition ctx_authenticate ::
    "('s, 'n, 'a) ntlm_lib \<Rightarrow> (string \<Rightarrow> string) \<Rightarrow> 's option \<Rightarrow> 'a \<Rightarrow> 's option \<times> ntlm_result" where
  "ctx_authenticate L pwd sess am =
     (case sess of
        None \<Rightarrow> (None, NtlmError ''NTLM Authenticate requires active session: first call negotioate'')
      | Some s \<Rightarrow>
          (let username = amUserName L am; password = pwd username in
           if password = [] then (Some s, NtlmRejected)
           else (case ProcessAuthenticateMessage L username password am s of
                   (False, s) \<Rightarrow> (Some s, NtlmRejected)
                 | (True, s) \<Rightarrow> (Some s, NtlmAuthenticated username))))"

definition ctx_Authenticate ::
    "('s, 'n, 'a) ntlm_lib \<Rightarrow> nat \<Rightarrow> (string \<Rightarrow> string) \<Rightarrow> 's option \<Rightarrow> string \<Rightarrow> 's option \<times> ntlm_result" where
  "ctx_Authenticate L k pwd sess encoded =
     (case decode64 L encoded of
        None \<Rightarrow> (sess, NtlmError ''Failed to decode NTLM Authorisation header'')
      | Some authorisation \<Rightarrow>
          (case ParseNegotiateMessage L authorisation of
             Inr nm \<Rightarrow> ctx_negotiate L k nm
           | Inl negotiate_type \<Rightarrow>
               if negotiate_type then (sess, NtlmError ''Failed to parse NTLM Authorisation header'')
               else if sess = None then (sess, NtlmError ''New NTLM auth sequence should start with negotioate request'')
               else (case ParseAuthenticateMessage L authorisation of
                       Some am \<Rightarrow> ctx_authenticate L pwd sess am
                     | None \<Rightarrow> (sess, NtlmError ''Failed to parse NTLM Authorisation header''))))"

text \<open>The cache of contexts; \<open>alive\<close> says whether the item of this session has not expired.\<close>

definition getContext :: "bool \<Rightarrow> 's option go_map \<Rightarrow> string \<Rightarrow> 's option" where
  "getContext alive ctxs session =
     (case map_of ctxs session of Some c \<Rightarrow> if alive then c else None | None \<Rightarrow> None)"

record ntlm_request =
  nqSession :: string
  nqMessage :: string
  nqAlive :: bool
  nqPassword :: "string \<Rightarrow> string"

text \<open>A context is shared by pointer, so what the call does to it is seen in the cache.\<close>

definition NTLM_Authenticate ::
    "('s, 'n, 'a) ntlm_lib \<Rightarrow> nat \<Rightarrow> ntlm_request \<Rightarrow> 's option go_map \<Rightarrow> ntlm_result \<times> 's option go_map" where
  "NTLM_Authenticate L k q ctxs =
     (if nqSession q = [] then (NtlmError ''Invalid (empty) session specified'', ctxs)
      else if nqMessage q = [] then (NtlmError ''Empty NTLM message specified'', ctxs)
      else let (c, res) = ctx_Authenticate L k (nqPassword q) (getContext (nqAlive q) ctxs (nqSession q)) (nqMessage q) in
        (res, case res of
                NtlmError e \<Rightarrow> AList.delete (nqSession q) ctxs
              | NtlmAuthenticated u \<Rightarrow> AList.delete (nqSession q) ctxs
              | _ \<Rightarrow> AList.update (nqSession q) c ctxs))"

text \<open>A run of requests, with the log of what was answered to which session.\<close>

definition ntlm_step ::
    "('s, 'n, 'a) ntlm_lib \<Rightarrow> 's option go_map \<times> (string \<times> ntlm_result) list \<Rightarrow> ntlm_request
      \<Rightarrow> 's option go_map \<times> (string \<times> ntlm_result) list" where
  "ntlm_step L st q =
     (let (ctxs, log) = st; (res, ctxs') = NTLM_Authenticate L (length log) q ctxs
      in (ctxs', log @ [(nqSession q, res)]))"

definition ntlm_run :: "('s, 'n, 'a) ntlm_lib \<Rightarrow> ntlm_request list \<Rightarrow> 's option go_map \<times> (string \<times> ntlm_result) list" where
  "ntlm_run L qs = foldl (ntlm_step L) ([], []) qs"

text \<open>The last thing that session was answered, errors and rejections aside, is a challenge.\<close>

definition challenged :: "string \<Rightarrow> (string \<times> ntlm_result) list \<Rightarrow> bool" where
  "challenged k log \<longleftrightarrow>
     (\<exists>before c after. log = before @ (k, NtlmChallenge c) # after \<and> (\<forall>u. (k, NtlmAuthenticated u) \<notin> set after))"

lemma challenged_snoc:
  assumes "challenged k log" "\<forall>u. e \<noteq> (k, NtlmAuthenticated u)" shows "challenged k (log @ [e])"
proof -
  obtain before c after where "log = before @ (k, NtlmChallenge c) # after" "\<forall>u. (k, NtlmAuthenticated u) \<notin> set after"
    using assms(1) by (auto simp: challenged_def)
  then have "log @ [e] = before @ (k, NtlmChallenge c) # (after @ [e]) \<and> (\<forall>u. (k, NtlmAuthenticated u) \<notin> set (after @ [e]))"
    using assms(2) by auto
  then show ?thesis unfolding challenged_def by blast
qed

lemma challenged_now: "challenged k (log @ [(k, NtlmChallenge c)])"
  unfolding challenged_def by (rule exI [of _ log], rule exI [of _ c], rule exI [of _ "[]"]) simp

lemma ctx_authenticated:
  "ctx_Authenticate L k pwd sess m = (c, NtlmAuthenticated u) \<Longrightarrow>
     \<exists>s b am. sess = Some s \<and> decode64 L m = Some b \<and> ParseAuthenticateMessage L b = Some am \<and> u = amUserName L am
       \<and> pwd u \<noteq> [] \<and> fst (ProcessAuthenticateMessage L u (pwd u) am s)"
  by (auto simp: ctx_Authenticate_def ctx_negotiate_def ctx_authenticate_def Let_def
           split: option.splits sum.splits prod.splits bool.splits if_splits)

lemma ctx_rejected: "ctx_Authenticate L k pwd sess m = (c, NtlmRejected) \<Longrightarrow> sess \<noteq> None"
  by (auto simp: ctx_Authenticate_def ctx_negotiate_def ctx_authenticate_def Let_def
           split: option.splits sum.splits prod.splits bool.splits if_splits)

definition ntlm_inv :: "'s option go_map \<times> (string \<times> ntlm_result) list \<Rightarrow> bool" where
  "ntlm_inv st \<longleftrightarrow>
     (\<forall>k s. map_of (fst st) k = Some (Some s) \<longrightarrow> challenged k (snd st))
     \<and> (\<forall>before k u after. snd st = before @ (k, NtlmAuthenticated u) # after \<longrightarrow> challenged k before)"

lemma getContext_Some: "getContext alive ctxs k = Some s \<Longrightarrow> map_of ctxs k = Some (Some s)"
  by (auto simp: getContext_def split: option.splits if_splits)

lemma ntlm_inv_step:
  assumes inv: "ntlm_inv st" shows "ntlm_inv (ntlm_step L st q)"
proof -
  obtain ctxs log where st: "st = (ctxs, log)" by (rule prod.exhaust)
  let ?k = "nqSession q"
  obtain res ctxs' where run: "NTLM_Authenticate L (length log) q ctxs = (res, ctxs')" by (rule prod.exhaust)
  have hist: "challenged j log" if "map_of ctxs j = Some (Some s)" for j s using inv that by (auto simp: ntlm_inv_def st)
  have auth: "challenged ?k log" if r: "res = NtlmAuthenticated u \<or> res = NtlmRejected" for u
  proof -
    obtain c where c: "ctx_Authenticate L (length log) (nqPassword q) (getContext (nqAlive q) ctxs ?k) (nqMessage q) = (c, res)"
      using run r by (auto simp: NTLM_Authenticate_def Let_def split: prod.splits if_splits)
    have "getContext (nqAlive q) ctxs ?k \<noteq> None"
      using r
    proof
      assume "res = NtlmAuthenticated u"
      then show ?thesis using ctx_authenticated [OF c [unfolded \<open>res = NtlmAuthenticated u\<close>]] by auto
    next
      assume "res = NtlmRejected"
      then show ?thesis using ctx_rejected [OF c [unfolded \<open>res = NtlmRejected\<close>]] by simp
    qed
    then obtain s where "getContext (nqAlive q) ctxs ?k = Some s" by (cases "getContext (nqAlive q) ctxs ?k") simp_all
    from hist [OF getContext_Some [OF this]] show ?thesis .
  qed
  have new: "challenged j (log @ [(?k, res)])" if j: "map_of ctxs' j = Some (Some s)" for j s
  proof (cases "j = ?k")
    case False
    then have "map_of ctxs j = Some (Some s)"
      using run j by (auto simp: NTLM_Authenticate_def Let_def delete_conv' update_conv' split: prod.splits if_splits ntlm_result.splits)
    then show ?thesis using hist False by (intro challenged_snoc) auto
  next
    case True
    show ?thesis
    proof (cases res)
      case (NtlmChallenge c)
      then show ?thesis using challenged_now True by simp
    next
      case NtlmRejected
      then show ?thesis using auth True by (intro challenged_snoc) auto
    next
      case (NtlmAuthenticated u)
      then show ?thesis
        using run j True by (auto simp: NTLM_Authenticate_def Let_def delete_conv' split: prod.splits if_splits ntlm_result.splits)
    next
      case (NtlmError e)
      then have "map_of ctxs j = Some (Some s)"
        using run j True by (auto simp: NTLM_Authenticate_def Let_def delete_conv' split: prod.splits if_splits ntlm_result.splits)
      then show ?thesis using hist NtlmError by (intro challenged_snoc) auto
    qed
  qed
  have old: "challenged j before" if "log @ [(?k, res)] = before @ (j, NtlmAuthenticated u) # after" for j u before after
  proof (cases after rule: rev_cases)
    case Nil
    then show ?thesis using that auth by auto
  next
    case (snoc as a)
    then have "log = before @ (j, NtlmAuthenticated u) # as" using that by auto
    then show ?thesis using inv by (auto simp: ntlm_inv_def st)
  qed
  show ?thesis using new old by (auto simp: ntlm_inv_def ntlm_step_def st run)
qed

lemma ntlm_inv_run: "ntlm_inv (ntlm_run L qs)"
proof -
  have "ntlm_inv st \<Longrightarrow> ntlm_inv (foldl (ntlm_step L) st qs)" for st
    by (induction qs arbitrary: st) (simp_all add: ntlm_inv_step)
  moreover have "ntlm_inv ([], [])" by (simp add: ntlm_inv_def)
  ultimately show ?thesis by (simp add: ntlm_run_def)
qed




end
