(* ===== verification/Auth_Socket.thy ===== *)
theory Auth_Socket
  imports Auth_Service Go_Net
begin

text \<open>
  The socket of the authentication helper (\<open>auth.go\<close>, \<open>auth_unix.go\<close>): parsing of permissions,
  the directory and the stale socket, creation under a umask, ownership and permissions.

  The file system is the directory and the path of the socket; which system calls fail, and the
  user and group databases, are parameters; nobody else touches the path while the socket is made.
  Modes are their permission bits.
\<close>

unbundle bit_operations_syntax

subsection \<open>Permissions\<close>

definition is_octal :: "char \<Rightarrow> bool" where
  "is_octal c \<longleftrightarrow> 48 \<le> (of_char c :: nat) \<and> (of_char c :: nat) < 56"

definition octal_value :: "string \<Rightarrow> nat" where
  "octal_value s = foldl (\<lambda>n c. n * 8 + (of_char c - 48)) 0 s"

text \<open>\<open>strconv.ParseUint(s, 8, 32)\<close>.\<close>

definition ParseUint8 :: "string \<Rightarrow> nat option" where
  "ParseUint8 s = (if s \<noteq> [] \<and> list_all is_octal s \<and> octal_value s < 2 ^ 32 then Some (octal_value s) else None)"

datatype mode_error = EmptyMode | NotOctal | ExceedsPermissions | OwnerNeeded | WorldAccess | ExecuteBits

definition parseOctalMode :: "string \<Rightarrow> mode_error + nat" where
  "parseOctalMode v =
     (let v = TrimPrefix (TrimPrefix (TrimSpace v) ''0o'') ''0O'' in
      if v = [] then Inl EmptyMode
      else (case ParseUint8 v of
              None \<Rightarrow> Inl NotOctal
            | Some parsed \<Rightarrow> if parsed > 511 then Inl ExceedsPermissions else Inr parsed))"

definition parseSocketMode :: "string \<Rightarrow> mode_error + nat" where
  "parseSocketMode v =
     (case parseOctalMode v of
        Inl e \<Rightarrow> Inl e
      | Inr mode \<Rightarrow>
          if mode AND 384 \<noteq> 384 then Inl OwnerNeeded
          else if mode AND 7 \<noteq> 0 then Inl WorldAccess
          else if mode AND 73 \<noteq> 0 then Inl ExecuteBits
          else Inr mode)"

definition parseSocketDirMode :: "string \<Rightarrow> mode_error + nat" where
  "parseSocketDirMode v =
     (case parseOctalMode v of
        Inl e \<Rightarrow> Inl e
      | Inr mode \<Rightarrow>
          if mode AND 448 \<noteq> 448 then Inl OwnerNeeded
          else if mode AND 7 \<noteq> 0 then Inl WorldAccess
          else Inr mode)"

record unixSocketOptions =
  soMode :: nat
  soDirMode :: nat
  soOwner :: string
  soGroup :: string

definition defaultUnixSocketOptions :: unixSocketOptions where
  "defaultUnixSocketOptions = \<lparr>soMode = 384, soDirMode = 448, soOwner = [], soGroup = []\<rparr>"

definition unixSocketOptionsFromFlags :: "string \<Rightarrow> string \<Rightarrow> string \<Rightarrow> string \<Rightarrow> mode_error + unixSocketOptions" where
  "unixSocketOptionsFromFlags mode dirMode owner grp =
     (case parseSocketMode mode of
        Inl e \<Rightarrow> Inl e
      | Inr m \<Rightarrow>
          (case parseSocketDirMode dirMode of
             Inl e \<Rightarrow> Inl e
           | Inr dm \<Rightarrow> Inr \<lparr>soMode = m, soDirMode = dm, soOwner = owner, soGroup = grp\<rparr>))"

lemma parseOctalMode_bound: "parseOctalMode v = Inr m \<Longrightarrow> m < 512"
  by (auto simp: parseOctalMode_def Let_def split: if_splits option.splits)

lemma parseSocketMode_bits:
  "parseSocketMode v = Inr m \<Longrightarrow> m < 512 \<and> m AND 384 = 384 \<and> m AND 7 = 0 \<and> m AND 73 = 0"
  by (auto simp: parseSocketMode_def parseOctalMode_bound split: sum.splits if_splits)

lemma parseSocketDirMode_bits:
  "parseSocketDirMode v = Inr m \<Longrightarrow> m < 512 \<and> m AND 448 = 448 \<and> m AND 7 = 0"
  by (auto simp: parseSocketDirMode_def parseOctalMode_bound split: sum.splits if_splits)

subsection \<open>Owner and group\<close>

text \<open>\<open>db\<close> is \<open>user.Lookup\<close> or \<open>user.LookupGroup\<close>: the number as text.\<close>

definition lookupID :: "(string \<Rightarrow> string option) \<Rightarrow> string \<Rightarrow> int option" where
  "lookupID db name =
     (case Atoi name of
        Some i \<Rightarrow> if i < 0 then None else Some i
      | None \<Rightarrow>
          (case db name of
             None \<Rightarrow> None
           | Some t \<Rightarrow>
               (case Atoi t of
                  None \<Rightarrow> None
                | Some i \<Rightarrow> if i < 0 then None else Some i)))"

subsection \<open>The file system around the socket\<close>

record sock_fs =
  sDir :: "(bool \<times> nat) option"
  sPath :: "(bool \<times> nat) option"
  sSeen :: "nat list"

text \<open>Which calls fail, in the order the code makes them.\<close>

record sock_env =
  eStat :: bool
  eMkdir :: bool
  eUmask :: nat
  eChmodDir :: bool
  eLstat :: "nat \<Rightarrow> bool"
  eRemove :: bool
  eListen :: bool
  eUsers :: "string \<Rightarrow> string option"
  eGroups :: "string \<Rightarrow> string option"
  eLchown :: bool
  eChmod :: bool

type_synonym sock = "sock_fs \<Rightarrow> bool \<times> sock_fs"

definition sock_fail :: sock where "sock_fail s = (False, s)"
definition sock_ok :: sock where "sock_ok s = (True, s)"
definition sock_then :: "sock \<Rightarrow> sock \<Rightarrow> sock" where
  "sock_then m n s = (case m s of (False, s') \<Rightarrow> (False, s') | (True, s') \<Rightarrow> n s')"

text \<open>\<open>a &^ b\<close> on permission bits.\<close>

definition bit_clear :: "nat \<Rightarrow> nat \<Rightarrow> nat" where "bit_clear a b = a - (a AND b)"

definition ensureSocketDir :: "sock_env \<Rightarrow> nat \<Rightarrow> sock" where
  "ensureSocketDir E mode s =
     (if eStat E then sock_fail s
      else if eMkdir E then sock_fail s
      else (case sDir s of
        None \<Rightarrow> if eChmodDir E then sock_fail (s\<lparr>sDir := Some (True, bit_clear mode (eUmask E))\<rparr>) else sock_ok (s\<lparr>sDir := Some (True, mode)\<rparr>)
      | Some (isDir, currentMode) \<Rightarrow>
          if \<not> isDir then sock_fail s
          else if currentMode AND 448 \<noteq> 448 then sock_fail s
          else if currentMode AND 2 \<noteq> 0 then sock_fail s
          else if mode AND 16 = 0 \<and> currentMode AND 16 \<noteq> 0 then sock_fail s
          else sock_ok s))"

definition removeStaleUnixSocket :: "sock_env \<Rightarrow> sock" where
  "removeStaleUnixSocket E s =
     (if eLstat E 0 then sock_fail s
      else case sPath s of
        None \<Rightarrow> sock_ok s
      | Some (isSocket, m) \<Rightarrow>
          if \<not> isSocket then sock_fail s
          else if eRemove E then sock_fail s
          else sock_ok (s\<lparr>sPath := None\<rparr>))"

text \<open>\<open>net.Listen\<close> under the umask: the socket appears with the bits that the mask leaves.\<close>

definition listenWithUmask :: "sock_env \<Rightarrow> nat \<Rightarrow> sock" where
  "listenWithUmask E um s =
     (if eListen E \<or> sPath s \<noteq> None then sock_fail s
      else let m = bit_clear 511 um in sock_ok (s\<lparr>sPath := Some (True, m), sSeen := [m]\<rparr>))"

definition ensureUnixSocketPath :: "sock_env \<Rightarrow> nat \<Rightarrow> sock" where
  "ensureUnixSocketPath E k s =
     (if eLstat E k then sock_fail s
      else case sPath s of
        Some (True, m) \<Rightarrow> sock_ok s
      | _ \<Rightarrow> sock_fail s)"

definition applyUnixSocketOwnership :: "sock_env \<Rightarrow> string \<Rightarrow> string \<Rightarrow> sock" where
  "applyUnixSocketOwnership E owner grp =
     sock_then (ensureUnixSocketPath E 1) (\<lambda>s.
       if owner \<noteq> [] \<and> lookupID (eUsers E) owner = None then sock_fail s
       else if grp \<noteq> [] \<and> lookupID (eGroups E) grp = None then sock_fail s
       else if owner = [] \<and> grp = [] then sock_ok s
       else if eLchown E then sock_fail s
       else ensureUnixSocketPath E 2 s)"

definition chmodSocket :: "sock_env \<Rightarrow> nat \<Rightarrow> sock" where
  "chmodSocket E mode s =
     (if eChmod E then sock_fail s
      else sock_ok (s\<lparr>sPath := map_option (\<lambda>(k, m). (k, mode)) (sPath s), sSeen := sSeen s @ [mode]\<rparr>))"

text \<open>A listener that is closed takes the socket away with it.\<close>

definition closing :: "sock \<Rightarrow> sock" where
  "closing m s = (case m s of (True, s') \<Rightarrow> (True, s') | (False, s') \<Rightarrow> (False, s'\<lparr>sPath := None\<rparr>))"

definition listenUnixSocketWithOptions :: "sock_env \<Rightarrow> unixSocketOptions \<Rightarrow> sock" where
  "listenUnixSocketWithOptions E opts =
     sock_then (ensureSocketDir E (soDirMode opts))
    (sock_then (removeStaleUnixSocket E)
    (sock_then (listenWithUmask E (bit_clear 511 (soMode opts)))
    (sock_then (closing (applyUnixSocketOwnership E (soOwner opts) (soGroup opts)))
    (sock_then (closing (ensureUnixSocketPath E 3))
    (sock_then (closing (chmodSocket E (soMode opts)))
               (closing (ensureUnixSocketPath E 4)))))))"

definition listenUnixSocket :: "sock_env \<Rightarrow> sock" where
  "listenUnixSocket E = listenUnixSocketWithOptions E defaultUnixSocketOptions"

lemma sock_then_True: "sock_then m n s = (True, s') \<longleftrightarrow> (\<exists>s1. m s = (True, s1) \<and> n s1 = (True, s'))"
  by (auto simp: sock_then_def split: prod.splits bool.splits)

lemma closing_True: "closing m s = (True, s') \<longleftrightarrow> m s = (True, s')"
  by (auto simp: closing_def split: prod.splits bool.splits)

lemma ensureUnixSocketPath_True: "ensureUnixSocketPath E k s = (True, s') \<Longrightarrow> s' = s \<and> (\<exists>m. sPath s = Some (True, m))"
  by (auto simp: ensureUnixSocketPath_def sock_ok_def sock_fail_def split: if_splits option.splits prod.splits bool.splits)

lemma applyUnixSocketOwnership_True: "applyUnixSocketOwnership E w g s = (True, s') \<Longrightarrow> s' = s"
  by (auto simp: applyUnixSocketOwnership_def sock_then_True sock_ok_def sock_fail_def dest!: ensureUnixSocketPath_True split: if_splits)

text \<open>What the mask leaves of \<open>0777\<close>.\<close>

lemma and_511: "m < 512 \<Longrightarrow> 511 AND m = (m :: nat)"
  using take_bit_eq_mask [of 9 m] take_bit_nat_eq_self [of m 9] by (simp add: mask_eq_exp_minus_1 and.commute)

lemma masked: "m < 512 \<Longrightarrow> bit_clear 511 (bit_clear 511 m) = m"
  by (simp add: bit_clear_def and_511)

lemma no_world_write: "m AND 7 = (0 :: nat) \<Longrightarrow> m AND 2 = 0"
proof -
  assume "m AND 7 = 0"
  then have "(m AND 7) AND 2 = 0" by simp
  then show ?thesis by (simp add: and.assoc)
qed

text \<open>
  C31: The helper's socket is never open wider than configured: with options from the flags, listening
  succeeds only with a socket whose mode is the configured one, from its creation on; that mode
  lets the owner read and write, may let the group, never others; and the directory belongs to
  its owner, is not writable by others, nor by the group unless configured so.
\<close>

theorem auth_socket_private:
  assumes flags: "unixSocketOptionsFromFlags m dm w g = Inr opts" and run: "listenUnixSocketWithOptions E opts s = (True, s')"
  shows "sPath s' = Some (True, soMode opts) \<and> set (sSeen s') = {soMode opts} \<and> soMode opts AND 384 = 384 \<and> soMode opts AND 7 = 0 \<and> soMode opts AND 73 = 0
    \<and> (\<exists>d. sDir s' = Some (True, d) \<and> d AND 448 = 448 \<and> d AND 2 = 0 \<and> (soDirMode opts AND 16 = 0 \<longrightarrow> d AND 16 = 0))"
proof -
  have m: "soMode opts < 512 \<and> soMode opts AND 384 = 384 \<and> soMode opts AND 7 = 0 \<and> soMode opts AND 73 = 0"
    and dir: "soDirMode opts AND 448 = 448 \<and> soDirMode opts AND 7 = 0"
    using flags parseSocketMode_bits [of m] parseSocketDirMode_bits [of dm]
    by (auto simp: unixSocketOptionsFromFlags_def split: sum.splits)
  obtain s1 s2 s3 s4 s5 s6 where run': "ensureSocketDir E (soDirMode opts) s = (True, s1)" "removeStaleUnixSocket E s1 = (True, s2)"
      "listenWithUmask E (bit_clear 511 (soMode opts)) s2 = (True, s3)"
      "applyUnixSocketOwnership E (soOwner opts) (soGroup opts) s3 = (True, s4)" "ensureUnixSocketPath E 3 s4 = (True, s5)"
      "chmodSocket E (soMode opts) s5 = (True, s6)" "ensureUnixSocketPath E 4 s6 = (True, s')"
    using run by (auto simp: listenUnixSocketWithOptions_def sock_then_True closing_True)
  have s1: "\<exists>d. sDir s1 = Some (True, d) \<and> d AND 448 = 448 \<and> d AND 2 = 0 \<and> (soDirMode opts AND 16 = 0 \<longrightarrow> d AND 16 = 0)"
    using run'(1) dir no_world_write by (auto simp: ensureSocketDir_def sock_ok_def sock_fail_def split: if_splits option.splits)
  have s2: "sDir s2 = sDir s1"
    using run'(2) by (auto simp: removeStaleUnixSocket_def sock_ok_def sock_fail_def split: if_splits option.splits)
  have s3: "s3 = s2\<lparr>sPath := Some (True, soMode opts), sSeen := [soMode opts]\<rparr>"
    using run'(3) by (auto simp: listenWithUmask_def sock_ok_def sock_fail_def masked [OF m [THEN conjunct1]] Let_def split: if_splits)
  have s5: "s5 = s3" using run'(4,5) applyUnixSocketOwnership_True ensureUnixSocketPath_True by metis
  have s6: "s6 = s5\<lparr>sPath := Some (True, soMode opts), sSeen := [soMode opts, soMode opts]\<rparr>"
    using run'(6) s3 s5 by (auto simp: chmodSocket_def sock_ok_def sock_fail_def split: if_splits)
  have "s' = s6" using ensureUnixSocketPath_True [OF run'(7)] by simp
  then show ?thesis using s1 s2 s3 s5 s6 m by simp
qed


lemma auth_socket_private_witness:
  "\<exists>m dm E s opts s'. unixSocketOptionsFromFlags m dm [] [] = Inr opts \<and> listenUnixSocketWithOptions E opts s = (True, s')
    \<and> sPath s' = Some (True, soMode opts) \<and> soMode opts = 432"
proof -
  let ?E = "\<lparr>eStat = False, eMkdir = False, eUmask = 18, eChmodDir = False, eLstat = (\<lambda>k. False), eRemove = False, eListen = False,
    eUsers = (\<lambda>n. None), eGroups = (\<lambda>n. None), eLchown = False, eChmod = False\<rparr>"
  let ?o = "\<lparr>soMode = 432, soDirMode = 488, soOwner = [], soGroup = []\<rparr>"
  let ?s = "\<lparr>sDir = None, sPath = Some (True, 511), sSeen = []\<rparr>"
  let ?t = "\<lparr>sDir = Some (True, 488), sPath = Some (True, 432), sSeen = [432, 432]\<rparr>"
  have flags: "unixSocketOptionsFromFlags ''0660'' ''0o750'' [] [] = Inr ?o"
  proof -
    have "TrimSpace ''0660'' = ''0660''" "TrimSpace ''0o750'' = ''0o750''"
      by (simp_all add: TrimSpace_ascii is_ascii_def ascii_space_def)
    then show ?thesis
      by (simp add: unixSocketOptionsFromFlags_def parseSocketMode_def parseSocketDirMode_def parseOctalMode_def TrimPrefix_def HasPrefix_def
            ParseUint8_def is_octal_def octal_value_def)
  qed
  have run: "listenUnixSocketWithOptions ?E ?o ?s = (True, ?t)"
    by (simp add: listenUnixSocketWithOptions_def sock_then_def sock_ok_def sock_fail_def closing_def ensureSocketDir_def removeStaleUnixSocket_def
          listenWithUmask_def bit_clear_def applyUnixSocketOwnership_def ensureUnixSocketPath_def chmodSocket_def)
  from auth_socket_private [OF flags run] flags run show ?thesis
    by (intro exI conjI) (assumption | simp)+
qed

end
