(* ===== verification/Kdc_Proxy.thy ===== *)
theory Kdc_Proxy
  imports Go_Http
begin

text \<open>
  The Kerberos proxy (\<open>src/cmd/rdpgw/kdcproxy/proxy.go\<close>): the HTTP handler, the choice of the
  servers, the connections that are started to them and the replies they send.

  ASN.1, the Kerberos configuration and the network are parameters. Servers are told apart by their
  place in the merged list. The goroutines that wait for replies finish in an order that the
  environment chooses; every one of them sends exactly one reply, because of the deadline.
\<close>

definition maxLength :: nat where "maxLength = 128 * 1024"

record KdcProxyMsg =
  kmMessage :: "byte list"
  kmRealm :: string
  kmFlags :: int

record Kdc =
  kdRealm :: string
  kdHost :: string
  kdProto :: string

text \<open>The number of servers of a realm, and their addresses by number.\<close>

record kdc_config =
  kcDefaultRealm :: string
  kcGetKDCs :: "string \<Rightarrow> bool \<Rightarrow> (nat \<times> (nat \<Rightarrow> string option)) option"

text \<open>
  The network: whether a server can be dialled and written to, the bytes its connection delivers,
  its datagram, and the order in which connections get to send their replies.
\<close>

record kdc_net =
  knDial :: "nat \<Rightarrow> bool"
  knWrite :: "nat \<Rightarrow> bool"
  knStream :: "nat \<Rightarrow> byte list"
  knDatagram :: "nat \<Rightarrow> byte list option"
  knOrder :: "nat list \<Rightarrow> nat list"

datatype kdc_event = Dialled nat | Sent nat "byte list" | Closed nat

datatype kdc_error = NoUdpKdcs | NoTcpKdcs | NoKdcs | DialFailed | TooShort | WriteFailed | NotStarted kdc_error | NoReplies

subsection \<open>Replies\<close>

definition be32 :: "nat \<Rightarrow> byte list" where "be32 n = rev (le_bytes 4 n)"
definition be32_value :: "byte list \<Rightarrow> nat" where "be32_value bs = le_value (rev bs)"

definition awaitReply_udp :: "byte list option \<Rightarrow> byte list option" where
  "awaitReply_udp datagram =
     (case datagram of
        None \<Rightarrow> None
      | Some d \<Rightarrow> let buf = take maxLength d in Some (be32 (length buf) @ buf))"

definition awaitReply_tcp :: "byte list \<Rightarrow> byte list option" where
  "awaitReply_tcp conn =
     (if length conn < 4 then None
      else let lengthPrefix = take 4 conn; conn = drop 4 conn; n = be32_value lengthPrefix in
        if n > maxLength then None
        else if length conn < n then None
        else Some (lengthPrefix @ take n conn))"

definition awaitReply :: "kdc_net \<Rightarrow> (nat \<Rightarrow> Kdc) \<Rightarrow> nat \<Rightarrow> byte list option" where
  "awaitReply N kdcs i =
     (if kdProto (kdcs i) = ''udp'' then awaitReply_udp (knDatagram N i) else awaitReply_tcp (knStream N i))"

text \<open>The first reply that is not nil.\<close>

fun first_reply :: "byte list option list \<Rightarrow> byte list option" where
  "first_reply [] = None"
| "first_reply (None # rs) = first_reply rs"
| "first_reply (Some r # rs) = Some r"

subsection \<open>Servers and connections\<close>

definition listed :: "string \<Rightarrow> string \<Rightarrow> nat \<times> (nat \<Rightarrow> string option) \<Rightarrow> Kdc list" where
  "listed realm proto c =
     List.map_filter (\<lambda>i. map_option (\<lambda>host. \<lparr>kdRealm = realm, kdHost = host, kdProto = proto\<rparr>) (snd c i)) [0..<Suc (fst c)]"

definition merge_kdcs :: "kdc_config \<Rightarrow> string \<Rightarrow> kdc_error + Kdc list" where
  "merge_kdcs C realm =
     (case kcGetKDCs C realm False of
        None \<Rightarrow> Inl NoUdpKdcs
      | Some udp \<Rightarrow>
          (case kcGetKDCs C realm True of
             None \<Rightarrow> Inl NoTcpKdcs
           | Some tcp \<Rightarrow>
               if fst tcp + fst udp = 0 then Inl NoKdcs
               else let kdcs = listed realm ''udp'' udp @ listed realm ''tcp'' tcp in
                 if kdcs = [] then Inl NoKdcs else Inr kdcs))"

text \<open>What a server is written: a datagram goes without the length prefix.\<close>

definition payload_for :: "Kdc \<Rightarrow> byte list \<Rightarrow> byte list option" where
  "payload_for k data =
     (if kdProto k = ''tcp'' then Some data else if length data < 4 then None else Some (drop 4 data))"

record dial_state =
  dsTrace :: "kdc_event list"
  dsStarted :: "nat list"
  dsLastErr :: "kdc_error option"

definition dial :: "kdc_net \<Rightarrow> byte list \<Rightarrow> (nat \<Rightarrow> Kdc) \<Rightarrow> dial_state \<Rightarrow> nat \<Rightarrow> dial_state" where
  "dial N data kdcs d i =
     (if \<not> knDial N i then d\<lparr>dsLastErr := Some DialFailed\<rparr>
      else let d = d\<lparr>dsTrace := dsTrace d @ [Dialled i]\<rparr> in
        (case payload_for (kdcs i) data of
           None \<Rightarrow> d\<lparr>dsLastErr := Some TooShort, dsTrace := dsTrace d @ [Closed i]\<rparr>
         | Some bs \<Rightarrow>
             if \<not> knWrite N i then d\<lparr>dsLastErr := Some WriteFailed, dsTrace := dsTrace d @ [Closed i]\<rparr>
             else d\<lparr>dsTrace := dsTrace d @ [Sent i bs], dsStarted := dsStarted d @ [i]\<rparr>))"

definition dial_all :: "kdc_net \<Rightarrow> byte list \<Rightarrow> Kdc list \<Rightarrow> dial_state" where
  "dial_all N data kdcs =
     foldl (dial N data (nth kdcs)) \<lparr>dsTrace = [], dsStarted = [], dsLastErr = None\<rparr> [0..<length kdcs]"

text \<open>The deferred \<open>Close\<close> calls run last to first when \<open>forward\<close> returns.\<close>

definition forward_kdc :: "kdc_config \<Rightarrow> kdc_net \<Rightarrow> string \<Rightarrow> byte list \<Rightarrow> (kdc_error + byte list) \<times> kdc_event list" where
  "forward_kdc C N realm data =
     (let realm = (if realm = [] then kcDefaultRealm C else realm) in
      case merge_kdcs C realm of
        Inl e \<Rightarrow> (Inl e, [])
      | Inr kdcs \<Rightarrow>
          let d = dial_all N data kdcs; closes = map Closed (rev (dsStarted d)) in
          if dsStarted d = [] then
            (Inl (case dsLastErr d of None \<Rightarrow> NoKdcs | Some e \<Rightarrow> NotStarted e), dsTrace d @ closes)
          else
            (case first_reply (map (awaitReply N (nth kdcs)) (knOrder N (dsStarted d))) of
               Some r \<Rightarrow> (Inr r, dsTrace d @ closes)
             | None \<Rightarrow> (Inl NoReplies, dsTrace d @ closes)))"

subsection \<open>The handler\<close>

record kdc_asn1 =
  Unmarshal_kdc :: "byte list \<Rightarrow> (KdcProxyMsg \<times> byte list) option"
  Marshal_kdc :: "KdcProxyMsg \<Rightarrow> byte list option"

definition decode_kdc :: "kdc_asn1 \<Rightarrow> byte list \<Rightarrow> KdcProxyMsg option" where
  "decode_kdc A data =
     (case Unmarshal_kdc A data of
        None \<Rightarrow> None
      | Some (m, rest) \<Rightarrow> if length rest > 0 then None else Some m)"

definition encode_kdc :: "kdc_asn1 \<Rightarrow> byte list \<Rightarrow> byte list option" where
  "encode_kdc A krb5data = Marshal_kdc A \<lparr>kmMessage = krb5data, kmRealm = [], kmFlags = 0\<rparr>"

text \<open>An error page, or a body of type \<open>application/kerberos\<close>.\<close>

datatype kdc_response = KdcHttpError nat string | KdcReply "byte list"

record kdc_request =
  kqMethod :: string
  kqContentLength :: int
  kqBody :: "byte list"

text \<open>
  \<open>make\<close> panics for a negative length. The encoding error is not followed by a return, but the nil
  reply that is written then adds nothing to the error page.
\<close>

definition Handler_kdc :: "kdc_asn1 \<Rightarrow> kdc_config \<Rightarrow> kdc_net \<Rightarrow> kdc_request \<Rightarrow> (kdc_response \<times> kdc_event list) go" where
  "Handler_kdc A C N r =
     (if kqMethod r \<noteq> ''POST'' then Ret (KdcHttpError StatusMethodNotAllowed ''Method not allowed'', [])
      else let n = kqContentLength r in
      if n = -1 then Ret (KdcHttpError 411 ''Content length required'', [])
      else if n > int maxLength then Ret (KdcHttpError 413 ''Request entity too large'', [])
      else if n < 0 then Panic
      else if int (length (kqBody r)) < n then Ret (KdcHttpError StatusInternalServerError ''Error reading from stream'', [])
      else case decode_kdc A (take (nat n) (kqBody r)) of
        None \<Rightarrow> Ret (KdcHttpError StatusBadRequest ''Invalid request'', [])
      | Some msg \<Rightarrow>
          (case forward_kdc C N (kmRealm msg) (kmMessage msg) of
             (Inl e, t) \<Rightarrow> Ret (KdcHttpError StatusServiceUnavailable ''Service unavailable'', t)
           | (Inr krb5resp, t) \<Rightarrow>
               (case encode_kdc A krb5resp of
                  None \<Rightarrow> Ret (KdcHttpError StatusInternalServerError ''encoding error'', t)
                | Some reply \<Rightarrow> Ret (KdcReply reply, t))))"

subsection \<open>Framing of replies\<close>

lemma length_be32 [simp]: "length (be32 n) = 4"
  by (simp add: be32_def)

lemma be32_value_be32: "n < 2 ^ 32 \<Longrightarrow> be32_value (be32 n) = n"
  by (simp add: be32_value_def be32_def le_value_le_bytes)

lemma be32_be32_value: "length bs = 4 \<Longrightarrow> be32 (be32_value bs) = bs"
  using le_bytes_le_value [of "rev bs"] by (simp add: be32_def be32_value_def)

definition framed_reply :: "byte list \<Rightarrow> bool" where
  "framed_reply r \<longleftrightarrow> (\<exists>p. r = be32 (length p) @ p \<and> length p \<le> maxLength)"

lemma awaitReply_tcp_framed: "awaitReply_tcp conn = Some r \<Longrightarrow> framed_reply r \<and> prefix r conn"
proof -
  assume a: "awaitReply_tcp conn = Some r"
  let ?n = "be32_value (take 4 conn)"
  have c: "length conn \<ge> 4" "?n \<le> maxLength" "length (drop 4 conn) \<ge> ?n" "r = take 4 conn @ take ?n (drop 4 conn)"
    using a by (auto simp: awaitReply_tcp_def Let_def split: if_splits)
  have "be32 (length (take ?n (drop 4 conn))) = take 4 conn"
    using c(1,3) be32_be32_value [of "take 4 conn"] by (simp add: min_absorb2)
  then have "framed_reply r" unfolding framed_reply_def c(4) using c(2)
    by (intro exI [of _ "take ?n (drop 4 conn)"]) (simp add: min_le_iff_disj)
  moreover have "r = take (4 + ?n) conn" unfolding c(4) by (simp add: take_add)
  ultimately show ?thesis by (simp add: take_is_prefix)
qed

lemma awaitReply_udp_framed: "awaitReply_udp d = Some r \<Longrightarrow> framed_reply r"
  by (auto simp: awaitReply_udp_def framed_reply_def Let_def split: option.splits)

lemma awaitReply_framed: "awaitReply N kdcs i = Some r \<Longrightarrow> framed_reply r"
  by (auto simp: awaitReply_def dest: awaitReply_tcp_framed awaitReply_udp_framed split: if_splits)

lemma first_reply_Some: "first_reply rs = Some r \<Longrightarrow> Some r \<in> set rs"
  by (induction rs rule: first_reply.induct) auto

lemma first_reply_None: "first_reply rs = None \<longleftrightarrow> set rs \<subseteq> {None}"
  by (induction rs rule: first_reply.induct) auto

text \<open>
  What the client of the proxy gets does not depend on the transport: an answer of at most 128 KiB
  that a server sends as a datagram, and the same answer sent over a stream with its length before it,
  however much follows it there, become the same reply.
\<close>

theorem kdc_transports_agree:
  "length p \<le> maxLength \<Longrightarrow>
     awaitReply_udp (Some p) = Some (be32 (length p) @ p)
     \<and> awaitReply_tcp (be32 (length p) @ p @ rest) = awaitReply_udp (Some p)"
  by (simp add: awaitReply_udp_def awaitReply_tcp_def Let_def be32_value_be32 maxLength_def)

lemma kdc_transports_agree_witness:
  "awaitReply_tcp (be32 2 @ [7, 9] @ [1]) = awaitReply_udp (Some [7, 9])"
  using kdc_transports_agree [of "[7, 9]" "[1]"] by (simp add: maxLength_def numeral_2_eq_2)

subsection \<open>What is started and closed\<close>

text \<open>The servers that get as far as waiting for a reply, and the events of each server.\<close>

definition starts :: "kdc_net \<Rightarrow> byte list \<Rightarrow> (nat \<Rightarrow> Kdc) \<Rightarrow> nat \<Rightarrow> bool" where
  "starts N data kdcs i \<longleftrightarrow> knDial N i \<and> knWrite N i \<and> payload_for (kdcs i) data \<noteq> None"

definition dial_events :: "kdc_net \<Rightarrow> byte list \<Rightarrow> (nat \<Rightarrow> Kdc) \<Rightarrow> nat \<Rightarrow> kdc_event list" where
  "dial_events N data kdcs i =
     (if \<not> knDial N i then []
      else if starts N data kdcs i then [Dialled i, Sent i (the (payload_for (kdcs i) data))]
      else [Dialled i, Closed i])"

lemma dial_started: "dsStarted (dial N data kdcs d i) = dsStarted d @ (if starts N data kdcs i then [i] else [])"
  by (auto simp: dial_def starts_def Let_def split: option.splits)

lemma dial_trace: "dsTrace (dial N data kdcs d i) = dsTrace d @ dial_events N data kdcs i"
  by (auto simp: dial_def dial_events_def starts_def Let_def split: option.splits)

lemma dial_fold:
  "dsStarted (foldl (dial N data kdcs) d is) = dsStarted d @ filter (starts N data kdcs) is
   \<and> dsTrace (foldl (dial N data kdcs) d is) = dsTrace d @ concat (map (dial_events N data kdcs) is)"
  by (induction "is" arbitrary: d) (simp_all add: dial_started dial_trace)

lemma dial_all_eq:
  "dsStarted (dial_all N data kdcs) = filter (starts N data (nth kdcs)) [0..<length kdcs]"
  "dsTrace (dial_all N data kdcs) = concat (map (dial_events N data (nth kdcs)) [0..<length kdcs])"
  by (simp_all add: dial_all_def dial_fold)

fun conn_of :: "kdc_event \<Rightarrow> nat" where
  "conn_of (Dialled i) = i" | "conn_of (Sent i bs) = i" | "conn_of (Closed i) = i"

lemma events_of_conn: "e \<in> set (dial_events N data kdcs i) \<Longrightarrow> conn_of e = i"
  by (auto simp: dial_events_def split: if_splits)

lemma filter_one:
  assumes "\<And>j e. e \<in> set (f j) \<Longrightarrow> conn_of e = j"
  shows "filter (\<lambda>e. conn_of e = i) (concat (map f [0..<m])) = (if i < m then f i else [])"
proof (induction m)
  case (Suc m)
  have "filter (\<lambda>e. conn_of e = i) (f m) = (if i = m then f m else [])"
    using assms by (auto simp: filter_id_conv filter_empty_conv)
  then show ?case using Suc by (auto simp: less_Suc_eq)
qed simp

lemma filter_closes:
  "distinct is \<Longrightarrow> filter (\<lambda>e. conn_of e = i) (map Closed is) = (if i \<in> set is then [Closed i] else [])"
  by (induction "is") auto

lemma forward_trace:
  assumes "snd (forward_kdc C N realm data) \<noteq> []"
  shows "\<exists>kdcs. merge_kdcs C (if realm = [] then kcDefaultRealm C else realm) = Inr kdcs
    \<and> snd (forward_kdc C N realm data)
        = dsTrace (dial_all N data kdcs) @ map Closed (rev (dsStarted (dial_all N data kdcs)))"
  using assms by (auto simp: forward_kdc_def Let_def split: sum.splits option.splits if_splits)

text \<open>
  C32: No connection to a Kerberos server outlives the request: whatever fails and whoever answers,
  each server is dialled at most once, is sent the message at most once and only while the connection
  is open, and every connection that was opened has been closed, once, when \<open>forward\<close> returns.
\<close>

theorem kdc_connections_closed:
  "filter (\<lambda>e. conn_of e = i) (snd (forward_kdc C N realm data)) = []
   \<or> filter (\<lambda>e. conn_of e = i) (snd (forward_kdc C N realm data)) = [Dialled i, Closed i]
   \<or> (\<exists>bs. filter (\<lambda>e. conn_of e = i) (snd (forward_kdc C N realm data)) = [Dialled i, Sent i bs, Closed i])"
proof (cases "snd (forward_kdc C N realm data) = []")
  case False
  from forward_trace [OF False] obtain kdcs where t: "snd (forward_kdc C N realm data)
      = dsTrace (dial_all N data kdcs) @ map Closed (rev (dsStarted (dial_all N data kdcs)))" by blast
  have "filter (\<lambda>e. conn_of e = i) (snd (forward_kdc C N realm data))
      = (if i < length kdcs then dial_events N data (nth kdcs) i else [])
        @ (if i < length kdcs \<and> starts N data (nth kdcs) i then [Closed i] else [])"
    unfolding t dial_all_eq by (subst filter_append, subst filter_one, erule events_of_conn, subst filter_closes) auto
  then show ?thesis by (auto simp: dial_events_def starts_def)
qed simp

subsection \<open>Who is answered\<close>

lemma first_reply_map:
  assumes "set is' = set is"
  shows "(\<exists>r. first_reply (map f is') = Some r) \<longleftrightarrow> (\<exists>i \<in> set is. f i \<noteq> None)"
  using first_reply_None [of "map f is'"] assms by (auto simp: not_None_eq [symmetric] simp del: not_None_eq)

definition answering :: "kdc_config \<Rightarrow> kdc_net \<Rightarrow> string \<Rightarrow> byte list \<Rightarrow> Kdc list \<Rightarrow> nat \<Rightarrow> bool" where
  "answering C N realm data kdcs i \<longleftrightarrow>
     merge_kdcs C (if realm = [] then kcDefaultRealm C else realm) = Inr kdcs \<and> i < length kdcs
     \<and> starts N data (nth kdcs) i \<and> awaitReply N (nth kdcs) i \<noteq> None"

lemma forward_succeeds:
  assumes order: "\<And>is. set (knOrder N is) = set is"
  shows "(\<exists>r. fst (forward_kdc C N realm data) = Inr r) \<longleftrightarrow> (\<exists>kdcs i. answering C N realm data kdcs i)"
proof (cases "merge_kdcs C (if realm = [] then kcDefaultRealm C else realm)")
  case (Inr kdcs)
  let ?st = "dsStarted (dial_all N data kdcs)"
  have "(\<exists>r. fst (forward_kdc C N realm data) = Inr r)
      \<longleftrightarrow> ?st \<noteq> [] \<and> (\<exists>r. first_reply (map (awaitReply N (nth kdcs)) (knOrder N ?st)) = Some r)"
    by (auto simp: forward_kdc_def Inr Let_def split: option.splits)
  also have "\<dots> \<longleftrightarrow> (\<exists>i \<in> set ?st. awaitReply N (nth kdcs) i \<noteq> None)"
    unfolding first_reply_map [OF order] by auto
  also have "\<dots> \<longleftrightarrow> (\<exists>kdcs i. answering C N realm data kdcs i)"
    by (auto simp: answering_def Inr dial_all_eq)
  finally show ?thesis .
qed (auto simp: forward_kdc_def answering_def)

lemma forward_reply:
  assumes order: "\<And>is. set (knOrder N is) = set is" and r: "forward_kdc C N realm data = (Inr r, t)"
  shows "\<exists>kdcs i. answering C N realm data kdcs i \<and> awaitReply N (nth kdcs) i = Some r
    \<and> Sent i (the (payload_for (kdcs ! i) data)) \<in> set t"
proof -
  obtain kdcs where m: "merge_kdcs C (if realm = [] then kcDefaultRealm C else realm) = Inr kdcs"
      and f: "first_reply (map (awaitReply N (nth kdcs)) (knOrder N (dsStarted (dial_all N data kdcs)))) = Some r"
      and t: "t = dsTrace (dial_all N data kdcs) @ map Closed (rev (dsStarted (dial_all N data kdcs)))"
    using r by (auto simp: forward_kdc_def Let_def split: sum.splits option.splits if_splits)
  from first_reply_Some [OF f] obtain i where i: "i \<in> set (dsStarted (dial_all N data kdcs))" "awaitReply N (nth kdcs) i = Some r"
    by (auto simp: order)
  then have s: "i < length kdcs" "starts N data (nth kdcs) i" by (simp_all add: dial_all_eq)
  then have "Sent i (the (payload_for (kdcs ! i) data)) \<in> set (dial_events N data (nth kdcs) i)"
    by (simp add: dial_events_def starts_def)
  then have "Sent i (the (payload_for (kdcs ! i) data)) \<in> set t" using s(1) by (auto simp: t dial_all_eq)
  then show ?thesis using m s i(2) by (auto simp: answering_def)
qed

text \<open>What a request must be to get as far as \<open>forward\<close>.\<close>

definition acceptable :: "kdc_asn1 \<Rightarrow> kdc_request \<Rightarrow> KdcProxyMsg \<Rightarrow> bool" where
  "acceptable A q msg \<longleftrightarrow>
     kqMethod q = ''POST'' \<and> 0 \<le> kqContentLength q \<and> kqContentLength q \<le> int maxLength
     \<and> kqContentLength q \<le> int (length (kqBody q)) \<and> decode_kdc A (take (nat (kqContentLength q)) (kqBody q)) = Some msg"

lemma Handler_reply:
  "Handler_kdc A C N q = Ret (KdcReply b, t) \<longleftrightarrow>
     (\<exists>msg r. acceptable A q msg \<and> forward_kdc C N (kmRealm msg) (kmMessage msg) = (Inr r, t) \<and> encode_kdc A r = Some b)"
  by (auto simp: Handler_kdc_def acceptable_def Let_def not_less not_le split: option.splits prod.splits sum.splits)



end
