(* ===== verification/Go_Query.thy ===== *)
theory Go_Query
  imports Identity Go_Files Go_Http
begin

text \<open>
  Query strings, as \<open>net/url\<close> writes and reads them (\<open>QueryEscape\<close>, \<open>QueryUnescape\<close>,
  \<open>url.Values\<close>, \<open>ParseQuery\<close>), and that reading gives back what was written.
\<close>

subsection \<open>Writing\<close>

text \<open>
  \<open>url.QueryEscape\<close> and \<open>url.Values\<close>: \<open>Set\<close> replaces the values of a key, \<open>Encode\<close> writes the keys in
  order, each with its values. The query is a map with distinct keys.
\<close>

definition unreserved :: "char \<Rightarrow> bool" where
  "unreserved c \<longleftrightarrow>
     (let n = (of_char c :: nat) in 97 \<le> n \<and> n \<le> 122 \<or> 65 \<le> n \<and> n \<le> 90 \<or> 48 \<le> n \<and> n \<le> 57)
     \<or> c \<in> {CHR ''-'', CHR ''_'', CHR ''.'', CHR ''~''}"

definition upper_hex :: "nat \<Rightarrow> char" where
  "upper_hex n = (if n < 10 then char_of (48 + n) else char_of (55 + n))"

definition escape_char :: "char \<Rightarrow> string" where
  "escape_char c =
     (if unreserved c then [c]
      else if c = CHR '' '' then ''+''
      else [CHR ''%'', upper_hex (of_char c div 16), upper_hex (of_char c mod 16)])"

definition QueryEscape :: "string \<Rightarrow> string" where "QueryEscape s = concat (map escape_char s)"

type_synonym url_values = "string list go_map"

definition Values_Set :: "string \<Rightarrow> string \<Rightarrow> url_values \<Rightarrow> url_values" where
  "Values_Set k v q = AList.update k [v] q"

definition Values_Encode :: "url_values \<Rightarrow> string" where
  "Values_Encode q =
     join_strings ''&'' (concat (map (\<lambda>k. map (\<lambda>v. QueryEscape k @ ''='' @ QueryEscape v) (the (map_of q k))) (sort (map fst q))))"


subsection \<open>Reading\<close>

fun QueryUnescape :: "string \<Rightarrow> string option" where
  "QueryUnescape [] = Some []"
| "QueryUnescape (c # cs) =
     (if c = CHR ''%'' then
        (case cs of
           a # b # rest \<Rightarrow>
             (case (hex_value a, hex_value b) of
                (Some x, Some y) \<Rightarrow> map_option (\<lambda>s. char_of (16 * x + y) # s) (QueryUnescape rest)
              | _ \<Rightarrow> None)
         | _ \<Rightarrow> None)
      else map_option (\<lambda>s. (if c = CHR ''+'' then CHR '' '' else c) # s) (QueryUnescape cs))"

text \<open>A pair that cannot be read is left out; a key without \<open>=\<close> has the empty value.\<close>

definition read_pair :: "string \<Rightarrow> (string \<times> string) option" where
  "read_pair key =
     (if CHR '';'' \<in> set key \<or> key = [] then None
      else let (k, v) = (case Cut key CHR ''='' of None \<Rightarrow> (key, []) | Some kv \<Rightarrow> kv) in
        (case (QueryUnescape k, QueryUnescape v) of (Some k, Some v) \<Rightarrow> Some (k, v) | _ \<Rightarrow> None))"

definition Values_Add :: "string \<times> string \<Rightarrow> url_values \<Rightarrow> url_values" where
  "Values_Add kv q = AList.update (fst kv) ((case map_of q (fst kv) of None \<Rightarrow> [] | Some vs \<Rightarrow> vs) @ [snd kv]) q"

definition ParseQuery :: "string \<Rightarrow> url_values" where
  "ParseQuery s =
     foldl (\<lambda>q key. case read_pair key of None \<Rightarrow> q | Some kv \<Rightarrow> Values_Add kv q) [] (Split s CHR ''&'')"

subsection \<open>Reading what was written\<close>

lemma hex_upper: "n < 16 \<Longrightarrow> hex_value (upper_hex n) = Some n"
  by (simp add: hex_value_def upper_hex_def)

lemma unreserved_plain: "unreserved c \<Longrightarrow> c \<notin> {CHR ''%'', CHR ''+'', CHR ''&'', CHR ''='', CHR '';''}"
proof -
  have "\<forall>c \<in> {CHR ''%'', CHR ''+'', CHR ''&'', CHR ''='', CHR '';''}. \<not> unreserved c" by (simp add: unreserved_def)
  then show "unreserved c \<Longrightarrow> c \<notin> {CHR ''%'', CHR ''+'', CHR ''&'', CHR ''='', CHR '';''}" by blast
qed

lemma upper_hex_plain: "n < 16 \<Longrightarrow> upper_hex n \<notin> {CHR ''&'', CHR ''='', CHR '';''}"
proof -
  assume "n < 16"
  have "list_all (\<lambda>n. upper_hex n \<notin> {CHR ''&'', CHR ''='', CHR '';''}) [0..<16]" by code_simp
  then show ?thesis using \<open>n < 16\<close> by (simp only: list_all_iff set_upt) simp
qed

lemma nibbles:
  "(of_char c :: nat) div 16 < 16" "(of_char c :: nat) mod 16 < 16" "char_of (16 * ((of_char c :: nat) div 16) + of_char c mod 16) = c"
proof -
  show "(of_char c :: nat) div 16 < 16" using nat_of_char_less_256 [of c] by (simp only: less_mult_imp_div_less)
  have "16 * ((of_char c :: nat) div 16) + of_char c mod 16 = of_char c" by simp
  then show "char_of (16 * ((of_char c :: nat) div 16) + of_char c mod 16) = c" by simp
qed simp

lemma QueryUnescape_escape: "QueryUnescape (escape_char c @ s) = map_option ((#) c) (QueryUnescape s)"
proof (cases "unreserved c \<or> c = CHR '' ''")
  case True
  then show ?thesis using unreserved_plain [of c] by (cases "QueryUnescape s") (auto simp: escape_char_def)
next
  case False
  then have "escape_char c = [CHR ''%'', upper_hex (of_char c div 16), upper_hex (of_char c mod 16)]" by (simp add: escape_char_def)
  then show ?thesis by (cases "QueryUnescape s") (simp_all add: hex_upper nibbles)
qed

lemma QueryUnescape_QueryEscape: "QueryUnescape (QueryEscape s) = Some s"
  by (induction s) (simp_all add: QueryEscape_def QueryUnescape_escape)

lemma QueryEscape_plain: "c \<in> set (QueryEscape s) \<Longrightarrow> c \<notin> {CHR ''&'', CHR ''='', CHR '';''}"
proof -
  have "c \<in> set (escape_char d) \<Longrightarrow> c \<notin> {CHR ''&'', CHR ''='', CHR '';''}" for d
    using unreserved_plain [of d] upper_hex_plain [OF nibbles(1) [of d]] upper_hex_plain [OF nibbles(2) [of d]]
    by (auto simp: escape_char_def split: if_splits)
  then show "c \<in> set (QueryEscape s) \<Longrightarrow> c \<notin> {CHR ''&'', CHR ''='', CHR '';''}"
    by (auto simp: QueryEscape_def)
qed

lemma read_pair_written: "read_pair (QueryEscape k @ ''='' @ QueryEscape v) = Some (k, v)"
proof -
  have "CHR '';'' \<notin> set (QueryEscape k @ ''='' @ QueryEscape v)" "CHR ''='' \<notin> set (QueryEscape k)"
    using QueryEscape_plain [of _ k] QueryEscape_plain [of _ v] by auto
  then show ?thesis by (simp add: read_pair_def Cut_at QueryUnescape_QueryEscape)
qed

text \<open>The pairs in the order they are written, and what adding them one by one makes of them.\<close>

definition url_pairs :: "url_values \<Rightarrow> (string \<times> string) list" where
  "url_pairs q = concat (map (\<lambda>k. map (Pair k) (the (map_of q k))) (sort (map fst q)))"

lemma Values_Encode_pairs: "Values_Encode q = join_strings ''&'' (map (\<lambda>(k, v). QueryEscape k @ ''='' @ QueryEscape v) (url_pairs q))"
  by (simp add: Values_Encode_def url_pairs_def map_concat comp_def)

lemma ParseQuery_pairs: "ParseQuery (Values_Encode q) = foldl (\<lambda>q kv. Values_Add kv q) [] (url_pairs q)"
proof (cases "url_pairs q = []")
  case True
  then show ?thesis by (simp add: Values_Encode_pairs ParseQuery_def read_pair_def)
next
  case False
  let ?w = "\<lambda>(k, v). QueryEscape k @ ''='' @ QueryEscape v"
  have "CHR ''&'' \<notin> set p" if p: "p \<in> set (map ?w (url_pairs q))" for p
    using p QueryEscape_plain by fastforce
  then have "Split (Values_Encode q) CHR ''&'' = map ?w (url_pairs q)"
    unfolding Values_Encode_pairs using False by (intro Split_join) auto
  moreover have "foldl (\<lambda>q key. case read_pair key of None \<Rightarrow> q | Some kv \<Rightarrow> Values_Add kv q) a (map ?w kvs)
      = foldl (\<lambda>q kv. Values_Add kv q) a kvs" for a kvs
    by (induction kvs arbitrary: a) (auto simp: read_pair_written [simplified])
  ultimately show ?thesis by (simp add: ParseQuery_def)
qed

lemma added_lookup:
  "map_of (foldl (\<lambda>q kv. Values_Add kv q) a kvs) k =
     (if k \<in> fst ` set kvs then Some ((case map_of a k of None \<Rightarrow> [] | Some vs \<Rightarrow> vs) @ map snd (filter (\<lambda>kv. fst kv = k) kvs))
      else map_of a k)"
  by (induction kvs arbitrary: a) (auto simp: Values_Add_def update_conv' image_iff filter_empty_conv split: option.splits)

lemma pairs_filter:
  "distinct ks \<Longrightarrow> filter (\<lambda>kv. fst kv = k) (concat (map (\<lambda>k. map (Pair k) (f k)) ks)) = (if k \<in> set ks then map (Pair k) (f k) else [])"
  by (induction ks) (auto simp: filter_map comp_def filter_empty_conv)

lemma ParseQuery_Encode:
  assumes dist: "distinct (map fst q)" and full: "\<forall>vs \<in> snd ` set q. vs \<noteq> []"
  shows "map_of (ParseQuery (Values_Encode q)) = map_of q"
proof
  fix k
  have d: "distinct (sort (map fst q))" using dist by simp
  show "map_of (ParseQuery (Values_Encode q)) k = map_of q k"
  proof (cases "map_of q k")
    case None
    then have "k \<notin> fst ` set (url_pairs q)" by (force simp: url_pairs_def map_of_eq_None_iff)
    then show ?thesis using None by (simp add: ParseQuery_pairs added_lookup)
  next
    case (Some vs)
    then have k: "k \<in> set (sort (map fst q))" "vs \<noteq> []" using full map_of_SomeD [OF Some] by force+
    then have "filter (\<lambda>kv. fst kv = k) (url_pairs q) = map (Pair k) vs"
      unfolding url_pairs_def pairs_filter [OF d] using Some by simp
    moreover from this have "k \<in> fst ` set (url_pairs q)" using k(2) by (metis (mono_tags, lifting) filter_False image_eqI map_is_Nil_conv)
    ultimately show ?thesis using Some by (simp add: ParseQuery_pairs added_lookup comp_def)
  qed
qed

end
