(* ===== verification/Web_Pages.thy ===== *)
theory Web_Pages
  imports Web_Admin_Icons Web_OIDC Go_Query
begin

text \<open>
  The pages of the dashboard and what they ask for (\<open>web/dashboard_page.go\<close>), and the choice of their
  language (\<open>dashboard_i18n.go\<close>). A page is the template file it was made from and the data it was
  given; the template engine and the JSON encoder are parameters.
\<close>

subsection \<open>Languages\<close>

definition dashboardLocaleEnglish :: string where "dashboardLocaleEnglish = ''en''"
definition dashboardLocaleTraditionalChinese :: string where "dashboardLocaleTraditionalChinese = ''zh-Hant''"

definition normalizeDashboardLocale :: "(string \<Rightarrow> string) \<Rightarrow> string \<Rightarrow> string option" where
  "normalizeDashboardLocale ul value =
     (let n = ToLower ul (map (\<lambda>c. if c = CHR ''_'' then CHR ''-'' else c) (TrimSpace value)) in
      if n = [] then None
      else if HasPrefix n ''en'' then Some dashboardLocaleEnglish
      else if HasPrefix n ''zh-hant'' \<or> HasPrefix n ''zh-tw'' \<or> HasPrefix n ''zh-hk'' \<or> HasPrefix n ''zh-mo''
        then Some dashboardLocaleTraditionalChinese
      else None)"

definition dashboardLocaleFromRequest :: "(string \<Rightarrow> string) \<Rightarrow> Request \<Rightarrow> string" where
  "dashboardLocaleFromRequest ul r =
     (case normalizeDashboardLocale ul (query_get r ''lang'') of Some locale \<Rightarrow> locale | None \<Rightarrow> dashboardLocaleEnglish)"

subsection \<open>Links that switch the language\<close>

definition dashboardLanguageURL :: "string \<Rightarrow> url_values \<Rightarrow> string \<Rightarrow> string" where
  "dashboardLanguageURL path query locale =
     (let encoded = Values_Encode (Values_Set ''lang'' locale query) in
      if encoded = [] then path else path @ ''?'' @ encoded)"

record language_link =
  llCurrent :: bool
  llLabel :: string
  llURL :: string

text \<open>The second label is in UTF-8.\<close>

definition dashboardLanguageLinks :: "string \<Rightarrow> url_values \<Rightarrow> string \<Rightarrow> language_link list" where
  "dashboardLanguageLinks path query activeLocale =
    [\<lparr>llCurrent = (activeLocale = dashboardLocaleEnglish), llLabel = ''EN'',
      llURL = dashboardLanguageURL path query dashboardLocaleEnglish\<rparr>,
     \<lparr>llCurrent = (activeLocale = dashboardLocaleTraditionalChinese),
      llLabel = [CHR 0xE7, CHR 0xB9, CHR 0x81, CHR 0xE4, CHR 0xB8, CHR 0xAD],
      llURL = dashboardLanguageURL path query dashboardLocaleTraditionalChinese\<rparr>]"

subsection \<open>Pages\<close>

text \<open>
  The engine: parsing a file at a path (\<open>None\<close> when it is not a template) and executing a template
  on the page's data. \<open>template.Must\<close> panics when the built-in template does not parse.
\<close>

record page_data =
  pdLang :: string
  pdLanguageLinks :: "language_link list"
  pdAdmin :: bool

record 't template_engine =
  teParseFiles :: "string \<Rightarrow> 't option"
  teParse :: "string \<Rightarrow> 't option"
  teExecute :: "'t \<Rightarrow> page_data \<Rightarrow> string option"

datatype page = PageStatus nat | PageRedirect string | Page string

definition loadTemplateWithFallback :: "'t template_engine \<Rightarrow> os \<Rightarrow> string \<Rightarrow> string \<Rightarrow> string \<Rightarrow> disk \<Rightarrow> 't go \<times> disk" where
  "loadTemplateWithFallback T Q templatesPath filename fallback d =
     (let builtin = (case teParse T fallback of None \<Rightarrow> Panic | Some t \<Rightarrow> Ret t) in
      case resolveTemplateFile Q templatesPath filename d of
        (None, d') \<Rightarrow> (builtin, d')
      | (Some path, d') \<Rightarrow>
          (case teParseFiles T path of None \<Rightarrow> (builtin, d') | Some t \<Rightarrow> (Ret t, d')))"

definition renderTemplatePage ::
    "'t template_engine \<Rightarrow> os \<Rightarrow> string \<Rightarrow> string \<Rightarrow> string \<Rightarrow> page_data \<Rightarrow> disk \<Rightarrow> page go \<times> disk" where
  "renderTemplatePage T Q templatesPath filename fallback data d =
     (let (tmpl, d') = loadTemplateWithFallback T Q templatesPath filename fallback d in
      (go_bind tmpl (\<lambda>t. Ret (case teExecute T t data of
                               None \<Rightarrow> PageStatus StatusInternalServerError
                             | Some rendered \<Rightarrow> Page rendered)), d'))"

text \<open>\<open>fallback\<close> is the built-in text of the page; \<open>path\<close> and \<open>query\<close> are those of the request.\<close>

definition HandleDashboard ::
    "'t template_engine \<Rightarrow> os \<Rightarrow> (string \<Rightarrow> string) \<Rightarrow> string \<Rightarrow> string \<Rightarrow> string \<Rightarrow> url_values \<Rightarrow> Request \<Rightarrow> User option
      \<Rightarrow> disk \<Rightarrow> page go \<times> disk" where
  "HandleDashboard T Q ul templatesPath fallback path query r ident d =
     (case ident of
        None \<Rightarrow> (Ret (PageRedirect ''/''), d)
      | Some u \<Rightarrow>
          if \<not> authenticated u then (Ret (PageRedirect ''/''), d)
          else let locale = dashboardLocaleFromRequest ul r in
            renderTemplatePage T Q templatesPath ''dashboard.html'' fallback
              \<lparr>pdLang = locale, pdLanguageLinks = dashboardLanguageLinks path query locale, pdAdmin = False\<rparr> d)"

definition HandleAdminPage ::
    "'t template_engine \<Rightarrow> os \<Rightarrow> (string \<Rightarrow> string) \<Rightarrow> string list \<Rightarrow> string \<Rightarrow> string \<Rightarrow> string \<Rightarrow> url_values \<Rightarrow> Request \<Rightarrow> User option
      \<Rightarrow> disk \<Rightarrow> page go \<times> disk" where
  "HandleAdminPage T Q ul groups templatesPath fallback path query r ident d =
     (if rMethod r \<noteq> ''GET'' \<and> rMethod r \<noteq> ''HEAD'' then (Ret (PageStatus StatusMethodNotAllowed), d)
      else (case ident of
        None \<Rightarrow> (Ret (PageStatus StatusUnauthorized), d)
      | Some u \<Rightarrow>
          if \<not> authenticated u then (Ret (PageStatus StatusUnauthorized), d)
          else if \<not> IsAdmin (Some u) groups then (Ret (PageStatus StatusForbidden), d)
          else let locale = dashboardLocaleFromRequest ul r in
            renderTemplatePage T Q templatesPath ''admin.html'' fallback
              \<lparr>pdLang = locale, pdLanguageLinks = dashboardLanguageLinks path query locale, pdAdmin = True\<rparr> d))"

subsection \<open>The list of entries and the user\<close>

record DashboardEntrySummary =
  suID :: string
  suType :: string
  suName :: string
  suDescription :: string
  suIcon :: string
  suTarget :: string
  suHasUploadedTemplate :: bool
  suDownloadURL :: string

definition dashboardEntryActiveTarget :: "Entry \<Rightarrow> string" where
  "dashboardEntryActiveTarget e =
     (if TargetIPOverride e \<noteq> [] \<and> ForceTargetIPOverride e then TargetIPOverride e
      else if Type e = EntryTypeTemplate \<and> TargetHostOverride e \<noteq> [] then TargetHostOverride e
      else Host e)"

definition entry_summary :: "(string \<Rightarrow> string) \<Rightarrow> Entry \<Rightarrow> DashboardEntrySummary" where
  "entry_summary ul e =
     \<lparr>suID = ID e, suType = Type e, suName = Name e, suDescription = Description e,
      suIcon = NormalizeEntryIcon ul (Icon e), suTarget = dashboardEntryActiveTarget e,
      suHasUploadedTemplate = (UploadedTemplatePath e \<noteq> []),
      suDownloadURL = ''/connect/entries/'' @ ID e @ ''.rdp''\<rparr>"

definition HandleEntryList ::
    "os \<Rightarrow> Entry list codec \<Rightarrow> (string \<Rightarrow> string) \<Rightarrow> Handler \<Rightarrow> User option \<Rightarrow> (nat, DashboardEntrySummary list) io" where
  "HandleEntryList Q C ul h ident =
     (case ident of
        None \<Rightarrow> io_fail StatusUnauthorized
      | Some u \<Rightarrow>
          if \<not> authenticated u then io_fail StatusUnauthorized
          else (case dashboardStore h of
            None \<Rightarrow> io_fail StatusServiceUnavailable
          | Some s \<Rightarrow>
              io_bind (or_status (\<lambda>_. StatusInternalServerError) (store_List Q C ul s)) (\<lambda>entries.
                io_return (map (entry_summary ul) (VisibleEntries entries (Groups u))))))"

record DashboardUserInfo =
  uiUsername :: string
  uiDisplayName :: string
  uiEmail :: string
  uiGroups :: "string list"
  uiAuthenticated :: bool
  uiAuthTime :: instant
  uiIsAdmin :: bool

definition HandleDashboardUserInfo :: "string list \<Rightarrow> User option \<Rightarrow> DashboardUserInfo reply" where
  "HandleDashboardUserInfo groups ident =
     (case ident of
        None \<Rightarrow> Status StatusUnauthorized
      | Some u \<Rightarrow>
          if \<not> authenticated u then Status StatusUnauthorized
          else Json \<lparr>uiUsername = UserName u, uiDisplayName = DisplayName u, uiEmail = email u, uiGroups = Groups u,
                     uiAuthenticated = authenticated u, uiAuthTime = authTime u, uiIsAdmin = IsAdmin (Some u) groups\<rparr>)"

subsection \<open>What is listed can be downloaded\<close>

lemma HandleEntryList_reads:
  assumes "HandleEntryList Q C ul h ident d = (Inr xs, d')"
  shows "\<exists>u s es. ident = Some u \<and> authenticated u \<and> dashboardStore h = Some s \<and> stored_entries C ul s d = Some es
    \<and> xs = map (entry_summary ul) (VisibleEntries es (Groups u))"
proof -
  obtain u s where u: "ident = Some u" "authenticated u" "dashboardStore h = Some s"
    using assms by (auto simp: HandleEntryList_def io_fail_def split: option.splits if_splits)
  obtain y d1 where y: "readLocked Q C ul s d = (y, d1)" by (rule prod.exhaust)
  obtain es where "y = Inr es" "xs = map (entry_summary ul) (VisibleEntries es (Groups u))"
    using assms u y by (auto simp: HandleEntryList_def store_List_def or_status_def io_defs split: sum.splits)
  with readLocked_exact(2) [OF y] u show ?thesis by blast
qed

lemma visible_one: "length (VisibleEntries [e] gs) = 1 \<longleftrightarrow> e \<in> set (VisibleEntries (e # es) gs)"
  by (auto simp: VisibleEntries_filter)

lemma visible_mem: "e \<in> set es \<Longrightarrow> e \<in> set (VisibleEntries es gs) \<longleftrightarrow> length (VisibleEntries [e] gs) = 1"
  by (auto simp: VisibleEntries_filter)

lemma visible_sub: "e \<in> set (VisibleEntries es gs) \<Longrightarrow> e \<in> set es"
  by (auto simp: VisibleEntries_filter)

lemma serve_entry_visible:
  assumes "length (VisibleEntries [e] (Groups u)) = 1"
  shows "serve_entry ul load h s u e \<noteq> Ret (Refused StatusNotFound)"
  using assms
  by (auto simp: serve_entry_def go_bind_eq_Ret serveBuiltRDP_def serve_file_def status_defs Let_def
           split: option.splits prod.splits)

lemma serve_entry_served:
  "serve_entry ul load h s u e = Ret (Served f content) \<Longrightarrow> length (VisibleEntries [e] (Groups u)) = 1"
  by (auto simp: serve_entry_def split: if_splits)

lemma find_key: "distinct (map f xs) \<Longrightarrow> find (\<lambda>x. f x = i) xs = Some x \<longleftrightarrow> x \<in> set xs \<and> f x = i"
  by (induction xs) auto

lemma listing_matches:
  assumes list: "HandleEntryList Q C ul h ident d = (Inr xs, d1)"
    and store: "dashboardStore h = Some s" "stored_entries C ul s d = Some es" "store_inv ul es"
    and run: "HandleEntryDownload Q C ul load h ident i d = (res, d2)"
  shows "i \<in> suID ` set xs \<Longrightarrow> res \<noteq> Ret (Refused StatusNotFound)"
    and "res = Ret (Served f content) \<Longrightarrow> i \<in> suID ` set xs"
proof -
  obtain u where u: "ident = Some u" "authenticated u" and xs: "xs = map (entry_summary ul) (VisibleEntries es (Groups u))"
    using HandleEntryList_reads [OF list] store by auto
  have dist: "distinct (map ID es)" using store(3) by (simp add: store_inv_def)
  obtain y d3 where y: "readLocked Q C ul s d = (y, d3)" by (rule prod.exhaust)
  have es: "y = Inr v \<Longrightarrow> v = es" for v using readLocked_exact(2) [OF y] store(2) by simp
  have get: "get_entry i es = Some e \<longleftrightarrow> e \<in> set es \<and> ID e = i" for e
    unfolding get_entry_def by (rule find_key [OF dist])
  {
    assume "i \<in> suID ` set xs"
    then obtain e where e: "e \<in> set (VisibleEntries es (Groups u))" "ID e = i" by (auto simp: xs entry_summary_def)
    then have vis: "length (VisibleEntries [e] (Groups u)) = 1" and g: "get_entry i es = Some e"
      using visible_mem visible_sub get by blast+
    have "i \<noteq> []" using store(3) visible_sub [OF e(1)] e(2)
      by (auto simp: store_inv_def list_all_iff Validate_entry_def TrimSpace_ascii is_ascii_def)
    show "res \<noteq> Ret (Refused StatusNotFound)"
    proof (cases y)
      case (Inl err)
      then have "err \<noteq> EntryNotFound" using y
        by (auto simp: readLocked_def split: sum.splits prod.splits io_error.splits if_splits option.splits)
      then show ?thesis using run u store(1) \<open>i \<noteq> []\<close> y Inl
        by (auto simp: HandleEntryDownload_def store_Get_def io_defs status_defs)
    next
      case (Inr v)
      then have "res = serve_entry ul (load d3) h s u e"
        using run u store(1) \<open>i \<noteq> []\<close> y es g by (auto simp: HandleEntryDownload_def store_Get_def io_defs)
      then show ?thesis using serve_entry_visible [OF vis] by simp
    qed
  }
  assume served: "res = Ret (Served f content)"
  then obtain v e where v: "y = Inr v" "get_entry i v = Some e" "serve_entry ul (load d3) h s u e = Ret (Served f content)"
    using run u store(1) y
    by (auto simp: HandleEntryDownload_def store_Get_def io_defs split: sum.splits option.splits if_splits)
  have "get_entry i es = Some e" using v(2) es [OF v(1)] by simp
  then have e: "e \<in> set es" "ID e = i" using get [of e] by simp_all
  have "e \<in> set (VisibleEntries es (Groups u))" using visible_mem [OF e(1)] serve_entry_served [OF v(3)] by simp
  then show "i \<in> suID ` set xs" using e(2) by (force simp: xs entry_summary_def)
qed

subsection \<open>Following a language link\<close>

lemma locales_normalize:
  "normalizeDashboardLocale ul dashboardLocaleEnglish = Some dashboardLocaleEnglish"
  "normalizeDashboardLocale ul dashboardLocaleTraditionalChinese = Some dashboardLocaleTraditionalChinese"
proof -
  have t: "TrimSpace ''en'' = ''en''" "TrimSpace ''zh-Hant'' = ''zh-Hant''"
    by (simp_all add: TrimSpace_ascii is_ascii_def ascii_space_def)
  have l: "ToLower ul ''en'' = ''en''" "ToLower ul ''zh-Hant'' = ''zh-hant''"
    by (simp add: ToLower_def is_ascii_def ascii_lower_def, code_simp)
  show "normalizeDashboardLocale ul dashboardLocaleEnglish = Some dashboardLocaleEnglish"
    "normalizeDashboardLocale ul dashboardLocaleTraditionalChinese = Some dashboardLocaleTraditionalChinese"
    by (simp_all add: normalizeDashboardLocale_def dashboardLocaleEnglish_def dashboardLocaleTraditionalChinese_def t l HasPrefix_def Let_def)
qed

lemma locale_of_request:
  "rQuery r ''lang'' = Some [locale] \<Longrightarrow> locale \<in> {dashboardLocaleEnglish, dashboardLocaleTraditionalChinese} \<Longrightarrow>
     dashboardLocaleFromRequest ul r = locale"
  by (auto simp: dashboardLocaleFromRequest_def query_get_def locales_normalize)

lemma Values_Set_query:
  assumes "distinct (map fst q)" "\<forall>vs \<in> snd ` set q. vs \<noteq> []"
  shows "map_of (ParseQuery (Values_Encode (Values_Set k v q))) = (map_of q)(k \<mapsto> [v])"
proof -
  have "set (AList.update k [v] q) \<subseteq> insert (k, [v]) (set q)" by (induction q) auto
  then have "\<forall>vs \<in> snd ` set (Values_Set k v q). vs \<noteq> []" using assms(2) by (auto simp: Values_Set_def)
  moreover have "distinct (map fst (Values_Set k v q))" using assms(1) by (simp add: Values_Set_def distinct_update)
  ultimately show ?thesis by (simp add: ParseQuery_Encode) (simp add: Values_Set_def update_conv')
qed

text \<open>
  A language link leads to the same page in the other language: its query is the one of the current
  request with the language set and nothing else changed, whatever characters it has; the
  page it requests is shown in that language; and the link of the language shown is the one marked.
\<close>

theorem language_links_switch:
  assumes query: "distinct (map fst q)" "\<forall>vs \<in> snd ` set q. vs \<noteq> []"
    and x: "x \<in> set (dashboardLanguageLinks path q (dashboardLocaleFromRequest ul r))"
  shows "\<exists>encoded locale. llURL x = path @ ''?'' @ encoded
    \<and> map_of (ParseQuery encoded) = (map_of q)(''lang'' \<mapsto> [locale])
    \<and> (\<forall>r'. rQuery r' = map_of (ParseQuery encoded) \<longrightarrow> dashboardLocaleFromRequest ul r' = locale)
    \<and> (llCurrent x \<longleftrightarrow> dashboardLocaleFromRequest ul r = locale)"
proof -
  obtain loc where l: "loc \<in> {dashboardLocaleEnglish, dashboardLocaleTraditionalChinese}"
      "llURL x = dashboardLanguageURL path q loc" "llCurrent x \<longleftrightarrow> dashboardLocaleFromRequest ul r = loc"
  proof -
    note that [of dashboardLocaleEnglish] that [of dashboardLocaleTraditionalChinese]
    then show ?thesis using x by (auto simp: dashboardLanguageLinks_def)
  qed
  let ?e = "Values_Encode (Values_Set ''lang'' loc q)"
  have m: "map_of (ParseQuery ?e) = (map_of q)(''lang'' \<mapsto> [loc])" by (rule Values_Set_query [OF query])
  then have "?e \<noteq> []" by (auto simp: ParseQuery_def read_pair_def dest: fun_cong [of _ _ "''lang''"])
  then have "llURL x = path @ ''?'' @ ?e" using l(2) by (simp add: dashboardLanguageURL_def Let_def)
  moreover have "\<forall>r'. rQuery r' = map_of (ParseQuery ?e) \<longrightarrow> dashboardLocaleFromRequest ul r' = loc"
    using locale_of_request l(1) by (simp add: m)
  ultimately show ?thesis using m l(3) by blast
qed

lemma language_links_switch_witness:
  "\<exists>x \<in> set (dashboardLanguageLinks ''/admin'' [(''q'', [''a&b''])] (dashboardLocaleFromRequest id sample_get)).
     \<exists>encoded locale. llURL x = ''/admin'' @ ''?'' @ encoded \<and> map_of (ParseQuery encoded) ''q'' = Some [''a&b'']"
proof -
  let ?q = "[(''q'', [''a&b''])]"
  have q: "distinct (map fst ?q)" "\<forall>vs \<in> snd ` set ?q. vs \<noteq> []" by simp_all
  obtain x where x: "x \<in> set (dashboardLanguageLinks ''/admin'' ?q (dashboardLocaleFromRequest id sample_get))"
    by (simp add: dashboardLanguageLinks_def) blast
  from language_links_switch [OF q x] x show ?thesis by fastforce
qed

end
