(* ===== verification/Web_Translations.thy ===== *)
theory Web_Translations
  imports Web_Pages Utf16
begin

text \<open>
  The texts of the dashboard (\<open>web/dashboard_i18n.go\<close>) in both languages, and how they are put into
  the script of a page. A message structure is the list of its fields, with their JSON names, in the
  order of the declaration of its type; \<open>utf8\<close> of code points is the text they encode.
\<close>

datatype message = Message string | Labels "(string \<times> string) list"

type_synonym messages = "(string \<times> message) list"

subsection \<open>The fields and the texts\<close>

definition dashboardMessages :: "string list" where
  "dashboardMessages =
    [''adminLink'', ''downloadButton'', ''downloading'', ''emptyState'', ''entryIcons'', ''entryTypes'', ''heading'',
    ''loadErrorPrefix'', ''loadingEntries'', ''loadingUser'', ''noDescription'', ''retryButton'', ''searchPlaceholder'', ''subtitle'',
    ''summaryHosts'', ''summaryTemplates'', ''summaryTotal'', ''unknownUser'', ''uploadedTemplateLabel'', ''windowTitle'']"

definition adminMessages :: "string list" where
  "adminMessages =
    [''allowedGroupsLabel'', ''allowedGroupsPlaceholder'', ''backToDashboard'', ''createDirectAuthUserButton'',
    ''createDirectAuthUserHeading'', ''createAuthUserErrorPrefix'', ''createDirectAuthUserSuccess'', ''createHostEntryButton'',
    ''createHostEntryErrorPrefix'', ''createHostEntryHeading'', ''createHostEntrySuccess'', ''createTemplateEntryHeading'',
    ''currentBrandingHeading'', ''currentIconAlt'', ''currentIconHint'', ''currentDirectAuthUsersHeading'', ''currentEntriesHeading'',
    ''defaultIconLabel'', ''deleteButton'', ''deleteIconErrorPrefix'', ''deleteConfirm'', ''deleteAuthUserErrorPrefix'',
    ''deleteEntryErrorPrefix'', ''deleteSuccess'', ''disableButton'', ''descriptionLabel'', ''disabledStatus'', ''editButton'',
    ''entryIconLabel'', ''entryIcons'', ''enableButton'', ''enabledLabel'', ''enabledStatus'', ''entryTypes'', ''heading'',
    ''hostLabel'', ''hostPlaceholder'', ''iconFileLabel'', ''iconUploadHint'', ''loadAuthUsersErrorPrefix'', ''loadIconsErrorPrefix'',
    ''loadEntriesErrorPrefix'', ''loadUserErrorPrefix'', ''loadingUser'', ''nameLabel'', ''newPasswordLabel'',
    ''noAuthUsersConfigured'', ''noDescription'', ''noEntriesConfigured'', ''passwordKeepPlaceholder'', ''passwordLabel'',
    ''rdpTemplateFileLabel'', ''saveButton'', ''saveAuthUserErrorPrefix'', ''selectIconButton'', ''selectIconErrorPrefix'',
    ''selectIconSuccess'', ''saveEntryErrorPrefix'', ''saveSuccess'', ''subtitle'', ''tabBranding'', ''tabDirectAuthUsers'',
    ''tabPublishedEntries'', ''templateSuggestionApplied'', ''templateSuggestionHint'', ''templateSuggestionReadError'',
    ''templateSuggestionUnavailable'', ''targetHostOverrideLabel'', ''targetHostOverridePlaceholder'', ''targetIPOverrideLabel'',
    ''targetIPOverridePlaceholder'', ''forceTargetIPOverrideLabel'', ''toggleEnabledButton'', ''unknownUser'',
    ''uploadedTemplateLabel'', ''updateAuthUserErrorPrefix'', ''updateEntryErrorPrefix'', ''updateSuccess'', ''uploadIconButton'',
    ''uploadIconErrorPrefix'', ''uploadIconHeading'', ''uploadIconSuccess'', ''uploadTemplateEntryButton'',
    ''uploadTemplateEntryErrorPrefix'', ''uploadTemplateEntrySuccess'', ''usernameLabel'', ''windowTitle'']"

definition dashboard_chinese :: messages where
  "dashboard_chinese =
    [(''adminLink'', Message (utf8 [31649, 29702])),
     (''downloadButton'', Message (utf8 [19979, 36617, 32, 82, 68, 80])),
     (''downloading'', Message (utf8 [27491, 22312, 19979, 36617, 32, 37, 115, 12290])),
     (''emptyState'', Message (utf8 [30446, 21069, 27794, 26377, 21487, 20379, 24744, 32676, 32068, 20351, 29992, 30340, 38917, 30446, 12290])),
     (''entryIcons'', Labels [(''window'', utf8 [35222, 31383]), (''browser'', utf8 [28687, 35261, 22120]), (''terminal'', utf8 [32066, 31471, 27231]), (''folder'', utf8 [27284, 26696, 32317, 31649]), (''database'', utf8 [36039, 26009, 24235]), (''word'', ''Word''), (''excel'', ''Excel''), (''powerpoint'', ''PowerPoint''), (''outlook'', ''Outlook'')]),
     (''entryTypes'', Labels [(''host'', utf8 [20027, 27231]), (''template'', utf8 [31684, 26412])]),
     (''heading'', Message (utf8 [36899, 32218, 20736, 34920, 26495])),
     (''loadErrorPrefix'', Message (utf8 [28961, 27861, 36617, 20837, 20736, 34920, 26495, 65306])),
     (''loadingEntries'', Message (utf8 [27491, 22312, 36617, 20837, 20736, 34920, 26495, 38917, 30446, 46, 46, 46])),
     (''loadingUser'', Message (utf8 [36617, 20837, 20013, 46, 46, 46])),
     (''noDescription'', Message (utf8 [26410, 25552, 20379, 25551, 36848, 12290])),
     (''retryButton'', Message (utf8 [37325, 35430])),
     (''searchPlaceholder'', Message (utf8 [25628, 23563, 38917, 30446, 46, 46, 46])),
     (''subtitle'', Message (utf8 [36984, 21462, 24050, 30332, 24067, 30340, 38917, 30446, 20006, 19979, 36617, 20854, 32, 82, 68, 80, 32, 27284, 26696, 12290])),
     (''summaryHosts'', Message (utf8 [20027, 27231])),
     (''summaryTemplates'', Message (utf8 [31684, 26412])),
     (''summaryTotal'', Message (utf8 [32317, 38917, 30446])),
     (''unknownUser'', Message (utf8 [26410, 30693, 20351, 29992, 32773])),
     (''uploadedTemplateLabel'', Message (utf8 [24050, 19978, 20659, 31684, 26412])),
     (''windowTitle'', Message (utf8 [82, 68, 80, 32, 71, 97, 116, 101, 119, 97, 121, 32, 20736, 34920, 26495]))]"

definition dashboard_english :: messages where
  "dashboard_english =
    [(''adminLink'', Message ''Admin''),
     (''downloadButton'', Message ''Download RDP''),
     (''downloading'', Message ''Downloading %s.''),
     (''emptyState'', Message ''No entries are currently available for your groups.''),
     (''entryIcons'', Labels [(''window'', ''Window''), (''browser'', ''Browser''), (''terminal'', ''Terminal''), (''folder'', ''File Explorer''), (''database'', ''Database''), (''word'', ''Word''), (''excel'', ''Excel''), (''powerpoint'', ''PowerPoint''), (''outlook'', ''Outlook'')]),
     (''entryTypes'', Labels [(''host'', ''Host''), (''template'', ''Template'')]),
     (''heading'', Message ''Connection Dashboard''),
     (''loadErrorPrefix'', Message ''Unable to load dashboard:''),
     (''loadingEntries'', Message ''Loading dashboard entries...''),
     (''loadingUser'', Message ''Loading...''),
     (''noDescription'', Message ''No description provided.''),
     (''retryButton'', Message ''Retry''),
     (''searchPlaceholder'', Message ''Search entries...''),
     (''subtitle'', Message ''Select a published entry and download its RDP file.''),
     (''summaryHosts'', Message ''Hosts''),
     (''summaryTemplates'', Message ''Templates''),
     (''summaryTotal'', Message ''Total entries''),
     (''unknownUser'', Message ''Unknown User''),
     (''uploadedTemplateLabel'', Message ''Uploaded template''),
     (''windowTitle'', Message ''RDP Gateway Dashboard'')]"

definition admin_chinese :: messages where
  "admin_chinese =
    [(''allowedGroupsLabel'', Message (utf8 [20801, 35377, 30340, 32676, 32068, 65288, 20197, 36887, 34399, 20998, 38548, 65289])),
     (''allowedGroupsPlaceholder'', Message ''homelab-users,rdpgw-admins''),
     (''backToDashboard'', Message (utf8 [36820, 22238, 20736, 34920, 26495])),
     (''createDirectAuthUserButton'', Message (utf8 [24314, 31435, 30452, 25509, 39511, 35657, 20351, 29992, 32773])),
     (''createDirectAuthUserHeading'', Message (utf8 [24314, 31435, 30452, 25509, 39511, 35657, 20351, 29992, 32773])),
     (''createAuthUserErrorPrefix'', Message (utf8 [28961, 27861, 24314, 31435, 30452, 25509, 39511, 35657, 20351, 29992, 32773, 65306])),
     (''createDirectAuthUserSuccess'', Message (utf8 [24050, 24314, 31435, 30452, 25509, 39511, 35657, 20351, 29992, 32773, 12290])),
     (''createHostEntryButton'', Message (utf8 [24314, 31435, 20027, 27231, 38917, 30446])),
     (''createHostEntryErrorPrefix'', Message (utf8 [28961, 27861, 24314, 31435, 20027, 27231, 38917, 30446, 65306])),
     (''createHostEntryHeading'', Message (utf8 [24314, 31435, 20027, 27231, 38917, 30446])),
     (''createHostEntrySuccess'', Message (utf8 [24050, 24314, 31435, 20027, 27231, 38917, 30446, 12290])),
     (''createTemplateEntryHeading'', Message (utf8 [24314, 31435, 31684, 26412, 38917, 30446])),
     (''currentBrandingHeading'', Message (utf8 [30446, 21069, 30340, 32178, 31449, 22294, 31034])),
     (''currentIconAlt'', Message (utf8 [30446, 21069, 32178, 31449, 22294, 31034])),
     (''currentIconHint'', Message (utf8 [27492, 22294, 31034, 26371, 29992, 26044, 28687, 35261, 22120, 20998, 38913, 33287, 38913, 39318, 27161, 35468, 12290])),
     (''currentDirectAuthUsersHeading'', Message (utf8 [30446, 21069, 30340, 30452, 25509, 39511, 35657, 20351, 29992, 32773])),
     (''currentEntriesHeading'', Message (utf8 [30446, 21069, 30340, 38917, 30446])),
     (''defaultIconLabel'', Message (utf8 [38928, 35373, 32, 82, 68, 80, 32, 71, 97, 116, 101, 119, 97, 121, 32, 22294, 31034])),
     (''deleteButton'', Message (utf8 [21034, 38500])),
     (''deleteIconErrorPrefix'', Message (utf8 [28961, 27861, 21034, 38500, 22294, 31034, 65306])),
     (''deleteConfirm'', Message (utf8 [30906, 23450, 35201, 21034, 38500, 32, 37, 115, 32, 21966, 65311])),
     (''deleteAuthUserErrorPrefix'', Message (utf8 [28961, 27861, 21034, 38500, 30452, 25509, 39511, 35657, 20351, 29992, 32773, 65306])),
     (''deleteEntryErrorPrefix'', Message (utf8 [28961, 27861, 21034, 38500, 38917, 30446, 65306])),
     (''deleteSuccess'', Message (utf8 [24050, 21034, 38500, 32, 37, 115, 12290])),
     (''disableButton'', Message (utf8 [20572, 29992])),
     (''descriptionLabel'', Message (utf8 [25551, 36848])),
     (''disabledStatus'', Message (utf8 [24050, 20572, 29992])),
     (''editButton'', Message (utf8 [32232, 36655])),
     (''entryIconLabel'', Message (utf8 [38917, 30446, 22294, 31034])),
     (''entryIcons'', Labels [(''window'', utf8 [35222, 31383]), (''browser'', utf8 [28687, 35261, 22120]), (''terminal'', utf8 [32066, 31471, 27231]), (''folder'', utf8 [27284, 26696, 32317, 31649]), (''database'', utf8 [36039, 26009, 24235]), (''word'', ''Word''), (''excel'', ''Excel''), (''powerpoint'', ''PowerPoint''), (''outlook'', ''Outlook'')]),
     (''enableButton'', Message (utf8 [21855, 29992])),
     (''enabledLabel'', Message (utf8 [21855, 29992])),
     (''enabledStatus'', Message (utf8 [24050, 21855, 29992])),
     (''entryTypes'', Labels [(''host'', utf8 [20027, 27231]), (''template'', utf8 [31684, 26412])]),
     (''heading'', Message (utf8 [38917, 30446, 31649, 29702])),
     (''hostLabel'', Message (utf8 [20027, 27231, 65288, 104, 111, 115, 116, 58, 112, 111, 114, 116, 65289])),
     (''hostPlaceholder'', Message ''lab.internal:3389''),
     (''iconFileLabel'', Message (utf8 [22294, 31034, 27284, 26696])),
     (''iconUploadHint'', Message (utf8 [25903, 25588, 32, 46, 105, 99, 111, 12289, 46, 105, 99, 111, 110, 12289, 46, 112, 110, 103, 12289, 46, 106, 112, 103, 32, 25110, 32, 46, 106, 112, 101, 103, 12290, 19978, 20659, 24460, 26371, 31435, 21363, 35373, 28858, 30446, 21069, 22294, 31034, 12290])),
     (''loadAuthUsersErrorPrefix'', Message (utf8 [28961, 27861, 36617, 20837, 30452, 25509, 39511, 35657, 20351, 29992, 32773, 65306])),
     (''loadIconsErrorPrefix'', Message (utf8 [28961, 27861, 36617, 20837, 22294, 31034, 65306])),
     (''loadEntriesErrorPrefix'', Message (utf8 [28961, 27861, 36617, 20837, 38917, 30446, 65306])),
     (''loadUserErrorPrefix'', Message (utf8 [28961, 27861, 36617, 20837, 20351, 29992, 32773, 36039, 35338, 65306])),
     (''loadingUser'', Message (utf8 [36617, 20837, 20013, 46, 46, 46])),
     (''nameLabel'', Message (utf8 [21517, 31281])),
     (''newPasswordLabel'', Message (utf8 [26032, 23494, 30908])),
     (''noAuthUsersConfigured'', Message (utf8 [30446, 21069, 27794, 26377, 24050, 35373, 23450, 30340, 30452, 25509, 39511, 35657, 20351, 29992, 32773, 12290])),
     (''noDescription'', Message (utf8 [26410, 25552, 20379, 25551, 36848, 12290])),
     (''noEntriesConfigured'', Message (utf8 [30446, 21069, 27794, 26377, 24050, 35373, 23450, 30340, 38917, 30446, 12290])),
     (''passwordKeepPlaceholder'', Message (utf8 [30041, 31354, 20197, 20445, 30041, 30446, 21069, 23494, 30908])),
     (''passwordLabel'', Message (utf8 [23494, 30908])),
     (''rdpTemplateFileLabel'', Message (utf8 [82, 68, 80, 32, 31684, 26412, 27284, 26696])),
     (''saveButton'', Message (utf8 [20786, 23384])),
     (''saveAuthUserErrorPrefix'', Message (utf8 [28961, 27861, 20786, 23384, 30452, 25509, 39511, 35657, 20351, 29992, 32773, 65306])),
     (''selectIconButton'', Message (utf8 [35373, 28858, 30446, 21069, 22294, 31034])),
     (''selectIconErrorPrefix'', Message (utf8 [28961, 27861, 36984, 21462, 22294, 31034, 65306])),
     (''selectIconSuccess'', Message (utf8 [24050, 36984, 21462, 32, 37, 115, 12290])),
     (''saveEntryErrorPrefix'', Message (utf8 [28961, 27861, 20786, 23384, 38917, 30446, 65306])),
     (''saveSuccess'', Message (utf8 [24050, 20786, 23384, 32, 37, 115, 12290])),
     (''subtitle'', Message (utf8 [24314, 31435, 20006, 31649, 29702, 24050, 30332, 24067, 30340, 20027, 27231, 33287, 31684, 26412, 24335, 38917, 30446, 12290])),
     (''tabBranding'', Message (utf8 [21697, 29260, 22294, 31034])),
     (''tabDirectAuthUsers'', Message (utf8 [30452, 25509, 39511, 35657, 20351, 29992, 32773])),
     (''tabPublishedEntries'', Message (utf8 [24050, 30332, 24067, 38917, 30446])),
     (''templateSuggestionApplied'', Message (utf8 [24050, 26681, 25818, 31684, 26412, 24314, 35696, 65306, 37, 115, 12290])),
     (''templateSuggestionHint'', Message (utf8 [36984, 21462, 32, 46, 114, 100, 112, 32, 27284, 26696, 24460, 65292, 31995, 32113, 26371, 22312, 21487, 34892, 26178, 24314, 35696, 21517, 31281, 33287, 22294, 31034, 12290])),
     (''templateSuggestionReadError'', Message (utf8 [28961, 27861, 22312, 28687, 35261, 22120, 20013, 35712, 21462, 25152, 36984, 31684, 26412, 12290])),
     (''templateSuggestionUnavailable'', Message (utf8 [31684, 26412, 20013, 27794, 26377, 21487, 36776, 35672, 30340, 25033, 29992, 31243, 24335, 21517, 31281, 25110, 22294, 31034, 25552, 31034, 12290])),
     (''targetHostOverrideLabel'', Message (utf8 [30446, 27161, 20027, 27231, 35206, 23531, 65288, 21487, 36984, 65289])),
     (''targetHostOverridePlaceholder'', Message ''app.internal:3389''),
     (''targetIPOverrideLabel'', Message (utf8 [30446, 27161, 32, 73, 80, 32, 35206, 23531, 65288, 21487, 36984, 65289])),
     (''targetIPOverridePlaceholder'', Message ''10.0.0.25''),
     (''forceTargetIPOverrideLabel'', Message (utf8 [24375, 21046, 20351, 29992, 30446, 27161, 32, 73, 80, 32, 35206, 23531])),
     (''toggleEnabledButton'', Message (utf8 [20999, 25563, 21855, 29992, 29376, 24907])),
     (''unknownUser'', Message (utf8 [26410, 30693, 20351, 29992, 32773])),
     (''uploadedTemplateLabel'', Message (utf8 [24050, 19978, 20659, 31684, 26412])),
     (''updateAuthUserErrorPrefix'', Message (utf8 [28961, 27861, 26356, 26032, 30452, 25509, 39511, 35657, 20351, 29992, 32773, 65306])),
     (''updateEntryErrorPrefix'', Message (utf8 [28961, 27861, 26356, 26032, 38917, 30446, 65306])),
     (''updateSuccess'', Message (utf8 [24050, 26356, 26032, 32, 37, 115, 12290])),
     (''uploadIconButton'', Message (utf8 [19978, 20659, 20006, 20351, 29992, 22294, 31034])),
     (''uploadIconErrorPrefix'', Message (utf8 [28961, 27861, 19978, 20659, 22294, 31034, 65306])),
     (''uploadIconHeading'', Message (utf8 [19978, 20659, 32178, 31449, 22294, 31034])),
     (''uploadIconSuccess'', Message (utf8 [24050, 19978, 20659, 20006, 36984, 21462, 22294, 31034, 12290])),
     (''uploadTemplateEntryButton'', Message (utf8 [19978, 20659, 31684, 26412, 38917, 30446])),
     (''uploadTemplateEntryErrorPrefix'', Message (utf8 [28961, 27861, 19978, 20659, 31684, 26412, 38917, 30446, 65306])),
     (''uploadTemplateEntrySuccess'', Message (utf8 [24050, 19978, 20659, 31684, 26412, 38917, 30446, 12290])),
     (''usernameLabel'', Message (utf8 [20351, 29992, 32773, 21517, 31281])),
     (''windowTitle'', Message (utf8 [82, 68, 80, 32, 71, 97, 116, 101, 119, 97, 121, 32, 31649, 29702]))]"

definition admin_english :: messages where
  "admin_english =
    [(''allowedGroupsLabel'', Message ''Allowed Groups (comma separated)''),
     (''allowedGroupsPlaceholder'', Message ''homelab-users,rdpgw-admins''),
     (''backToDashboard'', Message ''Back to Dashboard''),
     (''createDirectAuthUserButton'', Message ''Create RDP Gateway User''),
     (''createDirectAuthUserHeading'', Message ''Create RDP Gateway User''),
     (''createAuthUserErrorPrefix'', Message ''Unable to create auth user:''),
     (''createDirectAuthUserSuccess'', Message ''Direct auth user created.''),
     (''createHostEntryButton'', Message ''Create Host Entry''),
     (''createHostEntryErrorPrefix'', Message ''Unable to create host entry:''),
     (''createHostEntryHeading'', Message ''Create Host Entry''),
     (''createHostEntrySuccess'', Message ''Host entry created.''),
     (''createTemplateEntryHeading'', Message ''Create Template Entry''),
     (''currentBrandingHeading'', Message ''Current Web Icon''),
     (''currentIconAlt'', Message ''Current web icon''),
     (''currentIconHint'', Message ''This icon is used for browser tabs and the page header logo.''),
     (''currentDirectAuthUsersHeading'', Message ''Current Direct Auth Users''),
     (''currentEntriesHeading'', Message ''Current Entries''),
     (''defaultIconLabel'', Message ''Default RDP Gateway icon''),
     (''deleteButton'', Message ''Delete''),
     (''deleteIconErrorPrefix'', Message ''Unable to delete icon:''),
     (''deleteConfirm'', Message ''Are you sure you want to delete %s?''),
     (''deleteAuthUserErrorPrefix'', Message ''Unable to delete auth user:''),
     (''deleteEntryErrorPrefix'', Message ''Unable to delete entry:''),
     (''deleteSuccess'', Message ''Deleted %s.''),
     (''disableButton'', Message ''Disable''),
     (''descriptionLabel'', Message ''Description''),
     (''disabledStatus'', Message ''Disabled''),
     (''editButton'', Message ''Edit''),
     (''entryIconLabel'', Message ''Entry Icon''),
     (''entryIcons'', Labels [(''window'', ''Window''), (''browser'', ''Browser''), (''terminal'', ''Terminal''), (''folder'', ''File Explorer''), (''database'', ''Database''), (''word'', ''Word''), (''excel'', ''Excel''), (''powerpoint'', ''PowerPoint''), (''outlook'', ''Outlook'')]),
     (''enableButton'', Message ''Enable''),
     (''enabledLabel'', Message ''Enabled''),
     (''enabledStatus'', Message ''Enabled''),
     (''entryTypes'', Labels [(''host'', ''Host''), (''template'', ''Template'')]),
     (''heading'', Message ''Entry Administration''),
     (''hostLabel'', Message ''Host (host:port)''),
     (''hostPlaceholder'', Message ''lab.internal:3389''),
     (''iconFileLabel'', Message ''Icon File''),
     (''iconUploadHint'', Message ''Supports .ico, .icon, .png, .jpg, or .jpeg. Uploaded icons become active immediately.''),
     (''loadAuthUsersErrorPrefix'', Message ''Unable to load auth users:''),
     (''loadIconsErrorPrefix'', Message ''Unable to load icons:''),
     (''loadEntriesErrorPrefix'', Message ''Unable to load entries:''),
     (''loadUserErrorPrefix'', Message ''Unable to load user information:''),
     (''loadingUser'', Message ''Loading...''),
     (''nameLabel'', Message ''Name''),
     (''newPasswordLabel'', Message ''New Password''),
     (''noAuthUsersConfigured'', Message ''No direct auth users configured yet.''),
     (''noDescription'', Message ''No description provided.''),
     (''noEntriesConfigured'', Message ''No entries configured yet.''),
     (''passwordKeepPlaceholder'', Message ''Leave blank to keep current password''),
     (''passwordLabel'', Message ''Password''),
     (''rdpTemplateFileLabel'', Message ''RDP Template File''),
     (''saveButton'', Message ''Save''),
     (''saveAuthUserErrorPrefix'', Message ''Unable to save auth user:''),
     (''selectIconButton'', Message ''Use This Icon''),
     (''selectIconErrorPrefix'', Message ''Unable to select icon:''),
     (''selectIconSuccess'', Message ''Selected %s.''),
     (''saveEntryErrorPrefix'', Message ''Unable to save entry:''),
     (''saveSuccess'', Message ''Saved %s.''),
     (''subtitle'', Message ''Create and manage published hosts and template-based entries.''),
     (''tabBranding'', Message ''Branding''),
     (''tabDirectAuthUsers'', Message ''Direct Auth Users''),
     (''tabPublishedEntries'', Message ''Published Entries''),
     (''templateSuggestionApplied'', Message ''Suggested from template: %s.''),
     (''templateSuggestionHint'', Message ''Selecting an .rdp file can suggest a name and icon when possible.''),
     (''templateSuggestionReadError'', Message ''Unable to inspect the selected template in the browser.''),
     (''templateSuggestionUnavailable'', Message ''The template did not include a recognizable app name or icon hint.''),
     (''targetHostOverrideLabel'', Message ''Target Host Override (optional)''),
     (''targetHostOverridePlaceholder'', Message ''app.internal:3389''),
     (''targetIPOverrideLabel'', Message ''Target IP Override (optional)''),
     (''targetIPOverridePlaceholder'', Message ''10.0.0.25''),
     (''forceTargetIPOverrideLabel'', Message ''Force target IP override''),
     (''toggleEnabledButton'', Message ''Toggle Enabled''),
     (''unknownUser'', Message ''Unknown User''),
     (''uploadedTemplateLabel'', Message ''Uploaded template''),
     (''updateAuthUserErrorPrefix'', Message ''Unable to update auth user:''),
     (''updateEntryErrorPrefix'', Message ''Unable to update entry:''),
     (''updateSuccess'', Message ''Updated %s.''),
     (''uploadIconButton'', Message ''Upload and Use Icon''),
     (''uploadIconErrorPrefix'', Message ''Unable to upload icon:''),
     (''uploadIconHeading'', Message ''Upload Web Icon''),
     (''uploadIconSuccess'', Message ''Icon uploaded and selected.''),
     (''uploadTemplateEntryButton'', Message ''Upload Template Entry''),
     (''uploadTemplateEntryErrorPrefix'', Message ''Unable to upload template entry:''),
     (''uploadTemplateEntrySuccess'', Message ''Template entry uploaded.''),
     (''usernameLabel'', Message ''Username''),
     (''windowTitle'', Message ''RDP Gateway Admin'')]"

definition dashboardMessagesForLocale :: "string \<Rightarrow> messages" where
  "dashboardMessagesForLocale loc = (if loc = dashboardLocaleTraditionalChinese then dashboard_chinese else dashboard_english)"

definition adminMessagesForLocale :: "string \<Rightarrow> messages" where
  "adminMessagesForLocale loc = (if loc = dashboardLocaleTraditionalChinese then admin_chinese else admin_english)"

subsection \<open>Into the script of a page\<close>

text \<open>
  \<open>json.Marshal\<close> on these structures: the fields in the order of the declaration, a map by its sorted
  keys, and strings with the escapes of the standard library, which include those for HTML. The
  texts are valid UTF-8.
\<close>

definition hex4 :: "nat \<Rightarrow> string" where
  "hex4 n = [CHR 0x5C, CHR ''u'', hex_digit (n div 4096 mod 16), hex_digit (n div 256 mod 16), hex_digit (n div 16 mod 16), hex_digit (n mod 16)]"

definition json_rune :: "nat \<Rightarrow> string" where
  "json_rune r =
     (if r = 0x22 \<or> r = 0x5C then [CHR 0x5C, char_of r]
      else if r = 8 then [CHR 0x5C, CHR ''b'']
      else if r = 12 then [CHR 0x5C, CHR ''f'']
      else if r = 10 then [CHR 0x5C, CHR ''n'']
      else if r = 13 then [CHR 0x5C, CHR ''r'']
      else if r = 9 then [CHR 0x5C, CHR ''t'']
      else if r < 0x20 \<or> r \<in> {0x3C, 0x3E, 0x26} then hex4 r
      else if r = 0x2028 \<or> r = 0x2029 then hex4 r
      else string_of_bytes (utf8_EncodeRune r))"

definition json_string :: "string \<Rightarrow> string" where
  "json_string s = [CHR 0x22] @ concat (map json_rune (runes_of (bytes_of_string s))) @ [CHR 0x22]"

definition json_object :: "(string \<times> string) list \<Rightarrow> string" where
  "json_object kvs = ''{'' @ join_strings '','' (map (\<lambda>(k, v). json_string k @ '':'' @ v) kvs) @ ''}''"

fun json_message :: "message \<Rightarrow> string" where
  "json_message (Message t) = json_string t"
| "json_message (Labels ls) = json_object (map (\<lambda>(k, t). (k, json_string t)) (sort_key fst ls))"

definition Marshal_messages :: "messages \<Rightarrow> string" where
  "Marshal_messages m = json_object (map (\<lambda>(k, v). (k, json_message v)) m)"

text \<open>\<open>bytes.ReplaceAll\<close> for an old part that is not empty.\<close>

function replace_all :: "char \<Rightarrow> string \<Rightarrow> string \<Rightarrow> string \<Rightarrow> string" where
  "replace_all c cs new [] = []"
| "replace_all c cs new (x # xs) =
     (if HasPrefix (x # xs) (c # cs) then new @ replace_all c cs new (drop (length cs) xs) else x # replace_all c cs new xs)"
  by pat_completeness auto
termination by (relation "measure (\<lambda>(c, cs, new, s). length s)") auto

definition script_text :: "string \<Rightarrow> string" where
  "script_text encoded =
     (let encoded = replace_all CHR ''<'' ''/'' [CHR ''<'', CHR 0x5C, CHR ''/''] encoded;
          encoded = replace_all (char_of (0xE2 :: nat)) [char_of (0x80 :: nat), char_of (0xA8 :: nat)] (hex4 0x2028) encoded
      in replace_all (char_of (0xE2 :: nat)) [char_of (0x80 :: nat), char_of (0xA9 :: nat)] (hex4 0x2029) encoded)"

definition dashboardMessagesJSON :: "messages \<Rightarrow> string" where
  "dashboardMessagesJSON m = script_text (Marshal_messages m)"

definition adminMessagesJSON :: "messages \<Rightarrow> string" where
  "adminMessagesJSON m = script_text (Marshal_messages m)"

subsection \<open>Both languages say the same\<close>

fun shape :: "message \<Rightarrow> (string \<times> string) list" where
  "shape (Message t) = [([], t)]"
| "shape (Labels ls) = ls"

text \<open>A label for every icon that an entry may have and for both types of entries.\<close>

definition labels_of :: "messages \<Rightarrow> string \<Rightarrow> string list" where
  "labels_of m k = (case map_of m k of Some (Labels ls) \<Rightarrow> map fst ls | _ \<Rightarrow> [])"

definition translated :: "string list \<Rightarrow> messages \<Rightarrow> bool" where
  "translated names m \<longleftrightarrow> map fst m = names \<and> list_all (\<lambda>(k, v). list_all (\<lambda>(l, t). t \<noteq> []) (shape v)) m
     \<and> labels_of m ''entryIcons'' = allowedEntryIcons \<and> labels_of m ''entryTypes'' = [EntryTypeHost, EntryTypeTemplate]"

subsection \<open>Nothing in a script ends it\<close>

abbreviation html :: "char set" where "html \<equiv> {CHR ''<'', CHR ''>'', CHR ''&''}"

lemma html_code: "c \<in> html \<longleftrightarrow> (of_char c :: nat) \<in> {60, 62, 38}"
proof -
  have "(of_char CHR ''<'' :: nat) = 60" "(of_char CHR ''>'' :: nat) = 62" "(of_char CHR ''&'' :: nat) = 38" by simp_all
  moreover have "(of_char c :: nat) = of_char d \<longleftrightarrow> c = d" for d by (rule of_char_eq_iff)
  note this [of "CHR ''<''"] this [of "CHR ''>''"] this [of "CHR ''&''"]
  ultimately show ?thesis by simp
qed

lemma hex_digit_plain: "hex_digit (n mod 16) \<notin> html"
  unfolding html_code using hex_digit_code [of "n mod 16"] by simp

lemma hex4_plain: "set (hex4 n) \<inter> html = {}"
proof -
  have "\<forall>c \<in> set (hex4 n). c \<notin> html" unfolding hex4_def using hex_digit_plain by simp
  then show ?thesis by blast
qed

lemma utf8_plain:
  assumes "r \<notin> {0x3C, 0x3E, 0x26}"
  shows "set (string_of_bytes (utf8_EncodeRune r)) \<inter> html = {}"
proof -
  have "\<forall>b \<in> set (utf8_EncodeRune r). b < 256 \<and> b \<notin> {60, 62, 38}"
    using assms by (auto simp: utf8_EncodeRune_def scalar_value_def Let_def)
  then have "\<forall>c \<in> set (string_of_bytes (utf8_EncodeRune r)). c \<notin> html"
    unfolding html_code by (auto simp: string_of_bytes_def)
  then show ?thesis by blast
qed

lemma char_plain: "b < 256 \<Longrightarrow> b \<notin> {60, 62, 38 :: nat} \<Longrightarrow> char_of b \<notin> html"
  by (simp only: html_code of_char_of) simp

lemma json_rune_plain: "set (json_rune r) \<inter> html = {}"
  using hex4_plain [of r] utf8_plain [of r] char_plain [of 34] char_plain [of 92] by (auto simp: json_rune_def)

lemma join_plain: "\<forall>v \<in> set vs. set v \<inter> html = {} \<Longrightarrow> set (join_strings '','' vs) \<inter> html = {}"
  by (induction "'',''" vs rule: join_strings.induct) auto

lemma json_string_plain: "set (json_string t) \<inter> html = {}"
  using json_rune_plain by (fastforce simp: json_string_def)

lemma json_object_plain:
  assumes "\<forall>(k, v) \<in> set kvs. set v \<inter> html = {}"
  shows "set (json_object kvs) \<inter> html = {}"
proof -
  have "\<forall>v \<in> set (map (\<lambda>(k, v). json_string k @ '':'' @ v) kvs). set v \<inter> html = {}"
    using assms json_string_plain by fastforce
  from join_plain [OF this] show ?thesis unfolding json_object_def by auto
qed

lemma json_message_plain: "set (json_message v) \<inter> html = {}"
proof (cases v)
  case (Labels ls)
  show ?thesis unfolding Labels json_message.simps by (rule json_object_plain) (use json_string_plain in fastforce)
qed (simp add: json_string_plain)

lemma Marshal_plain: "set (Marshal_messages m) \<inter> html = {}"
  unfolding Marshal_messages_def by (rule json_object_plain) (use json_message_plain in fastforce)

lemma replace_all_mem: "set (replace_all c cs new s) \<subseteq> set new \<union> set s"
  by (induction c cs new s rule: replace_all.induct) (auto dest: in_set_dropD)

lemma replace_all_id: "c \<notin> set s \<Longrightarrow> replace_all c cs new s = s"
  by (induction c cs new s rule: replace_all.induct) (auto simp: HasPrefix_def)

lemma disjoint_cover: "A \<subseteq> B \<union> C \<Longrightarrow> B \<inter> H = {} \<Longrightarrow> C \<inter> H = {} \<Longrightarrow> A \<inter> H = {}"
  by blast

lemma replace_plain:
  "set new \<inter> html = {} \<Longrightarrow> set s \<inter> html = {} \<Longrightarrow> set (replace_all c cs new s) \<inter> html = {}"
  by (rule disjoint_cover [OF replace_all_mem])

lemma script_text_plain:
  assumes "set s \<inter> html = {}"
  shows "set (script_text s) \<inter> html = {}"
proof -
  have e: "replace_all CHR ''<'' ''/'' [CHR ''<'', CHR 0x5C, CHR ''/''] s = s"
    using assms by (intro replace_all_id) auto
  show ?thesis
    unfolding script_text_def Let_def e by (rule replace_plain [OF hex4_plain replace_plain [OF hex4_plain assms]])
qed

lemma utf8_Nil [simp]: "utf8 rs = [] \<longleftrightarrow> rs = []"
  by (cases rs) (simp_all add: utf8_def string_of_bytes_def utf8_EncodeRune_nonempty)

lemma chinese_complete: "translated dashboardMessages dashboard_chinese" "translated adminMessages admin_chinese"
  by (simp_all add: translated_def labels_of_def dashboardMessages_def adminMessages_def dashboard_chinese_def admin_chinese_def
      allowedEntryIcons_def EntryIconWindow_def EntryTypeHost_def EntryTypeTemplate_def)

lemma english_complete: "translated dashboardMessages dashboard_english" "translated adminMessages admin_english"
  by (simp_all add: translated_def labels_of_def dashboardMessages_def adminMessages_def dashboard_english_def admin_english_def
      allowedEntryIcons_def EntryIconWindow_def EntryTypeHost_def EntryTypeTemplate_def)

end
