(* ===== verification/Routes.thy ===== *)
theory Routes
  imports Policy Web_OIDC
begin

text \<open>
  The routes of the gateway (\<open>main.go\<close>): which handler a request reaches, behind which
  authentication. The router itself (gorilla/mux) is a parameter; what is assumed of it is documented:
  routes are tried in the order of their registration and the first that matches wins
  (\<open>mux_law\<close>). Paths are cleaned before. Routes of the two subrouters carry their prefix here.
\<close>

subsection \<open>Handlers and middlewares\<close>

datatype endpoint =
    Metrics | TokenInfoPage | DashboardPage | AdminPage | DashboardUserInfo | EntryList | EntryDownload | OidcCallback
  | AdminListEntries | AdminCreateHostEntry | AdminCreateTemplateEntry | AdminUpdateEntry | AdminDeleteEntry
  | AdminListAuthUsers | AdminCreateAuthUser | AdminUpdateAuthUser | AdminDeleteAuthUser
  | AdminListIcons | AdminUploadIcon | AdminSelectIcon | AdminDeleteIcon
  | StaticFile string | AssetFile string | AppIcon | UploadedIcon
  | Download | WebInterface | HostList | UserInfoPage
  | TokenGateway | DirectGateway | AuthChallenge | KdcProxy

datatype guard = Open | SessionGuard | OidcGuard | OidcAdminGuard | HeaderGuard | NtlmGuard | BasicGuard | SpnegoGuard

datatype path_pattern = Exact string | Segment string string | Prefix string

text \<open>\<open>{id}\<close> stands for a segment: what is between the two parts, not empty and without a slash.\<close>

definition mux_var :: "string \<Rightarrow> string \<Rightarrow> string \<Rightarrow> string option" where
  "mux_var pre suf path =
     (let v = take (length path - length pre - length suf) (drop (length pre) path) in
      if path = pre @ v @ suf \<and> v \<noteq> [] \<and> CHR ''/'' \<notin> set v then Some v else None)"

fun path_matches :: "path_pattern \<Rightarrow> string \<Rightarrow> bool" where
  "path_matches (Exact p) path \<longleftrightarrow> path = p"
| "path_matches (Segment pre suf) path \<longleftrightarrow> mux_var pre suf path \<noteq> None"
| "path_matches (Prefix p) path \<longleftrightarrow> HasPrefix path p"

record route =
  rtPath :: path_pattern
  rtMethod :: "string option"
  rtCond :: "Request \<Rightarrow> bool"
  rtGuard :: guard
  rtEndpoint :: endpoint

datatype mux_entry = Leaf route | ApiSub | RdpSub

record router =
  rtTop :: "mux_entry list"
  rtApi :: "route list"
  rtRdp :: "route list"
  rtAuth :: auth_headers

definition Handle_at :: "string \<Rightarrow> guard \<Rightarrow> endpoint \<Rightarrow> route" where
  "Handle_at path g e = \<lparr>rtPath = Exact path, rtMethod = None, rtCond = (\<lambda>r. True), rtGuard = g, rtEndpoint = e\<rparr>"

definition Handle_var :: "string \<Rightarrow> string \<Rightarrow> guard \<Rightarrow> endpoint \<Rightarrow> route" where
  "Handle_var pre suf g e = \<lparr>rtPath = Segment pre suf, rtMethod = None, rtCond = (\<lambda>r. True), rtGuard = g, rtEndpoint = e\<rparr>"

definition with_Method :: "string \<Rightarrow> route \<Rightarrow> route" where
  "with_Method m x = x\<lparr>rtMethod := Some m\<rparr>"

definition gatewayEndPoint :: string where "gatewayEndPoint = ''/remoteDesktopGateway/''"
definition kdcProxyEndPoint :: string where "kdcProxyEndPoint = ''/KdcProxy''"

definition Gateway_route :: "(Request \<Rightarrow> bool) \<Rightarrow> guard \<Rightarrow> endpoint \<Rightarrow> route" where
  "Gateway_route c g e = \<lparr>rtPath = Prefix gatewayEndPoint, rtMethod = None, rtCond = c, rtGuard = g, rtEndpoint = e\<rparr>"

text \<open>\<open>HeadersRegexp\<close> with a pattern that is a word: some value of the header contains it.\<close>

definition header_contains :: "string \<Rightarrow> string \<Rightarrow> Request \<Rightarrow> bool" where
  "header_contains h w r \<longleftrightarrow> (\<exists>v \<in> set (rHeader r h). Contains v w)"

definition top :: "route list \<Rightarrow> router \<Rightarrow> router" where "top rs m = m\<lparr>rtTop := rtTop m @ map Leaf rs\<rparr>"
definition api :: "route list \<Rightarrow> router \<Rightarrow> router" where "api rs m = m\<lparr>rtApi := rtApi m @ rs\<rparr>"
definition rdp :: "route list \<Rightarrow> router \<Rightarrow> router" where "rdp rs m = m\<lparr>rtRdp := rtRdp m @ rs\<rparr>"

subsection \<open>Registration, in the order of the code\<close>

definition registerMetricsRoute :: "Configuration \<Rightarrow> router \<Rightarrow> router" where
  "registerMetricsRoute conf m =
     (if sv_EnableMetrics (Server conf) then top [Handle_at ''/metrics'' Open Metrics] m else m)"

definition register_base :: "Configuration \<Rightarrow> router" where
  "register_base conf =
     (let m = registerMetricsRoute conf \<lparr>rtTop = [], rtApi = [], rtRdp = [], rtAuth = []\<rparr>;
          m = top [Handle_at ''/tokeninfo'' SessionGuard TokenInfoPage] m
      in m\<lparr>rtTop := rtTop m @ [ApiSub, RdpSub]\<rparr>)"

definition admin_routes :: "route list" where
  "admin_routes =
    [with_Method ''GET'' (Handle_at ''/api/v1/admin/entries'' OidcAdminGuard AdminListEntries),
     with_Method ''POST'' (Handle_at ''/api/v1/admin/entries/host'' OidcAdminGuard AdminCreateHostEntry),
     with_Method ''POST'' (Handle_at ''/api/v1/admin/entries/template'' OidcAdminGuard AdminCreateTemplateEntry),
     with_Method ''PUT'' (Handle_var ''/api/v1/admin/entries/'' [] OidcAdminGuard AdminUpdateEntry),
     with_Method ''DELETE'' (Handle_var ''/api/v1/admin/entries/'' [] OidcAdminGuard AdminDeleteEntry),
     with_Method ''GET'' (Handle_at ''/api/v1/admin/auth-users'' OidcAdminGuard AdminListAuthUsers),
     with_Method ''POST'' (Handle_at ''/api/v1/admin/auth-users'' OidcAdminGuard AdminCreateAuthUser),
     with_Method ''PUT'' (Handle_var ''/api/v1/admin/auth-users/'' [] OidcAdminGuard AdminUpdateAuthUser),
     with_Method ''DELETE'' (Handle_var ''/api/v1/admin/auth-users/'' [] OidcAdminGuard AdminDeleteAuthUser),
     with_Method ''GET'' (Handle_at ''/api/v1/admin/icons'' OidcAdminGuard AdminListIcons),
     with_Method ''POST'' (Handle_at ''/api/v1/admin/icon'' OidcAdminGuard AdminUploadIcon),
     with_Method ''PUT'' (Handle_at ''/api/v1/admin/icon/active'' OidcAdminGuard AdminSelectIcon),
     with_Method ''DELETE'' (Handle_var ''/api/v1/admin/icons/'' [] OidcAdminGuard AdminDeleteIcon)]"

definition asset_routes :: "route list" where
  "asset_routes =
    [Handle_at ''/assets/connect.svg'' Open (AssetFile ''connect.svg''),
     Handle_at ''/assets/icon.svg'' Open (AssetFile ''icon.svg''),
     Handle_at ''/assets/app-icon'' Open AppIcon,
     Handle_var ''/assets/icons/'' [] Open UploadedIcon]"

definition register_openid :: "Configuration \<Rightarrow> router \<Rightarrow> router" where
  "register_openid conf m =
     (if \<not> OpenIDEnabled (Server conf) then m
      else let
        m = top [Handle_var ''/connect/entries/'' ''.rdp'' OidcGuard EntryDownload, Handle_at ''/callback'' Open OidcCallback,
                 Handle_at ''/'' OidcGuard DashboardPage, Handle_at ''/admin'' OidcAdminGuard AdminPage] m;
        m = api [Handle_at ''/api/v1/user'' OidcGuard DashboardUserInfo, Handle_at ''/api/v1/entries'' OidcGuard EntryList] m;
        m = api admin_routes m;
        m = top [Handle_at ''/static/style.css'' Open (StaticFile ''style.css''),
                 Handle_at ''/static/dashboard.js'' Open (StaticFile ''dashboard.js''),
                 Handle_at ''/static/admin.js'' Open (StaticFile ''admin.js'')] m;
        m = top asset_routes m
      in if shouldRegisterTokenGatewayRoute conf then rdp [Gateway_route (\<lambda>r. True) Open TokenGateway] m else m)"

definition register_header :: "Configuration \<Rightarrow> router \<Rightarrow> router" where
  "register_header conf m =
     (if \<not> HeaderEnabled (Server conf) then m
      else if \<not> cap_TokenAuth (Caps conf) then m
      else let
        m = top [Handle_at ''/connect'' HeaderGuard Download, Handle_at ''/'' HeaderGuard WebInterface] m;
        m = api [Handle_at ''/api/v1/hosts'' HeaderGuard HostList, Handle_at ''/api/v1/user'' HeaderGuard UserInfoPage] m;
        m = top [Handle_at ''/static/style.css'' Open (StaticFile ''style.css''),
                 Handle_at ''/static/app.js'' Open (StaticFile ''app.js'')] m
      in top asset_routes m)"

definition ntlm_condition :: "Request \<Rightarrow> bool" where
  "ntlm_condition r \<longleftrightarrow> Header_Get r ''Sec-Websocket-Protocol'' \<noteq> ''binary''"

definition register_ntlm :: "Configuration \<Rightarrow> router \<Rightarrow> router" where
  "register_ntlm conf m =
     (if \<not> NtlmEnabled (Server conf) then m
      else let
        m = rdp [Gateway_route (header_contains ''Authorization'' ''NTLM'') NtlmGuard DirectGateway] m;
        m = rdp [Gateway_route (header_contains ''Authorization'' ''Negotiate'') NtlmGuard DirectGateway] m
      in m\<lparr>rtAuth := Register [''NTLM'', ''Negotiate''] (Some ntlm_condition) (rtAuth m)\<rparr>)"

definition basic_challenge :: string where
  "basic_challenge = ''Basic realm='' @ [CHR 0x22] @ ''restricted'' @ [CHR 0x22] @ '', charset='' @ [CHR 0x22] @ ''UTF-8'' @ [CHR 0x22]"

definition register_basic :: "Configuration \<Rightarrow> router \<Rightarrow> router" where
  "register_basic conf m =
     (if \<not> BasicAuthEnabled (Server conf) then m
      else let
        m = rdp [Gateway_route (header_contains ''Authorization'' ''Basic'') BasicGuard DirectGateway] m
      in m\<lparr>rtAuth := Register [basic_challenge] None (rtAuth m)\<rparr>)"

definition register_kerberos :: "Configuration \<Rightarrow> router \<Rightarrow> router" where
  "register_kerberos conf m =
     (if \<not> KerberosEnabled (Server conf) then m
      else let
        m = rdp [Gateway_route (header_contains ''Authorization'' ''Negotiate'') SpnegoGuard DirectGateway] m;
        m = top [with_Method ''POST'' (Handle_at kdcProxyEndPoint Open KdcProxy)] m
      in m\<lparr>rtAuth := Register [''Negotiate''] None (rtAuth m)\<rparr>)"

definition main_router :: "Configuration \<Rightarrow> router" where
  "main_router conf =
     (let m = register_base conf;
          m = register_openid conf m;
          m = register_header conf m;
          m = rdp [Gateway_route NoAuthz Open AuthChallenge] m;
          m = register_ntlm conf m;
          m = register_basic conf m
      in register_kerberos conf m)"

subsection \<open>Matching\<close>

fun expand :: "router \<Rightarrow> mux_entry \<Rightarrow> route list" where
  "expand m (Leaf x) = [x]"
| "expand m ApiSub = rtApi m"
| "expand m RdpSub = rtRdp m"

definition all_routes :: "router \<Rightarrow> route list" where
  "all_routes m = concat (map (expand m) (rtTop m))"

datatype route_match = Found route | MethodMismatch | NotRouted

fun match_routes :: "bool \<Rightarrow> route list \<Rightarrow> string \<Rightarrow> Request \<Rightarrow> route_match" where
  "match_routes other [] path r = (if other then MethodMismatch else NotRouted)"
| "match_routes other (x # xs) path r =
     (if path_matches (rtPath x) path \<and> rtCond x r then
        (if rtMethod x = None \<or> rtMethod x = Some (rMethod r) then Found x else match_routes True xs path r)
      else match_routes other xs path r)"

text \<open>The documented matching as a function; without a match a path that matches with another method gives 405.\<close>

definition first_route :: "Configuration \<Rightarrow> string \<Rightarrow> Request \<Rightarrow> route_match" where
  "first_route conf path r = match_routes False (all_routes (main_router conf)) path r"

text \<open>The router of the code is any that finds the first route that answers, and none else.\<close>

type_synonym mux = "router \<Rightarrow> string \<Rightarrow> Request \<Rightarrow> route_match"

definition answers :: "string \<Rightarrow> Request \<Rightarrow> route \<Rightarrow> bool" where
  "answers path r x \<longleftrightarrow> path_matches (rtPath x) path \<and> rtCond x r \<and> (rtMethod x = None \<or> rtMethod x = Some (rMethod r))"

definition found_route :: "route_match \<Rightarrow> route option" where
  "found_route m = (case m of Found x \<Rightarrow> Some x | _ \<Rightarrow> None)"

definition mux_law :: "mux \<Rightarrow> bool" where
  "mux_law M \<longleftrightarrow> (\<forall>m path r. found_route (M m path r) = find (answers path r) (all_routes m))"

definition route_request :: "mux \<Rightarrow> Configuration \<Rightarrow> string \<Rightarrow> Request \<Rightarrow> route_match" where
  "route_request M conf path r = M (main_router conf) path r"

definition documented_mux :: mux where
  "documented_mux m path r = match_routes False (all_routes m) path r"

lemma match_routes_find: "found_route (match_routes b xs path r) = find (answers path r) xs"
  by (induction b xs path r rule: match_routes.induct) (auto simp: found_route_def answers_def)

lemma documented_mux_law: "mux_law documented_mux"
  by (simp add: mux_law_def documented_mux_def match_routes_find)

lemma routed: "mux_law M \<Longrightarrow> found_route (route_request M conf path r) = found_route (first_route conf path r)"
  by (simp add: mux_law_def route_request_def first_route_def match_routes_find)

subsection \<open>From the request to the handler\<close>

text \<open>
  What the middlewares need beside the configuration: the session store, the OpenID exchange, the
  authentication service, the credentials and cookies of the request, SPNEGO and the clock. SPNEGO
  answers by itself or calls the next handler with what it left in the request.
\<close>

record 'b guard_env =
  geSessions :: "'b sessions"
  geUuid :: string
  geTime :: instant
  geEncode :: "oidcTransaction \<Rightarrow> string option"
  geParse :: "string \<Rightarrow> request_uri option"
  geSave :: "session_value \<Rightarrow> bool"
  geOidcSession :: oidc_session
  geRandom :: "nat \<Rightarrow> nat list option"
  geRequestURI :: string
  geBasicService :: "string \<Rightarrow> string \<Rightarrow> bool service"
  geNtlmService :: "string \<Rightarrow> string \<Rightarrow> ntlm_answer service"
  geCredentials :: "Request \<Rightarrow> (string \<times> string) option"
  geCookie :: "string option"
  geSpnego :: "Request \<Rightarrow> goidentity option option"

definition oidc_check :: "'b guard_env \<Rightarrow> User \<Rightarrow> User handled" where
  "oidc_check E u =
     (case OIDC_Authenticated (geEncode E) (geParse E) (geSave E) (geOidcSession E) (geRandom E) (geTime E) (geRequestURI E) u of
        Inl v \<Rightarrow> Next v
      | Inr (StartReply code) \<Rightarrow> Reply code
      | Inr (StartLogin tx) \<Rightarrow> Reply StatusFound)"

definition session_check :: "'b guard_env \<Rightarrow> Request \<Rightarrow> User \<Rightarrow> User handled" where
  "session_check E r u =
     (case GetSessionIdentity (geSessions E) (geUuid E) r of
        None \<Rightarrow> Reply StatusUnauthorized
      | Some None \<Rightarrow> Reply StatusUnauthorized
      | Some (Some v) \<Rightarrow> if \<not> authenticated v then Reply StatusUnauthorized else Next u)"

definition header_of :: "Configuration \<Rightarrow> Web_Auth.Header" where
  "header_of conf =
     HeaderConfig_New (hd_UserHeader (Configuration.Header conf)) (hd_UserIdHeader (Configuration.Header conf))
       (hd_EmailHeader (Configuration.Header conf)) (hd_DisplayNameHeader (Configuration.Header conf))
       (sv_TrustedProxyCIDRs (Server conf))"

definition guard_check :: "'b guard_env \<Rightarrow> Configuration \<Rightarrow> guard \<Rightarrow> Request \<Rightarrow> User \<Rightarrow> User handled" where
  "guard_check E conf g r u =
     (case g of
        Open \<Rightarrow> Next u
      | SessionGuard \<Rightarrow> session_check E r u
      | OidcGuard \<Rightarrow> oidc_check E u
      | OidcAdminGuard \<Rightarrow> handle_then (oidc_check E u) (\<lambda>v. AdminOnly (db_AdminGroups (Dashboard conf)) (Some v))
      | HeaderGuard \<Rightarrow> Header_Authenticated (geSessions E) (geTime E) (header_of conf) r u
      | NtlmGuard \<Rightarrow> NTLMAuth (sv_AuthSocket (Server conf)) (geNtlmService E) (geTime E) (geCookie E) (geUuid E) r u
      | BasicGuard \<Rightarrow> BasicAuth (sv_AuthSocket (Server conf)) (geBasicService E) (geTime E) (geCredentials E r) u
      | SpnegoGuard \<Rightarrow>
          (case geSpnego E r of
             None \<Rightarrow> Reply StatusUnauthorized
           | Some gid \<Rightarrow> Next (TransposeSPNEGOContext gid u)))"

text \<open>The middleware of the router runs for requests that are routed; the process ends when it cannot be made.\<close>

definition serve_request :: "mux \<Rightarrow> 'b guard_env \<Rightarrow> Configuration \<Rightarrow> string \<Rightarrow> Request \<Rightarrow> (endpoint \<times> User) handled option" where
  "serve_request M E conf path r =
     (case EnrichContextWithTrustedProxyCIDRs (geSessions E) (sv_TrustedProxyCIDRs (Server conf)) of
        None \<Rightarrow> None
      | Some enrich \<Rightarrow> Some
          (case route_request M conf path r of
             NotRouted \<Rightarrow> Reply StatusNotFound
           | MethodMismatch \<Rightarrow> Reply StatusMethodNotAllowed
           | Found x \<Rightarrow>
               handle_then (enrich (geUuid E) r) (\<lambda>u.
               handle_then (guard_check E conf (rtGuard x) r u) (\<lambda>v.
               Next (rtEndpoint x, v)))))"

subsection \<open>What stands behind which guard\<close>

definition admin_endpoints :: "endpoint list" where
  "admin_endpoints =
    [AdminPage, AdminListEntries, AdminCreateHostEntry, AdminCreateTemplateEntry, AdminUpdateEntry, AdminDeleteEntry,
     AdminListAuthUsers, AdminCreateAuthUser, AdminUpdateAuthUser, AdminDeleteAuthUser,
     AdminListIcons, AdminUploadIcon, AdminSelectIcon, AdminDeleteIcon]"

definition user_endpoints :: "endpoint list" where
  "user_endpoints =
    [DashboardPage, DashboardUserInfo, EntryList, EntryDownload, Download, WebInterface, HostList, UserInfoPage, DirectGateway]"

definition guarded :: "Configuration \<Rightarrow> route \<Rightarrow> bool" where
  "guarded conf x \<longleftrightarrow>
     (if rtEndpoint x \<in> set admin_endpoints then rtGuard x = OidcAdminGuard
      else if rtEndpoint x \<in> set user_endpoints then rtGuard x \<in> {OidcGuard, HeaderGuard, NtlmGuard, BasicGuard, SpnegoGuard}
      else rtEndpoint x = TokenGateway \<longrightarrow> shouldRegisterTokenGatewayRoute conf)"

lemma match_routes_Found:
  "match_routes b xs path r = Found x \<Longrightarrow> x \<in> set xs \<and> path_matches (rtPath x) path \<and> rtCond x r \<and> (rtMethod x = None \<or> rtMethod x = Some (rMethod r))"
  by (induction xs arbitrary: b) (auto split: if_splits)

definition router_guarded :: "Configuration \<Rightarrow> router \<Rightarrow> bool" where
  "router_guarded conf m \<longleftrightarrow>
     (\<forall>x. Leaf x \<in> set (rtTop m) \<longrightarrow> guarded conf x) \<and> list_all (guarded conf) (rtApi m) \<and> list_all (guarded conf) (rtRdp m)"

lemma guarded_add:
  "list_all (guarded conf) rs \<Longrightarrow> router_guarded conf m \<Longrightarrow> router_guarded conf (top rs m)"
  "list_all (guarded conf) rs \<Longrightarrow> router_guarded conf m \<Longrightarrow> router_guarded conf (api rs m)"
  "list_all (guarded conf) rs \<Longrightarrow> router_guarded conf m \<Longrightarrow> router_guarded conf (rdp rs m)"
  "router_guarded conf m \<Longrightarrow> router_guarded conf (m\<lparr>rtAuth := a\<rparr>)"
  by (auto simp: router_guarded_def top_def api_def rdp_def list_all_iff)

lemmas route_fields = Handle_at_def Handle_var_def with_Method_def Gateway_route_def

lemma guarded_routes:
  "list_all (guarded conf) admin_routes" "list_all (guarded conf) asset_routes"
  by (simp_all add: admin_routes_def asset_routes_def guarded_def route_fields admin_endpoints_def user_endpoints_def)

lemma guarded_register:
  assumes "router_guarded conf m"
  shows "router_guarded conf (register_openid conf m)" "router_guarded conf (register_header conf m)"
    "router_guarded conf (register_ntlm conf m)" "router_guarded conf (register_basic conf m)" "router_guarded conf (register_kerberos conf m)"
  unfolding register_openid_def register_header_def register_ntlm_def register_basic_def register_kerberos_def Let_def
  using assms
  by (auto intro!: guarded_add guarded_routes simp: guarded_def route_fields admin_endpoints_def user_endpoints_def)

lemma guarded_main: "router_guarded conf (main_router conf)"
proof -
  have "router_guarded conf (register_base conf)"
    by (auto simp: register_base_def registerMetricsRoute_def router_guarded_def top_def guarded_def route_fields
                   admin_endpoints_def user_endpoints_def Let_def split: if_splits)
  then show ?thesis
    unfolding main_router_def Let_def
    by (intro guarded_register guarded_add) (simp add: guarded_def route_fields admin_endpoints_def user_endpoints_def)
qed

lemma route_guarded:
  assumes law: "mux_law M" and x: "route_request M conf path r = Found x"
  shows "guarded conf x"
proof -
  have "first_route conf path r = Found x"
    using routed [OF law, of conf path r] x by (auto simp: found_route_def split: route_match.splits)
  then have "x \<in> set (all_routes (main_router conf))" using match_routes_Found unfolding first_route_def by blast
  then obtain e where e: "e \<in> set (rtTop (main_router conf))" "x \<in> set (expand (main_router conf) e)"
    by (auto simp: all_routes_def)
  then show ?thesis using guarded_main [of conf] by (cases e rule: mux_entry.exhaust) (auto simp: router_guarded_def list_all_iff)
qed

text \<open>SPNEGO calls the next handler only with an identity that it has authenticated.\<close>

definition spnego_law :: "'b guard_env \<Rightarrow> bool" where
  "spnego_law E \<longleftrightarrow> (\<forall>r gid. geSpnego E r = Some gid \<longrightarrow> (\<exists>i. gid = Some i \<and> giAuthenticated i))"

lemma oidc_check_Next: "oidc_check E u = Next v \<Longrightarrow> v = u \<and> authenticated v"
  by (auto simp: oidc_check_def OIDC_Authenticated_def split: if_splits option.splits)

lemma guard_admin:
  "guard_check E conf OidcAdminGuard r u = Next v \<Longrightarrow>
     authenticated v \<and> (\<exists>g \<in> set (db_AdminGroups (Dashboard conf)). TrimSpace g \<noteq> [] \<and> InGroup g v)"
  by (auto simp: guard_check_def handle_then_Next AdminOnly_def IsAdmin_iff split: if_splits dest!: oidc_check_Next)

lemma guard_user:
  assumes "spnego_law E" "guard_check E conf g r u = Next v" "g \<in> {OidcGuard, HeaderGuard, NtlmGuard, BasicGuard, SpnegoGuard}"
  shows "authenticated v"
proof -
  consider "g = OidcGuard" | "g = HeaderGuard" | "g = NtlmGuard" | "g = BasicGuard" | "g = SpnegoGuard" using assms(3) by blast
  then show ?thesis
  proof cases
    case 1 with assms(2) show ?thesis by (auto simp: guard_check_def dest: oidc_check_Next)
  next
    case 2 with assms(2) show ?thesis
      by (auto simp: guard_check_def Header_Authenticated_def Let_def SetAttribute_def split: if_splits)
  next
    case 3 with assms(2) show ?thesis
      by (auto simp: guard_check_def NTLMAuth_def split: option.splits prod.splits)
  next
    case 4 with assms(2) show ?thesis
      by (auto simp: guard_check_def BasicAuth_def split: option.splits prod.splits handled.splits if_splits)
  next
    case 5 with assms(1,2) show ?thesis
      by (fastforce simp: guard_check_def TransposeSPNEGOContext_def spnego_law_def split: option.splits)
  qed
qed

lemma serve_request_Next:
  assumes "serve_request M E conf path r = Some (Next (e, v))"
  shows "\<exists>x u. route_request M conf path r = Found x \<and> rtEndpoint x = e \<and> guard_check E conf (rtGuard x) r u = Next v"
  using assms by (auto simp: serve_request_def handle_then_Next split: option.splits route_match.splits)

definition gateway_of :: "jose \<Rightarrow> globals \<Rightarrow> instant \<Rightarrow> string \<Rightarrow> Configuration \<Rightarrow> endpoint \<Rightarrow> Gateway option" where
  "gateway_of J G t uuid conf e =
     (case e of
        TokenGateway \<Rightarrow> Some (buildGateway J G t uuid conf (cap_TokenAuth (Caps conf)))
      | DirectGateway \<Rightarrow> Some (buildGateway J G t uuid conf False)
      | _ \<Rightarrow> None)"

lemma served_guarded:
  assumes spnego: "spnego_law E" and mux: "mux_law M" and served: "serve_request M E conf path r = Some (Next (e, v))"
  shows "e \<in> set admin_endpoints \<Longrightarrow> authenticated v \<and> (\<exists>g \<in> set (db_AdminGroups (Dashboard conf)). TrimSpace g \<noteq> [] \<and> InGroup g v)"
    and "e \<in> set user_endpoints \<Longrightarrow> authenticated v"
    and "e = TokenGateway \<Longrightarrow> shouldRegisterTokenGatewayRoute conf"
proof -
  obtain x u where x: "guarded conf x" "rtEndpoint x = e" "guard_check E conf (rtGuard x) r u = Next v"
    using serve_request_Next [OF served] route_guarded [OF mux] by blast
  show "authenticated v \<and> (\<exists>g \<in> set (db_AdminGroups (Dashboard conf)). TrimSpace g \<noteq> [] \<and> InGroup g v)" if "e \<in> set admin_endpoints"
    using x that guard_admin by (simp add: guarded_def)
  show "authenticated v" if e: "e \<in> set user_endpoints"
  proof -
    have "e \<notin> set admin_endpoints" using e by (auto simp: admin_endpoints_def user_endpoints_def)
    then have "rtGuard x \<in> {OidcGuard, HeaderGuard, NtlmGuard, BasicGuard, SpnegoGuard}"
      using x(1,2) e by (simp add: guarded_def)
    then show ?thesis by (rule guard_user [OF spnego x(3)])
  qed
  show "shouldRegisterTokenGatewayRoute conf" if "e = TokenGateway"
    using x(1,2) that by (simp add: guarded_def admin_endpoints_def user_endpoints_def)
qed

text \<open>
  C4: No handler runs for someone it is not meant for: whatever the configuration, the path, the method
  and the headers, a request that reaches an administration handler carries an authenticated
  identity in a group of administrators; one that reaches the dashboard or a download carries an
  authenticated identity; and one that reaches a gateway either has to present a PAA token there,
  for the host it asks for, or carries an authenticated identity and gets hosts from the inventory
  only. The router is any with \<open>mux_law\<close>, and SPNEGO is assumed to call
  the next handler with authenticated identities only.
\<close>

theorem handlers_guarded:
  assumes spnego: "spnego_law E" and mux: "mux_law M" and served: "serve_request M E conf path r = Some (Next (e, v))"
  shows "(e \<in> set admin_endpoints \<longrightarrow> authenticated v \<and> (\<exists>g \<in> set (db_AdminGroups (Dashboard conf)). TrimSpace g \<noteq> [] \<and> InGroup g v))
    \<and> (e \<in> set user_endpoints \<longrightarrow> authenticated v)
    \<and> (\<forall>gw. gateway_of J G t uuid conf e = Some gw \<longrightarrow>
          CheckPAACookie gw = Some (cookie_hook J G t uuid) \<and> CheckHost gw = Some (host_hook (CheckSession G None))
        \<or> authenticated v \<and> CheckHost gw = Some (host_hook (\<lambda>ctx. sec_CheckHost G)))"
proof (intro conjI allI impI)
  fix gw assume gw: "gateway_of J G t uuid conf e = Some gw"
  show "CheckPAACookie gw = Some (cookie_hook J G t uuid) \<and> CheckHost gw = Some (host_hook (CheckSession G None))
        \<or> authenticated v \<and> CheckHost gw = Some (host_hook (\<lambda>ctx. sec_CheckHost G))"
  proof (cases "e = TokenGateway")
    case True
    then have "cap_TokenAuth (Caps conf)" using served_guarded(3) [OF spnego mux served] by (simp add: shouldRegisterTokenGatewayRoute_def)
    then show ?thesis using gw True by (auto simp: gateway_of_def buildGateway_def)
  next
    case False
    then have "e = DirectGateway" using gw by (auto simp: gateway_of_def split: endpoint.splits)
    then show ?thesis using gw served_guarded(2) [OF spnego mux served] by (auto simp: gateway_of_def buildGateway_def user_endpoints_def)
  qed
qed (use served_guarded [OF spnego mux served] in blast)+

subsection \<open>Which gateway a request reaches\<close>

definition off_prefix :: "string \<Rightarrow> route \<Rightarrow> bool" where
  "off_prefix p x \<longleftrightarrow> (\<forall>path. HasPrefix path p \<longrightarrow> \<not> path_matches (rtPath x) path)"

lemma off_prefix_intros:
  "\<not> HasPrefix q p \<Longrightarrow> off_prefix p (Handle_at q g e)"
  "\<not> prefix pre p \<Longrightarrow> \<not> prefix p pre \<Longrightarrow> off_prefix p (Handle_var pre suf g e)"
  "off_prefix p x \<Longrightarrow> off_prefix p (with_Method m x)"
  "\<not> prefix gatewayEndPoint p \<Longrightarrow> \<not> prefix p gatewayEndPoint \<Longrightarrow> off_prefix p (Gateway_route c g e)"
  by (auto simp: off_prefix_def Handle_at_def Handle_var_def with_Method_def Gateway_route_def mux_var_def HasPrefix_def Let_def
           dest: prefix_same_cases split: if_splits) (metis prefixI prefix_same_cases)

abbreviation off_gateway :: "route \<Rightarrow> bool" where
  "off_gateway \<equiv> off_prefix gatewayEndPoint"

definition router_off :: "router \<Rightarrow> bool" where
  "router_off m \<longleftrightarrow>
     (\<forall>x. Leaf x \<in> set (rtTop m) \<longrightarrow> off_gateway x) \<and> list_all off_gateway (rtApi m) \<and> count_list (rtTop m) RdpSub = 1"

lemma count_Leaf [simp]: "count_list (map Leaf rs) RdpSub = 0"
  by (induction rs) simp_all

lemma router_off_add:
  "list_all off_gateway rs \<Longrightarrow> router_off m \<Longrightarrow> router_off (top rs m)"
  "list_all off_gateway rs \<Longrightarrow> router_off m \<Longrightarrow> router_off (api rs m)"
  "router_off m \<Longrightarrow> router_off (rdp rs m)"
  "router_off m \<Longrightarrow> router_off (m\<lparr>rtAuth := a\<rparr>)"
  by (auto simp: router_off_def top_def api_def rdp_def list_all_iff count_list_append)

lemma off_routes: "list_all off_gateway admin_routes" "list_all off_gateway asset_routes"
  by (simp_all add: admin_routes_def asset_routes_def off_prefix_intros HasPrefix_def gatewayEndPoint_def)

lemma off_register:
  assumes "router_off m"
  shows "router_off (register_openid conf m)" "router_off (register_header conf m)"
    "router_off (register_ntlm conf m)" "router_off (register_basic conf m)" "router_off (register_kerberos conf m)"
  unfolding register_openid_def register_header_def register_ntlm_def register_basic_def register_kerberos_def Let_def
  using assms
  by (auto intro!: router_off_add off_routes simp: off_prefix_intros HasPrefix_def gatewayEndPoint_def kdcProxyEndPoint_def)

lemma off_main: "router_off (main_router conf)"
proof -
  have "router_off (register_base conf)"
    by (auto simp: register_base_def registerMetricsRoute_def router_off_def top_def Let_def off_prefix_intros HasPrefix_def gatewayEndPoint_def)
  then show ?thesis
    unfolding main_router_def Let_def by (intro off_register router_off_add)
qed

lemma match_skip:
  "list_all (\<lambda>x. \<not> path_matches (rtPath x) path) xs \<Longrightarrow> match_routes b (xs @ ys) path r = match_routes b ys path r"
  by (induction xs) auto

lemma match_rdp:
  assumes m: "router_off m" and path: "HasPrefix path gatewayEndPoint"
  shows "match_routes b (all_routes m) path r = match_routes b (rtRdp m) path r"
proof -
  have "RdpSub \<in> set (rtTop m)" using m by (metis count_notin router_off_def zero_neq_one)
  then obtain t u where t: "rtTop m = t @ RdpSub # u" by (auto simp: in_set_conv_decomp)
  then have sub: "set t \<subseteq> set (rtTop m)" "set u \<subseteq> set (rtTop m)" by auto
  have c: "count_list t RdpSub = 0" "count_list u RdpSub = 0" using m t by (auto simp: router_off_def count_list_append)
  have off: "list_all (\<lambda>x. \<not> path_matches (rtPath x) path) (concat (map (expand m) es))"
    if es: "set es \<subseteq> set (rtTop m)" "count_list es RdpSub = 0" for es
  proof (unfold list_all_iff, rule ballI)
    fix x assume "x \<in> set (concat (map (expand m) es))"
    then obtain e where e: "e \<in> set es" "x \<in> set (expand m e)" by auto
    then have "e \<noteq> RdpSub" using es(2) by (auto simp: count_list_0_iff)
    then have "off_gateway x" using e es(1) m by (cases e rule: mux_entry.exhaust) (auto simp: router_off_def list_all_iff)
    then show "\<not> path_matches (rtPath x) path" using path by (simp add: off_prefix_def)
  qed
  have "match_routes b (all_routes m) path r = match_routes b (rtRdp m @ concat (map (expand m) u)) path r"
    using match_skip [OF off [OF sub(1) c(1)]] t by (simp add: all_routes_def)
  also have "\<dots> = match_routes b (rtRdp m) path r"
  proof -
    have "match_routes b' (concat (map (expand m) u)) path r = match_routes b' [] path r" for b'
      using match_skip [OF off [OF sub(2) c(2)], of b' "[]"] by simp
    then have "match_routes b' (xs @ concat (map (expand m) u)) path r = match_routes b' xs path r" for b' xs
      by (induction xs arbitrary: b') auto
    then show ?thesis by blast
  qed
  finally show ?thesis .
qed

lemma rdp_routes:
  "rtRdp (main_router conf) =
     (if shouldRegisterTokenGatewayRoute conf then [Gateway_route (\<lambda>r. True) Open TokenGateway] else [])
     @ [Gateway_route NoAuthz Open AuthChallenge]
     @ (if NtlmEnabled (Server conf) then [Gateway_route (header_contains ''Authorization'' ''NTLM'') NtlmGuard DirectGateway,
          Gateway_route (header_contains ''Authorization'' ''Negotiate'') NtlmGuard DirectGateway] else [])
     @ (if BasicAuthEnabled (Server conf) then [Gateway_route (header_contains ''Authorization'' ''Basic'') BasicGuard DirectGateway] else [])
     @ (if KerberosEnabled (Server conf) then [Gateway_route (header_contains ''Authorization'' ''Negotiate'') SpnegoGuard DirectGateway] else [])"
proof -
  have "shouldRegisterTokenGatewayRoute conf \<Longrightarrow> OpenIDEnabled (Server conf)" by (simp add: shouldRegisterTokenGatewayRoute_def)
  then show ?thesis
    by (simp add: main_router_def register_base_def registerMetricsRoute_def register_openid_def register_header_def
          register_ntlm_def register_basic_def register_kerberos_def top_def api_def rdp_def Let_def)
qed

definition reached :: "route_match \<Rightarrow> (guard \<times> endpoint) option" where
  "reached m = (case m of Found x \<Rightarrow> Some (rtGuard x, rtEndpoint x) | _ \<Rightarrow> None)"

lemma first_gateway:
  assumes path: "HasPrefix path gatewayEndPoint"
  shows "reached (first_route conf path r) =
     (let has = (\<lambda>w. header_contains ''Authorization'' w r); s = Server conf in
      if shouldRegisterTokenGatewayRoute conf then Some (Open, TokenGateway)
      else if NoAuthz r then Some (Open, AuthChallenge)
      else if NtlmEnabled s \<and> (has ''NTLM'' \<or> has ''Negotiate'') then Some (NtlmGuard, DirectGateway)
      else if BasicAuthEnabled s \<and> has ''Basic'' then Some (BasicGuard, DirectGateway)
      else if KerberosEnabled s \<and> has ''Negotiate'' then Some (SpnegoGuard, DirectGateway)
      else None)"
  unfolding first_route_def match_rdp [OF off_main path] rdp_routes
  by (simp add: Gateway_route_def path reached_def Let_def)

lemma auth_headers_registered:
  "rtAuth (main_router conf) =
     (if NtlmEnabled (Server conf) then [(''NTLM'', Some ntlm_condition), (''Negotiate'', Some ntlm_condition)] else [])
     @ (if BasicAuthEnabled (Server conf) then [(basic_challenge, None)] else [])
     @ (if KerberosEnabled (Server conf) then [(''Negotiate'', None)] else [])"
  by (simp add: main_router_def register_base_def registerMetricsRoute_def register_openid_def register_header_def
        register_ntlm_def register_basic_def register_kerberos_def top_def api_def rdp_def Register_def Let_def)

lemma SetAuthenticate_append: "SetAuthenticate (a @ b) r = SetAuthenticate a r @ SetAuthenticate b r"
  by (induction a r rule: SetAuthenticate.induct) (auto split: option.splits)

lemma scheme_basic: "takeWhile (\<lambda>c. c \<noteq> CHR '' '') basic_challenge = ''Basic''"
  by (simp add: basic_challenge_def)

lemma header_says:
  assumes "rHeader q h = [w @ rest]" "w \<noteq> []"
  shows "header_contains h w q" "h = ''Authorization'' \<Longrightarrow> \<not> NoAuthz q"
  using assms by (auto simp: header_contains_def Contains_iff_sublist NoAuthz_def Header_Get_def)

lemma reached_found: "reached m = map_option (\<lambda>x. (rtGuard x, rtEndpoint x)) (found_route m)"
  by (simp add: reached_def found_route_def split: route_match.split)

lemma reached_first: "mux_law M \<Longrightarrow> reached (route_request M conf path r) = reached (first_route conf path r)"
  by (simp add: reached_found routed)

lemma gateway_reached:
  assumes mux: "mux_law M" and path: "HasPrefix path gatewayEndPoint"
  shows "reached (route_request M conf path r) =
     (let has = (\<lambda>w. header_contains ''Authorization'' w r); s = Server conf in
      if shouldRegisterTokenGatewayRoute conf then Some (Open, TokenGateway)
      else if NoAuthz r then Some (Open, AuthChallenge)
      else if NtlmEnabled s \<and> (has ''NTLM'' \<or> has ''Negotiate'') then Some (NtlmGuard, DirectGateway)
      else if BasicAuthEnabled s \<and> has ''Basic'' then Some (BasicGuard, DirectGateway)
      else if KerberosEnabled s \<and> has ''Negotiate'' then Some (SpnegoGuard, DirectGateway)
      else None)"
  unfolding reached_first [OF mux] by (rule first_gateway [OF path])

lemma challenge_answered:
  assumes mux: "mux_law M" and path: "HasPrefix path gatewayEndPoint" and r: "reached (route_request M conf path r) = Some (Open, AuthChallenge)"
    and h: "h \<in> set (SetAuthenticate (rtAuth (main_router conf)) r)"
    and q: "rHeader q ''Authorization'' = [takeWhile (\<lambda>c. c \<noteq> CHR '' '') h @ '' '' @ token]"
  shows "\<exists>g. reached (route_request M conf path q) = Some (g, DirectGateway)"
proof -
  have no: "\<not> shouldRegisterTokenGatewayRoute conf"
    using r by (auto simp: gateway_reached [OF mux path] Let_def split: if_splits)
  consider "h = ''NTLM''" "NtlmEnabled (Server conf)" | "h = ''Negotiate''" "NtlmEnabled (Server conf) \<or> KerberosEnabled (Server conf)"
    | "h = basic_challenge" "BasicAuthEnabled (Server conf)"
    using h by (auto simp: auth_headers_registered SetAuthenticate_append split: if_splits)
  then show ?thesis
  proof cases
    case 1
    with q have "rHeader q ''Authorization'' = [''NTLM'' @ '' '' @ token]" by simp
    from header_says [OF this] no 1 show ?thesis by (simp add: gateway_reached [OF mux path] Let_def)
  next
    case 2
    with q have "rHeader q ''Authorization'' = [''Negotiate'' @ '' '' @ token]" by simp
    from header_says [OF this] no 2 show ?thesis by (auto simp: gateway_reached [OF mux path] Let_def)
  next
    case 3
    with q scheme_basic have "rHeader q ''Authorization'' = [''Basic'' @ '' '' @ token]" by simp
    from header_says [OF this] no 3 show ?thesis by (auto simp: gateway_reached [OF mux path] Let_def)
  qed
qed

text \<open>The link of an entry.\<close>

lemma registered_top:
  "\<exists>rs. rtTop (register_header conf m) = rtTop m @ rs" "\<exists>rs. rtTop (register_ntlm conf m) = rtTop m @ rs"
  "\<exists>rs. rtTop (register_basic conf m) = rtTop m @ rs" "\<exists>rs. rtTop (register_kerberos conf m) = rtTop m @ rs"
  "\<exists>rs. rtTop (rdp xs m) = rtTop m @ rs"
  by (auto simp: register_header_def register_ntlm_def register_basic_def register_kerberos_def top_def api_def rdp_def Let_def)

lemma openid_top:
  assumes "OpenIDEnabled (Server conf)"
  shows "\<exists>rs. rtTop (main_router conf) =
    map Leaf ((if sv_EnableMetrics (Server conf) then [Handle_at ''/metrics'' Open Metrics] else []) @ [Handle_at ''/tokeninfo'' SessionGuard TokenInfoPage])
      @ [ApiSub, RdpSub, Leaf (Handle_var ''/connect/entries/'' ''.rdp'' OidcGuard EntryDownload)] @ rs"
proof -
  have "\<exists>rs. rtTop (register_openid conf (register_base conf)) =
    map Leaf ((if sv_EnableMetrics (Server conf) then [Handle_at ''/metrics'' Open Metrics] else []) @ [Handle_at ''/tokeninfo'' SessionGuard TokenInfoPage])
      @ [ApiSub, RdpSub, Leaf (Handle_var ''/connect/entries/'' ''.rdp'' OidcGuard EntryDownload)] @ rs"
    using assms by (auto simp: register_openid_def register_base_def registerMetricsRoute_def top_def api_def rdp_def Let_def)
  then show ?thesis
    unfolding main_router_def Let_def using registered_top append.assoc by metis
qed

lemma api_registered:
  "rtApi (register_base conf) = []"
  "rtApi (register_openid conf m) = rtApi m @ (if OpenIDEnabled (Server conf)
     then [Handle_at ''/api/v1/user'' OidcGuard DashboardUserInfo, Handle_at ''/api/v1/entries'' OidcGuard EntryList] @ admin_routes else [])"
  "rtApi (register_header conf m) = rtApi m @ (if HeaderEnabled (Server conf) \<and> cap_TokenAuth (Caps conf)
     then [Handle_at ''/api/v1/hosts'' HeaderGuard HostList, Handle_at ''/api/v1/user'' HeaderGuard UserInfoPage] else [])"
  "rtApi (register_ntlm conf m) = rtApi m" "rtApi (register_basic conf m) = rtApi m" "rtApi (register_kerberos conf m) = rtApi m"
  "rtApi (rdp xs m) = rtApi m"
  by (simp_all add: register_base_def registerMetricsRoute_def register_openid_def register_header_def
        register_ntlm_def register_basic_def register_kerberos_def top_def api_def rdp_def Let_def)

lemma api_routes:
  "rtApi (main_router conf) =
     (if OpenIDEnabled (Server conf) then [Handle_at ''/api/v1/user'' OidcGuard DashboardUserInfo, Handle_at ''/api/v1/entries'' OidcGuard EntryList]
        @ admin_routes else [])
     @ (if HeaderEnabled (Server conf) \<and> cap_TokenAuth (Caps conf)
        then [Handle_at ''/api/v1/hosts'' HeaderGuard HostList, Handle_at ''/api/v1/user'' HeaderGuard UserInfoPage] else [])"
  by (simp add: main_router_def Let_def api_registered)

lemma off_entries:
  "list_all (off_prefix ''/connect/'') (rtApi (main_router conf))" "list_all (off_prefix ''/connect/'') (rtRdp (main_router conf))"
  unfolding api_routes rdp_routes
  by (auto intro!: off_prefix_intros simp: admin_routes_def HasPrefix_def gatewayEndPoint_def)

lemma off_prefix_skip:
  "list_all (off_prefix p) xs \<Longrightarrow> HasPrefix path p \<Longrightarrow> list_all (\<lambda>x. \<not> path_matches (rtPath x) path) xs"
  by (simp add: off_prefix_def list_all_iff)

lemma entry_link_reached:
  assumes mux: "mux_law M" and oi: "OpenIDEnabled (Server conf)" and v: "mux_var ''/connect/entries/'' ''.rdp'' path = Some v"
  shows "reached (route_request M conf path r) = Some (OidcGuard, EntryDownload)"
proof -
  have path: "path = ''/connect/entries/'' @ v @ ''.rdp''" using v by (auto simp: mux_var_def Let_def split: if_splits)
  then have p: "HasPrefix path ''/connect/''" by (simp add: HasPrefix_def)
  let ?x = "Handle_var ''/connect/entries/'' ''.rdp'' OidcGuard EntryDownload"
  let ?first = "(if sv_EnableMetrics (Server conf) then [Handle_at ''/metrics'' Open Metrics] else []) @ [Handle_at ''/tokeninfo'' SessionGuard TokenInfoPage]"
  obtain rs where "rtTop (main_router conf) = map Leaf ?first @ [ApiSub, RdpSub, Leaf ?x] @ rs" using openid_top [OF oi] by blast
  moreover have "concat (map (expand m) (map Leaf xs)) = xs" for m xs by (induction xs) simp_all
  ultimately have all: "all_routes (main_router conf)
      = (?first @ rtApi (main_router conf) @ rtRdp (main_router conf)) @ ?x # concat (map (expand (main_router conf)) rs)"
    by (simp add: all_routes_def)
  have "list_all (off_prefix ''/connect/'') (?first @ rtApi (main_router conf) @ rtRdp (main_router conf))"
    using off_entries by (auto intro!: off_prefix_intros simp: HasPrefix_def)
  from match_skip [OF off_prefix_skip [OF this p]] v show ?thesis
    unfolding reached_first [OF mux] first_route_def all by (simp add: Handle_var_def reached_def)
qed

text \<open>
  C5: The gateway's entrance, exactly, for a router with \<open>mux_law\<close>: where tokens are the only authentication, every request goes to
  the gateway that checks tokens; otherwise a request without credentials is sent the challenges of
  the methods that are enabled, and one with credentials goes to the gateway that checks hosts, through
  NTLM, Basic or Kerberos in this order, by the words its Authorization header contains; anything else
  is not found. A challenge is only offered when an answer to it is routed to a handler.
\<close>

theorem gateway_entrance_exact:
  assumes mux: "mux_law M" and path: "HasPrefix path gatewayEndPoint"
  shows "reached (route_request M conf path r) =
     (let has = (\<lambda>w. header_contains ''Authorization'' w r); s = Server conf in
      if shouldRegisterTokenGatewayRoute conf then Some (Open, TokenGateway)
      else if NoAuthz r then Some (Open, AuthChallenge)
      else if NtlmEnabled s \<and> (has ''NTLM'' \<or> has ''Negotiate'') then Some (NtlmGuard, DirectGateway)
      else if BasicAuthEnabled s \<and> has ''Basic'' then Some (BasicGuard, DirectGateway)
      else if KerberosEnabled s \<and> has ''Negotiate'' then Some (SpnegoGuard, DirectGateway)
      else None)
    \<and> (reached (route_request M conf path r) = Some (Open, AuthChallenge) \<longrightarrow>
      (\<forall>h \<in> set (SetAuthenticate (rtAuth (main_router conf)) r). \<forall>q token.
        rHeader q ''Authorization'' = [takeWhile (\<lambda>c. c \<noteq> CHR '' '') h @ '' '' @ token] \<longrightarrow>
        (\<exists>g. reached (route_request M conf path q) = Some (g, DirectGateway))))"
  using gateway_reached [OF mux path] challenge_answered [OF mux path] by blast

definition basic_config :: Configuration where
  "basic_config = demo_config\<lparr>Server := (Server demo_config)\<lparr>sv_Authentication := [''basic''], sv_AuthSocket := ''sock''\<rparr>\<rparr>"

definition gateway_path :: string where "gateway_path = gatewayEndPoint"

definition plain_request :: Request where
  "plain_request = \<lparr>rMethod = ''GET'', rHost = ''gw'', rRemoteAddr = ''10.0.0.9:1'', rHeader = (\<lambda>h. []), rQuery = (\<lambda>q. None)\<rparr>"

definition basic_request :: Request where
  "basic_request = plain_request\<lparr>rHeader := (\<lambda>h. if h = ''Authorization'' then [''Basic Ym9iOnB3''] else [])\<rparr>"

lemma gateway_path: "HasPrefix gateway_path gatewayEndPoint"
  by (simp add: gateway_path_def HasPrefix_def)

lemma basic_modes:
  "NtlmEnabled (Server basic_config) = False" "BasicAuthEnabled (Server basic_config)" "shouldRegisterTokenGatewayRoute basic_config = False"
  by (simp_all add: basic_config_def demo_config_def NtlmEnabled_def BasicAuthEnabled_def shouldRegisterTokenGatewayRoute_def)

lemma gateway_entrance_exact_witness:
  "HasPrefix gateway_path gatewayEndPoint \<and> reached (route_request documented_mux basic_config gateway_path plain_request) = Some (Open, AuthChallenge)
   \<and> (\<exists>g. reached (route_request documented_mux basic_config gateway_path basic_request) = Some (g, DirectGateway))"
proof -
  have ch: "reached (route_request documented_mux basic_config gateway_path plain_request) = Some (Open, AuthChallenge)"
    using gateway_entrance_exact [OF documented_mux_law gateway_path, THEN conjunct1, of basic_config plain_request]
    by (simp add: basic_modes Let_def NoAuthz_def Header_Get_def plain_request_def)
  have h: "basic_challenge \<in> set (SetAuthenticate (rtAuth (main_router basic_config)) plain_request)"
    by (simp add: auth_headers_registered basic_modes)
  have q: "rHeader basic_request ''Authorization'' = [takeWhile (\<lambda>c. c \<noteq> CHR '' '') basic_challenge @ '' '' @ ''Ym9iOnB3'']"
    unfolding scheme_basic by (simp add: basic_request_def)
  from gateway_entrance_exact [OF documented_mux_law gateway_path, THEN conjunct2, rule_format, OF ch h q] ch gateway_path show ?thesis by blast
qed

definition basic_env :: "user_wire guard_env" where
  "basic_env = \<lparr>geSessions = no_session, geUuid = ''u'', geTime = 1, geEncode = (\<lambda>t. None), geParse = (\<lambda>s. None), geSave = (\<lambda>v. True),
     geOidcSession = None, geRandom = (\<lambda>n. None), geRequestURI = [], geBasicService = (\<lambda>n p. Answered (n = ''bob'' \<and> p = ''pw'')),
     geNtlmService = (\<lambda>s m. CallFailed), geCredentials = (\<lambda>r. Some (''bob'', ''pw'')), geCookie = None, geSpnego = (\<lambda>r. None)\<rparr>"

lemma handlers_guarded_witness:
  "\<exists>v. spnego_law basic_env \<and> serve_request documented_mux basic_env basic_config gateway_path basic_request = Some (Next (DirectGateway, v))
     \<and> authenticated v \<and> UserName v = ''bob''"
proof -
  have law: "spnego_law basic_env" by (simp add: spnego_law_def basic_env_def)
  have "header_contains ''Authorization'' ''Basic'' basic_request" "\<not> NoAuthz basic_request"
    by (simp_all add: header_contains_def basic_request_def NoAuthz_def Header_Get_def)
  then have "reached (route_request documented_mux basic_config gateway_path basic_request) = Some (BasicGuard, DirectGateway)"
    by (simp add: gateway_reached [OF documented_mux_law gateway_path] basic_modes Let_def)
  then obtain x where x: "route_request documented_mux basic_config gateway_path basic_request = Found x" "rtGuard x = BasicGuard" "rtEndpoint x = DirectGateway"
    by (auto simp: reached_def split: route_match.splits)
  have conf: "sv_TrustedProxyCIDRs (Server basic_config) = []" "sv_AuthSocket (Server basic_config) = ''sock''"
    by (simp_all add: basic_config_def demo_config_def)
  obtain ns where ns: "NewTrustedProxyChecker [] = Some ns" by (simp add: NewTrustedProxyChecker_def)
  obtain ip ps where ip: "ClientIPAndProxies (Some ns) basic_request = (ip, ps)" by (rule prod.exhaust)
  have "\<exists>v. serve_request documented_mux basic_env basic_config gateway_path basic_request = Some (Next (DirectGateway, v)) \<and> UserName v = ''bob''"
    using ip by (simp add: serve_request_def EnrichContextWithTrustedProxyCIDRs_def conf ns x guard_check_def BasicAuth_def basic_authenticate_def
      basic_env_def enrichContext_def GetSessionIdentity_def no_session_def NewUser_def Let_def SetAttribute_def UserName_def SetUserName_def)
  then obtain v where v: "serve_request documented_mux basic_env basic_config gateway_path basic_request = Some (Next (DirectGateway, v))" "UserName v = ''bob''" by blast
  from handlers_guarded [OF law documented_mux_law v(1), THEN conjunct2, THEN conjunct1] have "authenticated v" by (simp add: user_endpoints_def)
  with law v show ?thesis by blast
qed

end
