(* ===== verification/Portal.thy ===== *)
theory Portal
  imports Auth_Service Web_Pages Routes
begin

text \<open>
  The components together: what the start of the gateway leaves on the disk (\<open>initDashboardState\<close> of
  \<open>main.go\<close>), from there to the user who logs in through the authentication helper, from the
  inventory to the hosts the gateway admits, and from the list of entries to their downloads.
\<close>

subsection \<open>The start\<close>

text \<open>\<open>security.ManagedHostList\<close>, on the disk as it is when the function is called.\<close>

definition managed_host_list :: "os \<Rightarrow> Entry list codec \<Rightarrow> (string \<Rightarrow> string) \<Rightarrow> FileStore \<Rightarrow> disk \<Rightarrow> string list option" where
  "managed_host_list Q C ul s d =
     (case fst (store_List Q C ul s d) of
        Inl e \<Rightarrow> None
      | Inr entries \<Rightarrow> Some (EnabledHostAddresses entries))"

definition initDashboardState ::
    "admin_env \<Rightarrow> Configuration \<Rightarrow> string \<Rightarrow> (store_error, FileStore \<times> string option \<times> FileIconStore) io" where
  "initDashboardState E conf helperConfigPath =
     (let D = Dashboard conf; Q = aOs E in
      io_bind (NewFileStore Q (db_StorePath D) (db_UploadDir D)
                 (Some (db_MaxTemplateUploads D, sint (megabytesToBytes (db_MaxTemplateUploadStorageMb D))))) (\<lambda>store.
      io_bind (NewFileIconStore Q (db_StorePath D) (db_IconDir D)
                 (Some (db_MaxIconUploads D, sint (megabytesToBytes (db_MaxIconUploadStorageMb D))))) (\<lambda>icons.
      if \<not> OpenIDEnabled (Server conf) then io_return (store, None, icons)
      else io_bind (NewFileAuthUserStore Q (db_AuthUsersPath D)) (\<lambda>users.
           io_bind (users_List Q (aUsers E) users) (\<lambda>authUsers.
           io_bind (WriteAuthHelperConfig Q (aYaml E) helperConfigPath authUsers) (\<lambda>_.
           io_return (store, Some users, icons)))))))"

lemma startup_runs:
  assumes run: "initDashboardState E conf hp d = (Inr (s, Some path, ic), d')"
  shows "\<exists>us d1 d2. users_List (aOs E) (aUsers E) path d1 = (Inr us, d2) \<and> WriteAuthHelperConfig (aOs E) (aYaml E) hp us d2 = (Inr (), d')
    \<and> path = db_AuthUsersPath (Dashboard conf)"
  using run
  by (auto simp: initDashboardState_def NewFileAuthUserStore_def Let_def io_bind_def io_return_def
           split: sum.splits prod.splits if_splits)

lemma startup_synced:
  assumes ok: "helper_ok E h path" and hp: "AdminHandler.authHelperConfigPath h = hp"
    and run: "initDashboardState E conf hp d = (Inr (s, Some path, ic), d')"
  shows "\<exists>us. users_of E path d' = Some us \<and> synced E h us d'"
proof -
  obtain us d1 d2 where u: "users_List (aOs E) (aUsers E) path d1 = (Inr us, d2)"
      and w: "WriteAuthHelperConfig (aOs E) (aYaml E) hp us d2 = (Inr (), d')"
    using startup_runs [OF run] by blast
  have "users_of E path d1 = Some us" "nodes d2 = nodes d1"
    using readJSONFile_exact [of "aOs E" "aUsers E" path d1 "Inr us" d2] u by (simp_all add: users_List_def users_readLocked_def)
  then have us: "users_of E path d2 = Some us" by (simp add: read_metadata_def lookup_def)
  have tmp: "\<forall>t. locate (temp_of (aOs E) hp ''auth-helper-'' ''.tmp'' t) \<noteq> locate hp"
    and other: "\<forall>t. locate path \<noteq> locate (temp_of (aOs E) hp ''auth-helper-'' ''.tmp'' t)" "locate path \<noteq> locate hp"
    using ok unfolding helper_ok_def hp by (blast, metis insertCI, metis)
  note e = WriteAuthHelperConfig_exact [OF w tmp]
  have "aYaml E (helper_users us) \<noteq> None"
    using w by (auto simp: WriteAuthHelperConfig_def io_bind_def io_fail_def split: sum.splits prod.splits option.splits)
  then have "synced E h us d'" using e(1) by (auto simp: synced_def hp)
  moreover have "users_of E path d' = Some us" using e(2) [OF other] us by (simp add: read_metadata_def)
  ultimately show ?thesis by blast
qed

subsection \<open>From the list of users to a login\<close>

definition user_config :: "helperUser \<Rightarrow> UserConfig" where
  "user_config hu = \<lparr>ucUsername = huUsername hu, ucPassword = huPassword hu\<rparr>"

text \<open>What the helper sees of its file at a time; \<open>parse\<close> reads the YAML.\<close>

definition file_now :: "(string \<Rightarrow> UserConfig list option) \<Rightarrow> string \<Rightarrow> instant \<Rightarrow> disk \<Rightarrow> file_view" where
  "file_now parse path t d =
     (case lookup d path of
        None \<Rightarrow> \<lparr>fvStat = Missing, fvLoad = None\<rparr>
      | Some (File data) \<Rightarrow> \<lparr>fvStat = ModTime t, fvLoad = parse data\<rparr>
      | Some Dir \<Rightarrow> \<lparr>fvStat = ModTime t, fvLoad = None\<rparr>)"

definition may_log_in :: "(string \<Rightarrow> string \<Rightarrow> bool) \<Rightarrow> AuthUser list \<Rightarrow> string \<Rightarrow> string \<Rightarrow> bool" where
  "may_log_in bc us name pw \<longleftrightarrow>
     (\<exists>u \<in> set us. auUsername u = name \<and> auEnabled u \<and> auPassword u \<noteq> [] \<and> (bc (auPassword u) pw \<or> auPassword u = pw))"

lemma helper_database:
  assumes "distinct (map auUsername us)"
  shows "map_of (usersToMap (map user_config (helper_users us))) name = Some c \<longleftrightarrow>
     (\<exists>u \<in> set us. auUsername u = name \<and> auEnabled u \<and> c = \<lparr>ucUsername = name, ucPassword = auPassword u\<rparr>)"
proof -
  have "distinct (map ucUsername (map user_config (helper_users us)))"
    using assms by (simp add: helper_users_filter user_config_def comp_def distinct_map_filter)
  from usersToMap_distinct [OF this] show ?thesis by (auto simp: helper_users_filter user_config_def)
qed

lemma helper_passwords:
  assumes dist: "distinct (map auUsername us)"
  shows "((case map_of (usersToMap (map user_config (helper_users us))) name of None \<Rightarrow> [] | Some u \<Rightarrow> ucPassword u) = p \<and> p \<noteq> [])
      \<longleftrightarrow> (\<exists>u \<in> set us. auUsername u = name \<and> auEnabled u \<and> auPassword u = p) \<and> p \<noteq> []"
proof (cases "map_of (usersToMap (map user_config (helper_users us))) name")
  case None
  then have "\<not> (\<exists>u \<in> set us. auUsername u = name \<and> auEnabled u)"
    using helper_database [OF dist, of name] by auto
  with None show ?thesis by auto
next
  case (Some c)
  then obtain u where u: "u \<in> set us" "auUsername u = name" "auEnabled u" "c = \<lparr>ucUsername = name, ucPassword = auPassword u\<rparr>"
    using helper_database [OF dist, of name] by auto
  have "w = u" if "w \<in> set us" "auUsername w = name" for w
    using dist that(1) u(1) that(2) [folded u(2)] unfolding distinct_map by (blast dest: inj_onD)
  then have only: "(\<exists>w \<in> set us. auUsername w = name \<and> auEnabled w \<and> auPassword w = p) \<longleftrightarrow> auPassword u = p"
    using u(1-3) by blast
  show ?thesis unfolding only by (simp add: Some u(4))
qed

lemma synced_login:
  assumes sync: "synced E h us d" and dist: "distinct (map auUsername us)"
    and yaml: "\<And>data. aYaml E (helper_users us) = Some data \<Longrightarrow> parse data = Some (map user_config (helper_users us))"
    and newer: "t > modTime c" "configFile c \<noteq> []"
    and v: "v = file_now parse (AdminHandler.authHelperConfigPath h) t d"
  shows "arAuthenticated (fst (service_Authenticate bc v v v c name pw)) \<longleftrightarrow> may_log_in bc us name pw"
proof -
  obtain data where "aYaml E (helper_users us) = Some data" "lookup d (AdminHandler.authHelperConfigPath h) = Some (File data)"
    using sync by (auto simp: synced_def)
  then have "v = \<lparr>fvStat = ModTime t, fvLoad = Some (map user_config (helper_users us))\<rparr>"
    using yaml by (simp add: v file_now_def)
  then have "cfUsers (reloadIfChanged v v v c) = usersToMap (map user_config (helper_users us))"
    using newer by (simp add: reloadIfChanged_def loadConfigFile_def LoadFile_def)
  then have "password_of (reloadIfChanged v v v c) name
      = (case map_of (usersToMap (map user_config (helper_users us))) name of None \<Rightarrow> [] | Some u \<Rightarrow> ucPassword u)"
    by (simp add: password_of_def)
  then have stored: "(password_of (reloadIfChanged v v v c) name = p \<and> p \<noteq> [])
      \<longleftrightarrow> (\<exists>u \<in> set us. auUsername u = name \<and> auEnabled u \<and> auPassword u = p) \<and> p \<noteq> []" for p
    using helper_passwords [OF dist, of name p] by (simp only:)
  let ?s = "password_of (reloadIfChanged v v v c) name"
  have "arAuthenticated (fst (service_Authenticate bc v v v c name pw)) \<longleftrightarrow> ?s \<noteq> [] \<and> (bc ?s pw \<or> ?s = pw)"
    by (simp add: service_Authenticate_def GetPassword_def Authenticate_iff Let_def)
  also have "\<dots> \<longleftrightarrow> (\<exists>p. (?s = p \<and> p \<noteq> []) \<and> (bc p pw \<or> p = pw))" by blast
  also have "\<dots> \<longleftrightarrow> may_log_in bc us name pw" unfolding stored may_log_in_def by blast
  finally show ?thesis .
qed

lemma user_result_distinct:
  assumes "distinct (map auUsername us)" "us' = us \<or> user_result c us us'"
  shows "distinct (map auUsername us')"
  using assms
  by (cases c) (auto simp: user_put_def intro: users.put_distinct users.del_distinct)

text \<open>
  What an administrator does to the users reaches the login prompt. After a request that
  succeeds, the authentication helper, which reads its file again because it is newer than what it
  loaded, accepts a name and a password exactly when the stored list has an enabled user of that
  name whose non-empty password the given one matches; a user that was deleted or disabled is no
  longer accepted, whatever the helper had loaded before.
\<close>

theorem dashboard_login:
  assumes "helper_ok E h path" "dashboardAuthUserStore h = Some path" "users_of E path d = Some us" "distinct (map auUsername us)"
    and "user_request E h r change d = (Inr st, d')"
    and "\<And>vs data. users_of E path d' = Some vs \<Longrightarrow> aYaml E (helper_users vs) = Some data
           \<Longrightarrow> parse data = Some (map user_config (helper_users vs))"
    and "t > modTime db" "configFile db \<noteq> []" "v = file_now parse (AdminHandler.authHelperConfigPath h) t d'"
  shows "\<exists>vs. users_of E path d' = Some vs \<and> user_result change us vs
     \<and> (\<forall>name pw. arAuthenticated (fst (service_Authenticate bc v v v db name pw)) = may_log_in bc vs name pw)"
proof -
  obtain vs where vs: "users_of E path d' = Some vs" "user_result change us vs" "synced E h vs d'"
    using user_request_effect [OF assms(1-3,5)] by (auto simp: user_effect_def)
  have "distinct (map auUsername vs)" using user_result_distinct assms(4) vs(2) by blast
  from synced_login [OF vs(3) this assms(6) [OF vs(1)] assms(7-9)] vs show ?thesis by blast
qed

text \<open>Bob is deleted, and his password, which the helper still has in memory, is no longer accepted.\<close>

definition bob_loaded :: Config where
  "bob_loaded = \<lparr>cfUsers = [(''bob'', \<lparr>ucUsername = ''bob'', ucPassword = ''pw''\<rparr>)], configFile = ''helper'', modTime = 0\<rparr>"

lemma dashboard_login_witness:
  "\<exists>d'. user_request (demo_env calm) demo_admin demo_request (DeleteUser ''bob'') users_disk = (Inr 204, d')
     \<and> (let v = file_now (\<lambda>s. Some []) ''helper'' 1 d' in
          \<not> arAuthenticated (fst (service_Authenticate (\<lambda>h p. False) v v v bob_loaded ''bob'' ''pw'')))"
proof -
  have temp: "os_temp calm = (\<lambda>t. ''1'')" by (simp add: calm_def)
  have helper: "AdminHandler.authHelperConfigPath demo_admin = ''helper''" by (simp add: demo_admin_def AdminHandler.defs Handler.defs)
  obtain d' where run: "user_request (demo_env calm) demo_admin demo_request (DeleteUser ''bob'') users_disk = (Inr 204, d')"
    using demo_deletes_bob by blast
  have gone: "users_of (demo_env calm) ''users'' d' = Some []"
    using user_request_effect [OF demo_helper_ok [OF temp] demo_admin_simps(2) users_there run]
    by (auto simp: user_effect_def bob_name_trimmed demo_bob_def)
  have "\<exists>vs. users_of (demo_env calm) ''users'' d' = Some vs \<and> user_result (DeleteUser ''bob'') [demo_bob] vs
     \<and> (\<forall>name pw. arAuthenticated (fst (service_Authenticate (\<lambda>h p. False) (file_now (\<lambda>s. Some []) ''helper'' 1 d')
          (file_now (\<lambda>s. Some []) ''helper'' 1 d') (file_now (\<lambda>s. Some []) ''helper'' 1 d') bob_loaded name pw))
        = may_log_in (\<lambda>h p. False) vs name pw)"
    by (rule dashboard_login [OF demo_helper_ok [OF temp] demo_admin_simps(2) users_there _ run])
      (use gone in \<open>simp_all add: bob_loaded_def helper\<close>)
  then show ?thesis using run gone by (simp only:) (auto simp: may_log_in_def Let_def)
qed

subsection \<open>From the inventory to the gateway\<close>

text \<open>
  C28: The inventory of the dashboard decides what the gateway lets through. With the list of
  hosts that the start wires to the store, the security handler admits a host for an authenticated
  user exactly when the mode is not the signed one and the stored entries have an enabled
  host entry whose address, with the name of the user filled in, is that host; templates, disabled
  entries and the groups of an entry play no part.
\<close>

theorem inventory_decides:
  assumes "tun = Some t" "tUser t = Some u"
    and "ManagedHostList G = Some (managed_host_list Q C ul s d)" "store_List Q C ul s d = (Inr es, d')"
  shows "sec_CheckHost G tun host = Ret
     (UserName u \<noteq> [] \<and> HostSelection G \<in> {''any'', ''roundrobin'', ''unsigned''}
      \<and> (\<exists>e \<in> set es. Type e = EntryTypeHost \<and> Enabled e \<and> ResolvePreferredUsernameHost (Host e) (UserName u) = Some host))"
  unfolding CheckHost_exact [OF assms(1,2)] assms(3)
  using assms(4) by (simp add: managed_host_list_def Bex_def EnabledHostAddresses_iff) blast

lemma staff_listed: "\<exists>d'. store_List calm staff_codec id demo_store demo_disk = (Inr [normalized id staff_entry], d')"
  by (simp add: store_List_def readLocked_def io_defs os_ReadFile_def sys_def demo_disk_def demo_store_def staff_codec_def
      lookup_def locate_plain plain_def normalized_def staff_entry_def Let_def)

lemma inventory_decides_witness:
  "sec_CheckHost (demo_globals\<lparr>ManagedHostList := Some (managed_host_list calm staff_codec id demo_store demo_disk)\<rparr>)
     (Some demo_tunnel) ''pc1:3389'' = Ret True"
proof -
  obtain d' where "store_List calm staff_codec id demo_store demo_disk = (Inr [normalized id staff_entry], d')"
    using staff_listed by blast
  from inventory_decides [OF refl _ _ this, where G = "demo_globals\<lparr>ManagedHostList := Some (managed_host_list calm staff_codec id demo_store demo_disk)\<rparr>"
      and t = demo_tunnel and u = demo_user and host = "''pc1:3389''"]
  show ?thesis
    by (simp add: demo_tunnel_def demo_user_attrs demo_globals_def normalized_def staff_entry_def pc1_resolved)
qed

subsection \<open>From the list of entries to their downloads\<close>

lemma entry_link_var:
  assumes "i \<noteq> []" "CHR ''/'' \<notin> set i"
  shows "mux_var ''/connect/entries/'' ''.rdp'' (''/connect/entries/'' @ i @ ''.rdp'') = Some i"
  using assms by (simp add: mux_var_def)

lemma listed_link:
  assumes list: "HandleEntryList Q C ul h ident d = (Inr xs, d1)"
    and store: "dashboardStore h = Some s" "stored_entries C ul s d = Some es" "store_inv ul es" and x: "x \<in> set xs"
  shows "suID x \<noteq> []" "suDownloadURL x = ''/connect/entries/'' @ suID x @ ''.rdp''"
proof -
  obtain u where "xs = map (entry_summary ul) (VisibleEntries es (Groups u))"
    using HandleEntryList_reads [OF list] store by auto
  then obtain e where e: "x = entry_summary ul e" "e \<in> set es" using x visible_sub by auto
  then show "suID x \<noteq> []" "suDownloadURL x = ''/connect/entries/'' @ suID x @ ''.rdp''"
    using store(3) by (auto simp: store_inv_def list_all_iff entry_summary_def Validate_entry_def TrimSpace_ascii is_ascii_def)
qed


definition openid_config :: Configuration where
  "openid_config = demo_config\<lparr>Server := (Server demo_config)\<lparr>sv_Authentication := [''openid'']\<rparr>\<rparr>"

lemma pc_name: "TrimSpace ''PC'' = ''PC''"
  by (simp add: TrimSpace_ascii is_ascii_def ascii_space_def)

lemma staff_inv: "store_inv id [normalized id staff_entry]"
  by (simp add: store_inv_def Validate_entry_def normalized_def staff_entry_def IsValidEntryIcon_def NormalizeEntryIcon_def
      allowedEntryIcons_def EntryIconWindow_def valid_host_port_def pc1_address staff_group pc_name
      IsUploadedEntryIcon_def UploadedEntryIconID_def EntryIconUploadedPrefix_def HasPrefix_def ToLower_def is_ascii_def ascii_lower_def)

end
