(* ===== verification/Startup.thy ===== *)
theory Startup
  imports Portal
begin

text \<open>
  The start of the gateway (\<open>main\<close> of \<open>main.go\<close> up to the listener, with \<open>InitStore\<close> of
  \<open>web/session.go\<close>): from the configuration to the state that the handlers, the gateways and the
  authentication helper share, and what holds in the running system because of it.
\<close>

subsection \<open>What is derived from the configuration\<close>

definition rdpRedirectionPolicyFromCaps :: "RDGCapsConfig \<Rightarrow> Web_Download.RdpRedirectionPolicy" where
  "rdpRedirectionPolicyFromCaps caps =
     (if cap_DisableRedirect caps
      then \<lparr>rpClipboard = False, rpDrive = False, rpPrinter = False, rpPort = False, rpDevice = False, rpPnp = False\<rparr>
      else if cap_RedirectAll caps
      then \<lparr>rpClipboard = True, rpDrive = True, rpPrinter = True, rpPort = True, rpDevice = True, rpPnp = True\<rparr>
      else \<lparr>rpClipboard = cap_EnableClipboard caps, rpDrive = cap_EnableDrive caps,
            rpPrinter = cap_EnablePrinter caps, rpPort = cap_EnablePort caps,
            rpDevice = cap_EnablePnp caps, rpPnp = cap_EnablePnp caps\<rparr>)"

text \<open>The variables of package \<open>security\<close>; \<open>managed\<close> is what \<open>ManagedHostList\<close> gives at the time of a call.\<close>

definition security_of :: "Configuration \<Rightarrow> string list option option \<Rightarrow> globals" where
  "security_of conf managed =
     \<lparr>SigningKey = se_PAATokenSigningKey (Security conf), EncryptionKey = se_PAATokenEncryptionKey (Security conf),
      UserSigningKey = se_UserTokenSigningKey (Security conf), UserEncryptionKey = se_UserTokenEncryptionKey (Security conf),
      QuerySigningKey = se_QueryTokenSigningKey (Security conf), VerifyClientIP = se_VerifyClientIp (Security conf),
      HostSelection = sv_HostSelection (Server conf), ManagedHostList = managed\<rparr>"

text \<open>An address that does not parse is a nil pointer that the next line dereferences: \<open>None\<close>.\<close>

definition gateway_url :: "(string \<Rightarrow> url option) \<Rightarrow> Configuration \<Rightarrow> url option" where
  "gateway_url parse conf =
     map_option (\<lambda>u. if uScheme u = [] then u\<lparr>uScheme := ''https''\<rparr> else u) (parse (sv_GatewayAddress (Server conf)))"

subsection \<open>The session store\<close>

record session_options =
  soPath :: string
  soHttpOnly :: bool
  soSameSiteLax :: bool
  soSecure :: bool

datatype session_store =
    FilesystemStore (stSigning: string) (stEncryption: string) int (stOptions: session_options)
  | CookieStore (stSigning: string) (stEncryption: string) (stOptions: session_options)

definition maxSessionLength :: int where "maxSessionLength = 8192"

definition defaultSessionOptions :: "bool \<Rightarrow> session_options" where
  "defaultSessionOptions secure = \<lparr>soPath = ''/'', soHttpOnly = True, soSameSiteLax = True, soSecure = secure\<rparr>"

definition InitStore :: "string \<Rightarrow> string \<Rightarrow> string \<Rightarrow> int \<Rightarrow> bool list \<Rightarrow> session_store option" where
  "InitStore sessionKey encryptionKey storeType maxLength secureCookies =
     (if length sessionKey < 32 then None
      else if length encryptionKey < 32 then None
      else let secure = (case secureCookies of [] \<Rightarrow> False | b # bs \<Rightarrow> b) in
        Some (if storeType = ''file''
              then FilesystemStore sessionKey encryptionKey (if maxLength = 0 then maxSessionLength else maxLength)
                     (defaultSessionOptions secure)
              else CookieStore sessionKey encryptionKey (defaultSessionOptions secure)))"

subsection \<open>The handler\<close>

text \<open>The generators get the context of the request and the time of the call.\<close>

definition web_handler ::
    "jose \<Rightarrow> (string \<Rightarrow> string \<Rightarrow> nat list list option) \<Rightarrow> Configuration \<Rightarrow> url \<Rightarrow> FileStore \<Rightarrow> Ctx \<Rightarrow> instant \<Rightarrow> Handler" where
  "web_handler J dns conf url store ctx t =
     (let G = security_of conf None; s = Server conf; cl = ClientOpts conf in
      \<lparr>paaTokenGenerator = (if cap_TokenAuth (Caps conf) \<and> OpenIDEnabled s then Some (token_generator J G t ctx) else None),
       enableUserToken = se_EnableUserToken (Security conf),
       userTokenGenerator = (if se_EnableUserToken (Security conf)
         then Some (\<lambda>user. case GenerateUserToken J G t user of Inl e \<Rightarrow> None | Inr tok \<Rightarrow> Some tok) else None),
       queryInfo = QueryInfo J G t, queryTokenIssuer = se_QueryTokenIssuer (Security conf),
       dashboardStore = Some store, gatewayHost = uHost url, hosts = sv_Hosts s, hostSelection = sv_HostSelection s,
       rdpOpts = \<lparr>UsernameTemplate = cl_UsernameTemplate cl, SplitUserDomain = cl_SplitUserDomain cl, NoUsername = cl_NoUsername cl\<rparr>,
       rdpDefaults = cl_Defaults cl, rdpSigner = None, rdpRedirection = rdpRedirectionPolicyFromCaps (Caps conf),
       internalDomains = sv_InternalDomains s, internalDNSServer = sv_InternalDNSServer s, internalDNSLookupIP = dns\<rparr>)"

definition admin_handler ::
    "Configuration \<Rightarrow> url \<Rightarrow> string option \<Rightarrow> FileIconStore \<Rightarrow> string \<Rightarrow> Handler \<Rightarrow> AdminHandler" where
  "admin_handler conf url users icons helperConfigPath h =
     Handler.extend h (AdminHandler.fields (db_AdminGroups (Dashboard conf)) users (Some icons)
       (if OpenIDEnabled (Server conf) then sint (megabytesToBytes (db_MaxUploadSizeMb (Dashboard conf))) else 0)
       helperConfigPath (Some url))"

subsection \<open>The listener\<close>

text \<open>
  With a key file and a certificate file the certificate is appended even when it cannot be loaded
  (then an empty one), and ACME is not used.
\<close>

datatype listener = Plain_http | Certificate_tls bool | Acme_tls string

definition tls_listener :: "Configuration \<Rightarrow> string \<Rightarrow> bool \<Rightarrow> bool \<Rightarrow> url \<Rightarrow> listener option" where
  "tls_listener conf keyLog keyLogOpens certLoads url =
     (if sv_Tls (Server conf) = ''disable'' then Some Plain_http
      else if \<not> fst (configureTLSKeyLog conf keyLog keyLogOpens) then None
      else if sv_KeyFile (Server conf) \<noteq> [] \<and> sv_CertFile (Server conf) \<noteq> [] then Some (Certificate_tls certLoads)
      else Some (Acme_tls (uHost url)))"

record http_server =
  hsAddr :: string
  hsHttp2 :: bool
  hsReadHeaderTimeout :: int
  hsIdleTimeout :: int
  hsReadTimeout :: "int option"
  hsWriteTimeout :: "int option"

definition buildMainHTTPServer :: "Configuration \<Rightarrow> http_server" where
  "buildMainHTTPServer conf =
     \<lparr>hsAddr = '':'' @ fmt_int (sv_Port (Server conf)), hsHttp2 = False, hsReadHeaderTimeout = 10, hsIdleTimeout = 300,
      hsReadTimeout = None, hsWriteTimeout = None\<rparr>"

subsection \<open>The start\<close>

text \<open>
  What the start gets from outside: the configuration as read, random keys, two environment
  variables, whether the key log, the certificate, the provider and the keytab can be opened, the
  signer, DNS and JOSE.
\<close>

record start_env =
  seRandom :: "nat \<Rightarrow> string"
  seHelperConfig :: string
  seKeyLog :: string
  seKeyLogOpens :: bool
  seCertLoads :: bool
  seProvider :: bool
  seKeytab :: bool
  seSigner :: "string \<Rightarrow> string \<Rightarrow> (string \<Rightarrow> string option) option"
  seDns :: "string \<Rightarrow> string \<Rightarrow> nat list list option"
  seJose :: jose

datatype start_error =
    BadConfig fatal | BadAddress | BadSessionKey | BadState store_error | BadSigner | BadKeyLog | BadProxies | BadProvider | BadKeytab

record started =
  stConf :: Configuration
  stHelperConfig :: string
  stSessions :: session_store
  stStore :: FileStore
  stUsers :: "string option"
  stHandler :: "Ctx \<Rightarrow> instant \<Rightarrow> AdminHandler"
  stListener :: listener
  stRouter :: router

text \<open>
  The steps of \<open>main\<close> in their order; each error ends the process. The handler is made once, for every
  context; whether that succeeds does not depend on the context.
\<close>

definition main_start :: "start_env \<Rightarrow> admin_env \<Rightarrow> Configuration \<Rightarrow> (start_error, started) io" where
  "main_start V E raw d =
     (case Load (seRandom V) raw of
        Inl e \<Rightarrow> (Inl (BadConfig e), d)
      | Inr conf \<Rightarrow>
          let hp = Policy.authHelperConfigPath (seHelperConfig V) conf; s = Server conf; cl = ClientOpts conf in
          (case gateway_url (aParse E) conf of
             None \<Rightarrow> (Inl BadAddress, d)
           | Some url \<Rightarrow>
          (case InitStore (sv_SessionKey s) (sv_SessionEncryptionKey s) (sv_SessionStore s) (sv_MaxSessionLength s) [secureCookiesForConfig conf] of
             None \<Rightarrow> (Inl BadSessionKey, d)
           | Some sessions \<Rightarrow>
          (case initDashboardState E conf hp d of
             (Inl e, d') \<Rightarrow> (Inl (BadState e), d')
           | (Inr (store, users, icons), d') \<Rightarrow>
               let h = web_handler (seJose V) (seDns V) conf url store in
          (case NewHandler (seSigner V) (cl_SigningCert cl) (cl_SigningKey cl) (h \<lparr>ctxIdentity = None\<rparr> 0) of
             Panic \<Rightarrow> (Inl BadSigner, d')
           | Ret h0 \<Rightarrow>
          (case tls_listener conf (seKeyLog V) (seKeyLogOpens V) (seCertLoads V) url of
             None \<Rightarrow> (Inl BadKeyLog, d')
           | Some l \<Rightarrow>
               if NewTrustedProxyChecker (sv_TrustedProxyCIDRs s) = None then (Inl BadProxies, d')
               else if OpenIDEnabled s \<and> \<not> seProvider V then (Inl BadProvider, d')
               else if KerberosEnabled s \<and> \<not> seKeytab V then (Inl BadKeytab, d')
               else (Inr \<lparr>stConf = conf, stHelperConfig = hp, stSessions = sessions, stStore = store, stUsers = users,
                          stHandler = (\<lambda>ctx t. admin_handler conf url users icons hp ((h ctx t)\<lparr>rdpSigner := rdpSigner h0\<rparr>)),
                          stListener = l, stRouter = main_router conf\<rparr>, d')))))))"

lemma main_start_Inr:
  assumes "main_start V E raw d = (Inr S, d')"
  obtains url icons signer where
    "Load (seRandom V) raw = Inr (stConf S)" "stHelperConfig S = Policy.authHelperConfigPath (seHelperConfig V) (stConf S)"
    "initDashboardState E (stConf S) (stHelperConfig S) d = (Inr (stStore S, stUsers S, icons), d')"
    "stHandler S = (\<lambda>ctx t. admin_handler (stConf S) url (stUsers S) icons (stHelperConfig S)
        ((web_handler (seJose V) (seDns V) (stConf S) url (stStore S) ctx t)\<lparr>rdpSigner := signer\<rparr>))"
    "InitStore (sv_SessionKey (Server (stConf S))) (sv_SessionEncryptionKey (Server (stConf S))) (sv_SessionStore (Server (stConf S)))
       (sv_MaxSessionLength (Server (stConf S))) [secureCookiesForConfig (stConf S)] = Some (stSessions S)"
    "tls_listener (stConf S) (seKeyLog V) (seKeyLogOpens V) (seCertLoads V) url = Some (stListener S)"
    "stRouter S = main_router (stConf S)"
  using assms
  by (auto simp: main_start_def Let_def split: sum.splits option.splits prod.splits go.splits if_splits)

lemma handler_simps [simp]:
  "AdminHandler.authHelperConfigPath (admin_handler conf url users icons hp h) = hp"
  "dashboardAuthUserStore (admin_handler conf url users icons hp h) = users"
  "AdminHandler.adminGroups (admin_handler conf url users icons hp h) = db_AdminGroups (Dashboard conf)"
  "Handler.truncate (admin_handler conf url users icons hp h) = h"
  by (simp_all add: admin_handler_def AdminHandler.defs Handler.defs)

text \<open>
  A certificate that cannot be loaded is served, empty, although the message announces ACME; an
  address that does not parse ends the start in a nil dereference; cookies are secure unless TLS is off.
\<close>

lemma unreadable_certificate_served:
  "sv_Tls (Server conf) \<noteq> ''disable'' \<Longrightarrow> fst (configureTLSKeyLog conf keyLog opens)
     \<Longrightarrow> sv_KeyFile (Server conf) \<noteq> [] \<Longrightarrow> sv_CertFile (Server conf) \<noteq> []
     \<Longrightarrow> tls_listener conf keyLog opens False url = Some (Certificate_tls False)"
  by (simp add: tls_listener_def)

lemma unparsable_address_crashes:
  "Load (seRandom V) raw = Inr conf \<Longrightarrow> aParse E (sv_GatewayAddress (Server conf)) = None \<Longrightarrow> main_start V E raw d = (Inl BadAddress, d)"
  by (simp add: main_start_def gateway_url_def Let_def)

lemma InitStore_Some:
  "InitStore k e ty n [b] = Some st \<Longrightarrow>
     32 \<le> length (stSigning st) \<and> 32 \<le> length (stEncryption st) \<and> soHttpOnly (stOptions st) \<and> soSecure (stOptions st) = b"
  by (auto simp: InitStore_def defaultSessionOptions_def Let_def split: if_splits)

lemma started_sessions:
  assumes "main_start V E raw d = (Inr S, d')"
  shows "32 \<le> length (stSigning (stSessions S)) \<and> 32 \<le> length (stEncryption (stSessions S))
    \<and> soHttpOnly (stOptions (stSessions S)) \<and> (stListener S \<noteq> Plain_http \<longrightarrow> soSecure (stOptions (stSessions S)))"
proof -
  obtain url where a: "InitStore (sv_SessionKey (Server (stConf S))) (sv_SessionEncryptionKey (Server (stConf S)))
       (sv_SessionStore (Server (stConf S))) (sv_MaxSessionLength (Server (stConf S))) [secureCookiesForConfig (stConf S)] = Some (stSessions S)"
    and l: "tls_listener (stConf S) (seKeyLog V) (seKeyLogOpens V) (seCertLoads V) url = Some (stListener S)"
    by (rule main_start_Inr [OF assms])
  have "stListener S \<noteq> Plain_http \<longrightarrow> secureCookiesForConfig (stConf S)"
    using l by (auto simp: secureCookiesForConfig_def tls_listener_def split: if_splits)
  with InitStore_Some [OF a] show ?thesis by blast
qed

subsection \<open>Logins after the start\<close>

text \<open>A sequence of administration requests for users, and whether the last one succeeded.\<close>

definition user_requests ::
    "admin_env \<Rightarrow> AdminHandler \<Rightarrow> (Request \<times> user_change) list \<Rightarrow> disk \<Rightarrow> bool \<times> disk" where
  "user_requests E h cs d =
     foldl (\<lambda>(ok, d) (r, c). let (res, d') = user_request E h r c d in (\<not> isl res, d')) (True, d) cs"

lemma user_requests_snoc:
  "user_requests E h (cs @ [(r, c)]) d =
     (let (res, d') = user_request E h r c (snd (user_requests E h cs d)) in (\<not> isl res, d'))"
  by (simp add: user_requests_def split: prod.split)

lemma user_requests_inv:
  assumes ok: "helper_ok E h path" and p: "dashboardAuthUserStore h = Some path"
    and us: "users_of E path d = Some us" "distinct (map auUsername us)" "synced E h us d"
  shows "\<exists>us'. users_of E path (snd (user_requests E h cs d)) = Some us' \<and> distinct (map auUsername us')
     \<and> (fst (user_requests E h cs d) \<longrightarrow> synced E h us' (snd (user_requests E h cs d)))"
proof (induction cs rule: rev_induct)
  case Nil
  then show ?case using us by (simp add: user_requests_def)
next
  case (snoc rc cs)
  obtain r c where rc: "rc = (r, c)" by (rule prod.exhaust)
  let ?d = "snd (user_requests E h cs d)"
  obtain us1 where us1: "users_of E path ?d = Some us1" "distinct (map auUsername us1)" using snoc by blast
  obtain res d' where run: "user_request E h r c ?d = (res, d')" by (rule prod.exhaust)
  from user_request_effect [OF ok p us1(1) run] user_result_distinct [OF us1(2)] show ?case
    by (auto simp: rc user_requests_snoc run user_effect_def)
qed


subsection \<open>A concrete start\<close>

definition portal_config :: Configuration where
  "portal_config = demo_config\<lparr>Dashboard := (Dashboard demo_config)\<lparr>db_AuthUsersPath := ''users'', db_AuthHelperConfigPath := ''helper''\<rparr>\<rparr>"

definition portal_env :: start_env where
  "portal_env = \<lparr>seRandom = (\<lambda>i. replicate 32 CHR ''k''), seHelperConfig = [], seKeyLog = [], seKeyLogOpens = False, seCertLoads = False,
     seProvider = True, seKeytab = False, seSigner = (\<lambda>c k. None), seDns = (\<lambda>s h. None), seJose = demo_jose\<rparr>"

lemma portal_loads:
  obtains conf where "Load (\<lambda>i. replicate 32 CHR ''k'') portal_config = Inr conf"
    "db_AuthUsersPath (Dashboard conf) = ''users''" "db_AuthHelperConfigPath (Dashboard conf) = ''helper''"
    "sv_Authentication (Server conf) = [''openid'']" "cap_TokenAuth (Caps conf)" "\<not> se_EnableUserToken (Security conf)"
    "length (sv_SessionKey (Server conf)) = 32" "length (sv_SessionEncryptionKey (Server conf)) = 32"
    "length (se_PAATokenSigningKey (Security conf)) = 32" "length (se_PAATokenEncryptionKey (Security conf)) = 32"
    "sv_Tls (Server conf) = ''auto''" "sv_TrustedProxyCIDRs (Server conf) = []" "sv_InternalDNSServer (Server conf) = []"
    "se_VerifyClientIp (Security conf)"
    "ClientOpts conf = \<lparr>cl_Defaults = [], cl_UsernameTemplate = [], cl_SplitUserDomain = False, cl_NoUsername = False,
       cl_SigningCert = [], cl_SigningKey = []\<rparr>"
proof -
  have modes: "OpenIDEnabled (Server portal_config)" by (simp add: portal_config_def demo_config_def OpenIDEnabled_def)
  obtain c where c: "c = generate_keys (\<lambda>i. replicate 32 CHR ''k'') (disable_tokens (portal_config\<lparr>Dashboard := derive_paths (Dashboard portal_config)\<rparr>))"
    by blast
  have "fatal_check c = None"
    by (simp add: c portal_config_def demo_config_def generate_keys_def disable_tokens_def derive_paths_def fatal_check_def Validate_conf_def
      OpenIDEnabled_def HeaderEnabled_def KerberosEnabled_def NtlmEnabled_def BasicAuthEnabled_def Let_def maxUploadStorageMegabytes_def)
  then have load: "Load (\<lambda>i. replicate 32 CHR ''k'') portal_config
      = Inr (if Contains (sv_GatewayAddress (Server c)) ''//'' then c
             else c\<lparr>Server := (Server c)\<lparr>sv_GatewayAddress := ''//'' @ sv_GatewayAddress (Server c)\<rparr>\<rparr>)"
    by (simp only: Load_def Let_def c [symmetric] option.case)
  have "\<exists>a. Load (\<lambda>i. replicate 32 CHR ''k'') portal_config = Inr (c\<lparr>Server := (Server c)\<lparr>sv_GatewayAddress := a\<rparr>\<rparr>)"
  proof (cases "Contains (sv_GatewayAddress (Server c)) ''//''")
    case True
    show ?thesis unfolding load if_P [OF True] by (rule exI [of _ "sv_GatewayAddress (Server c)"]) simp
  next
    case False
    show ?thesis unfolding load if_not_P [OF False] by blast
  qed
  then obtain a where l: "Load (\<lambda>i. replicate 32 CHR ''k'') portal_config = Inr (c\<lparr>Server := (Server c)\<lparr>sv_GatewayAddress := a\<rparr>\<rparr>)" ..
  show ?thesis
    by (rule that [OF l])
      (simp_all add: c portal_config_def demo_config_def generate_keys_def disable_tokens_def derive_paths_def key_or_random_def OpenIDEnabled_def Let_def
        deriveAuthUsersPath_def deriveAuthHelperConfigPath_def)
qed

text \<open>The start of the stores: five directories are ensured, the users read, and the helper's file written.\<close>

lemma portal_state:
  assumes "OpenIDEnabled (Server conf)" "db_AuthUsersPath (Dashboard conf) = ''users''"
  shows "\<exists>st ic d'. initDashboardState (demo_env calm) conf ''helper'' users_disk = (Inr (st, Some ''users'', ic), d')
     \<and> users_of (demo_env calm) ''users'' d' = Some [demo_bob]"
proof -
  have temp: "os_temp calm = (\<lambda>t. ''1'')" by (simp add: calm_def)
  have look: "lookup users_disk ''users'' = Some (File ''x'')" "lookup users_disk ''helper'' = Some (File ''bob'')"
      "lookup users_disk ''./auth-helper-1.tmp'' = None"
    by (simp_all add: lookup_def demo_locations users_disk_def)
  have rd: "readJSONFile calm (empty_codec demo_bob) ''users'' [] (users_disk\<lparr>ticks := k\<rparr>) = (Inr [demo_bob], users_disk\<lparr>ticks := Suc k\<rparr>)" for k
    using look(1) by (simp add: readJSONFile_def io_defs empty_codec_def Let_def)
  obtain d' where w: "writeFileAtomic calm ''helper'' ''bob'' ''auth-helper-'' ''.tmp'' (users_disk\<lparr>ticks := 7\<rparr>) = (Inr (), d')"
    using writeFileAtomic_succeeds [of "users_disk\<lparr>ticks := 7\<rparr>" calm "''helper''" "''auth-helper-''" "''.tmp''" "''bob''"] look
    by (auto simp: demo_temps [OF temp] demo_locations)
  have "lookup d' ''users'' = Some (File ''x'')"
    using writeFileAtomic_effect [OF w, of "''users''"] look(1) by (simp add: demo_temps [OF temp] demo_locations)
  then have users: "users_of (demo_env calm) ''users'' d' = Some [demo_bob]"
    by (simp add: read_metadata_def empty_codec_def)
  have mk: "os_MkdirAll calm p (users_disk\<lparr>ticks := k\<rparr>) = (Inr (), users_disk\<lparr>ticks := Suc k\<rparr>)" for p k
    by (simp add: os_MkdirAll_def sys_def io_return_def)
  have bob: "auEnabled demo_bob" "auUsername demo_bob = ''bob''" by (simp_all add: demo_bob_def)
  have "users_disk = users_disk\<lparr>ticks := 0\<rparr>" by (simp add: users_disk_def)
  moreover have "\<exists>st ic. initDashboardState (demo_env calm) conf ''helper'' (users_disk\<lparr>ticks := 0\<rparr>) = (Inr (st, Some ''users'', ic), d')"
    using w assms
    by (simp add: initDashboardState_def NewFileStore_def NewFileIconStore_def NewFileAuthUserStore_def users_List_def users_readLocked_def
        WriteAuthHelperConfig_def io_bind_def io_return_def io_check_def mk rd bob Let_def numeral_eq_Suc)
  ultimately show ?thesis using users by auto
qed

lemma portal_starts:
  obtains S d0 where "main_start portal_env (demo_env calm) portal_config users_disk = (Inr S, d0)"
    "stHelperConfig S = ''helper''" "stUsers S = Some ''users''" "users_of (demo_env calm) ''users'' d0 = Some [demo_bob]"
    "shouldRegisterTokenGatewayRoute (stConf S)"
    "\<And>m. 32 \<le> length (SigningKey (security_of (stConf S) m)) \<and> 32 \<le> length (EncryptionKey (security_of (stConf S) m))"
    "\<And>m. VerifyClientIP (security_of (stConf S) m)"
    "\<And>ctx t. Handler.truncate (stHandler S ctx t)
       = sample_handler\<lparr>paaTokenGenerator := Some (token_generator demo_jose (security_of (stConf S) None) t ctx),
           queryInfo := QueryInfo demo_jose (security_of (stConf S) None) t, queryTokenIssuer := se_QueryTokenIssuer (Security (stConf S)),
           dashboardStore := Some (stStore S), hosts := sv_Hosts (Server (stConf S)), hostSelection := sv_HostSelection (Server (stConf S)),
           rdpRedirection := rdpRedirectionPolicyFromCaps (Caps (stConf S)), internalDomains := sv_InternalDomains (Server (stConf S))\<rparr>"
proof -
  obtain conf where load: "Load (\<lambda>i. replicate 32 CHR ''k'') portal_config = Inr conf"
    and conf: "db_AuthUsersPath (Dashboard conf) = ''users''" "db_AuthHelperConfigPath (Dashboard conf) = ''helper''"
      "sv_Authentication (Server conf) = [''openid'']" "cap_TokenAuth (Caps conf)" "\<not> se_EnableUserToken (Security conf)"
      "length (sv_SessionKey (Server conf)) = 32" "length (sv_SessionEncryptionKey (Server conf)) = 32"
      "length (se_PAATokenSigningKey (Security conf)) = 32" "length (se_PAATokenEncryptionKey (Security conf)) = 32"
      "sv_Tls (Server conf) = ''auto''" "sv_TrustedProxyCIDRs (Server conf) = []" "sv_InternalDNSServer (Server conf) = []"
      "se_VerifyClientIp (Security conf)"
      "ClientOpts conf = \<lparr>cl_Defaults = [], cl_UsernameTemplate = [], cl_SplitUserDomain = False, cl_NoUsername = False,
         cl_SigningCert = [], cl_SigningKey = []\<rparr>"
    by (rule portal_loads) blast
  have modes: "OpenIDEnabled (Server conf)" "\<not> KerberosEnabled (Server conf)" "shouldRegisterTokenGatewayRoute conf"
    by (simp_all add: OpenIDEnabled_def KerberosEnabled_def BasicAuthEnabled_def NtlmEnabled_def shouldRegisterTokenGatewayRoute_def conf)
  have hp: "Policy.authHelperConfigPath [] conf = ''helper''" by (simp add: Policy.authHelperConfigPath_def conf)
  have url: "gateway_url (aParse (demo_env calm)) conf = Some \<lparr>uScheme = ''https'', uHost = ''gw''\<rparr>"
    by (simp add: gateway_url_def demo_env_def)
  obtain sessions where sessions: "InitStore (sv_SessionKey (Server conf)) (sv_SessionEncryptionKey (Server conf)) (sv_SessionStore (Server conf))
      (sv_MaxSessionLength (Server conf)) [secureCookiesForConfig conf] = Some sessions"
    by (simp add: InitStore_def conf Let_def)
  obtain st ic d0 where state: "initDashboardState (demo_env calm) conf ''helper'' users_disk = (Inr (st, Some ''users'', ic), d0)"
      and users: "users_of (demo_env calm) ''users'' d0 = Some [demo_bob]"
    using portal_state [OF modes(1) conf(1)] by blast
  have "tls_listener conf [] False False \<lparr>uScheme = ''https'', uHost = ''gw''\<rparr> \<noteq> None"
    by (simp add: tls_listener_def configureTLSKeyLog_def conf)
  then obtain l where l: "tls_listener conf [] False False \<lparr>uScheme = ''https'', uHost = ''gw''\<rparr> = Some l" by blast
  let ?web = "web_handler demo_jose (\<lambda>s h. None) conf \<lparr>uScheme = ''https'', uHost = ''gw''\<rparr> st"
  have fields: "dashboardStore (?web ctx t) = Some st" "rdpSigner (?web ctx t) = None" for ctx t
    by (simp_all add: web_handler_def Let_def)
  have "NewHandler (\<lambda>c k. None) [] [] (?web \<lparr>ctxIdentity = None\<rparr> 0) = Ret ((?web \<lparr>ctxIdentity = None\<rparr> 0)\<lparr>rdpSigner := None\<rparr>)"
    by (simp add: NewHandler_def fields)
  moreover have "NewTrustedProxyChecker (sv_TrustedProxyCIDRs (Server conf)) \<noteq> None" by (simp add: NewTrustedProxyChecker_def conf)
  ultimately obtain S where S: "main_start portal_env (demo_env calm) portal_config users_disk = (Inr S, d0)" "stConf S = conf" "stHelperConfig S = ''helper''"
      "stUsers S = Some ''users''" "stStore S = st"
      "stHandler S = (\<lambda>ctx t. admin_handler conf \<lparr>uScheme = ''https'', uHost = ''gw''\<rparr> (Some ''users'') ic ''helper''
          ((?web ctx t)\<lparr>rdpSigner := None\<rparr>))"
    using modes(1,2)
    by (simp add: main_start_def portal_env_def load hp url sessions state conf(14) l Let_def)
  have web: "(?web ctx t)\<lparr>rdpSigner := None\<rparr>
       = sample_handler\<lparr>paaTokenGenerator := Some (token_generator demo_jose (security_of conf None) t ctx),
           queryInfo := QueryInfo demo_jose (security_of conf None) t, queryTokenIssuer := se_QueryTokenIssuer (Security conf),
           dashboardStore := Some st, hosts := sv_Hosts (Server conf), hostSelection := sv_HostSelection (Server conf),
           rdpRedirection := rdpRedirectionPolicyFromCaps (Caps conf), internalDomains := sv_InternalDomains (Server conf)\<rparr>" for ctx t
    using modes(1) by (simp add: web_handler_def sample_handler_def conf Let_def)
  show ?thesis
    by (rule that [OF S(1,3,4) users])
      (use modes(3) in \<open>simp_all add: S(2,5,6) web security_of_def conf\<close>)
qed


subsection \<open>From a download to the session\<close>

lemma security_keys:
  "SigningKey (security_of conf m) = se_PAATokenSigningKey (Security conf)"
  "EncryptionKey (security_of conf m) = se_PAATokenEncryptionKey (Security conf)"
  by (simp_all add: security_of_def)

text \<open>The list of hosts plays no part in the tokens.\<close>

lemma token_generator_hosts: "token_generator J (security_of conf m) = token_generator J (security_of conf None)"
  by (intro ext) (simp only: token_generator_def GeneratePAAToken_def security_keys)


end
