(* ===== verification/Spec2Isabelle.thy ===== *)
theory Spec2Isabelle
  imports Client Policy Gateway_Entry Web_OIDC Web_Admin_Icons Auth_Socket Kdc_Proxy Web_Translations Startup
begin

text \<open>
  A model of the HomeRDP gateway (\<open>src/cmd/rdpgw\<close>), a Remote Desktop gateway in Go: clients reach it
  over HTTP, authenticate, download a connection file with a token, open a websocket or a pair of
  legacy HTTP channels, and speak the TSGU protocol; the gateway checks the token or the host
  inventory, dials the host and forwards the data. A dashboard keeps the inventory of hosts, RDP
  templates, icons and users.

  How the parts interact. \<open>config.Load\<close> reads the configuration and refuses inconsistent ones;
  \<open>main.buildGateway\<close> installs the policy hooks of a gateway. A request passes
  \<open>EnrichContext\<close> (who is it, through which proxies) and one authentication middleware, then
  \<open>HandleGatewayProtocol\<close>, which finds or makes the tunnel and runs a \<open>Processor\<close> on it. The
  processor reads messages from the transports, calls the hooks and dials. The hooks read the
  identity in the session and the tunnel, and the dashboard's inventory.

  A second process, the authentication helper (\<open>src/cmd/auth\<close>), answers password and NTLM requests
  over a Unix socket from a file of users that the dashboard writes.

  Theories and the code they model (paths under \<open>src/cmd/rdpgw\<close>):

  \<^item> \<open>Go_Prelude\<close>: Go's panics and errors as the monad \<open>go\<close>, machine integers, byte slices,
    maps as association lists, little-endian numbers. \<open>Go_Strings\<close>, \<open>Go_Net\<close>, \<open>Go_Files\<close>,
    \<open>Go_Http\<close>: the parts of \<open>strings\<close>, \<open>strconv\<close>, \<open>net\<close>, \<open>filepath\<close>, \<open>os\<close>, \<open>net/http\<close>
    and \<open>net/url\<close> that the source uses.
  \<^item> \<open>Wire\<close>: \<open>protocol/types.go\<close>, \<open>errors.go\<close>, \<open>createPacket\<close> and \<open>readHeader\<close>.
  \<^item> \<open>Framing\<close>: \<open>transport/\<close>, \<open>protocol/packet_reader.go\<close> and \<open>readMessage\<close>. A transport is
    the list of reads it still has; \<open>read_loop\<close> is a \<open>partial_function\<close>, \<open>None\<close> is a loop that
    never returns.
  \<^item> \<open>Utf16\<close>: \<open>protocol/utf16.go\<close>. \<open>Messages\<close>: the request parsers and response builders of
    \<open>protocol/process.go\<close> and the DATA payload of \<open>common.go\<close>. \<open>Client\<close>: \<open>protocol/client.go\<close>.
  \<^item> \<open>Identity\<close>: \<open>identity/user.go\<close>.
  \<^item> \<open>Processor\<close>: \<open>protocol/process.go\<close> and \<open>tunnel.go\<close>: one definition per message type, the
    statistics, and the list of outside effects in their order. \<open>Session\<close>: the step relation of
    a session, its reachable states, the abstract phase diagram and the simulation, and
    termination of \<open>Process\<close> (a \<open>partial_function\<close>).
  \<^item> \<open>Security\<close>: \<open>security/\<close>: host templates, host policy, session check and tokens.
  \<^item> \<open>Config\<close>: \<open>config/configuration.go\<close>. \<open>Policy\<close>: \<open>main.go\<close>, the hooks a gateway gets, and
    the theorems that compose configuration, hooks and sessions.
  \<^item> \<open>Gateway_Entry\<close>: \<open>protocol/gateway.go\<close> and \<open>track.go\<close>: tunnels live in a heap, the cache
    and the registry hold references to them, so that the sharing between requests is visible.
  \<^item> \<open>Web_Auth\<close>: \<open>web/trusted_proxy.go\<close>, \<open>context.go\<close>, \<open>session.go\<close>, \<open>header.go\<close>, \<open>basic.go\<close>,
    \<open>ntlm.go\<close>, \<open>mux.go\<close>, \<open>authz.go\<close>. \<open>Web_OIDC\<close>: \<open>web/oidc.go\<close>.
  \<^item> \<open>Dashboard_Files\<close>, \<open>Dashboard_Entries\<close>, \<open>Dashboard_Store\<close>, \<open>Dashboard_Users\<close>,
    \<open>Dashboard_Icons\<close>: \<open>dashboard/\<close>. The disk maps paths to files, and an oracle decides of every
    operation whether it fails.

  \<^item> \<open>Rdp_Settings\<close>: \<open>rdp/rdp.go\<close>, the table of settings and the builder. \<open>Rdp_File\<close>:
    \<open>rdp/koanf/parsers/rdp/rdp.go\<close>, and what a parser reads back from a builder's file.
  \<^item> \<open>Web_Download\<close>: \<open>web/web.go\<close>, \<open>internal_dns.go\<close>, \<open>dashboard_download.go\<close>, \<open>token.go\<close>: the
    host, its address, the credentials and the file a user gets.
  \<^item> \<open>Web_Admin\<close>: \<open>web/admin_handlers.go\<close>; \<open>Web_Admin_Icons\<close>: \<open>web/admin_icon_handlers.go\<close>, the
    files of the web interface, and all administration requests behind \<open>AdminOnly\<close>.

  \<^item> \<open>Web_Pages\<close>: \<open>web/dashboard_page.go\<close> and the choice of language of \<open>dashboard_i18n.go\<close>, on
    \<open>Go_Query\<close>, the query strings of \<open>net/url\<close>. \<open>Web_Translations\<close>: the texts of \<open>dashboard_i18n.go\<close>
    in both languages, and their way into the script of a page.
  \<^item> \<open>Kdc_Proxy\<close>: \<open>kdcproxy/proxy.go\<close>. \<open>Auth_Service\<close>: \<open>src/cmd/auth/auth.go\<close>, \<open>config/\<close>,
    \<open>database/\<close> and \<open>ntlm/\<close>; \<open>Auth_Socket\<close>: the socket of \<open>auth.go\<close> and \<open>auth_unix.go\<close>.
  \<^item> \<open>Routes\<close>: the routes of \<open>main.go\<close> in the order of their registration, with the middlewares
    in front of each handler; the router itself is a parameter with the law \<open>mux_law\<close>.
    \<open>Portal\<close>: the start of the stores in \<open>main.go\<close>, and the components together. \<open>Startup\<close>:
    \<open>main\<close> up to the listener, with the session store of \<open>web/session.go\<close>, and what the running system owes to it.

  What the lemmas show, group by group.

  \<^item> Wire and framing: packets survive any fragmentation; \<open>readMessage\<close> returns on websocket
    frames of at most 65536 bytes (\<open>maxFragmentSize\<close>), and the two inputs on which it panics or
    runs forever are characterised.
  \<^item> Session: in every reachable state the policy answers and dials on record fit the phase
    reached; a dial comes after an accepting host policy and cookie policy; data reaches only
    the connection dialled; no message panics; the processor refines the phase diagram.
  \<^item> Security and policy: what an accepted token proves, which hosts each gateway can dial.
  \<^item> Identity and login: which identity the handlers see, what a login proves, that a login
    state is good for one login, that the browser stays on this host.
  \<^item> HTTP entry: the references between heap, cache and registry stay sound; what the two legacy
    channels share.
  \<^item> Dashboard: atomic writes, quotas, containment of paths, the stores as maps (locale
    \<open>keyed_store\<close>, interpreted on entries and on users), at most one active icon, visibility by
    group.

  \<^item> Downloads: what a connection file says and that a parser reads it so; who gets one, for which
    host, with whose token; that the token in it opens a session to exactly that host.
  \<^item> Administration: who can change anything and from where; each request is one operation of a
    store or none, whatever fails on the way; the helper's configuration follows the users.

  \<^item> Authentication helper: its database follows the file although requests reload it concurrently,
    an NTLM challenge is good for one login, the socket is never open to others.
  \<^item> KDC proxy: which requests are answered and with what, alike over both transports; no
    connection outlives its request.
  \<^item> Routes and portal: every handler stands behind its guard, which gateway a request
    reaches; from a user's record to his login, from the inventory to the hosts admitted, from the
    links of the dashboard to their downloads; the started system lets exactly the enabled users
    log in and honours the files it served; its texts are complete in both languages.

  Parameters stand for code that is not in the repository: JOSE (\<open>Security\<close>), the identity
  provider, the router (gorilla/mux), bcrypt, the NTLM library, ASN.1, DNS, the signer of connection files, \<open>mapstructure\<close>, the JSON and YAML coders (where a property needs it, with the hypothesis that decoding inverts
  encoding), URL parsing, the session store, the authentication service, image decoding, the clock,
  random bytes and UUIDs, expiry in go-cache, the outcome of every file operation and dial.

  Bounds and fuel. No definition uses fuel. \<open>readMessage\<close>, \<open>Process\<close> and
  \<open>ConnectAndForward\<close> are partial functions, and that they return is proved under the stated
  bounds. Machine integers are words where the code computes with them.

  Not modelled: goroutine scheduling inside a session (the two directions of forwarding are
  modelled as operations, not as an interleaving of their system calls), socket options, metrics,
  logging, TLS listeners and certificates, the discovery of the OpenID provider, and the HTML templates.
\<close>

end
